(* ===== verification/Bee_Prelude.thy ===== *)
theory Bee_Prelude
  imports Main "HOL-Library.Word"
begin

text \<open>
  The shared vocabulary of the development: machine integers at their Rust widths, results
  (\<open>Result<T, E>\<close> as \<open>'e + 'a\<close>), byte readers (\<open>std::io::Read\<close> over a slice, as a function from
  the unread bytes to a result and the bytes left), the sequencing of readers by the question mark
  operator, checked integer arithmetic, and the collections of simplification rules that the
  component theories use.
\<close>

section \<open>Machine integers and bytes\<close>

type_synonym byte = "8 word"
type_synonym u8 = "8 word"
type_synonym u16 = "16 word"
type_synonym u32 = "32 word"
type_synonym u64 = "64 word"
type_synonym i64 = "64 word"

text \<open>
  \<open>to_le_bytes\<close> and \<open>from_le_bytes\<close> of the integer types: the value's base 256 digits, least
  significant first.
\<close>

fun le_bytes :: "nat \<Rightarrow> nat \<Rightarrow> byte list" where
  "le_bytes 0 n = []"
| "le_bytes (Suc k) n = word_of_nat n # le_bytes k (n div 256)"

fun le_nat :: "byte list \<Rightarrow> nat" where
  "le_nat [] = 0"
| "le_nat (b # bs) = unat b + 256 * le_nat bs"

definition to_le_bytes :: "'a::len word \<Rightarrow> byte list" where
  "to_le_bytes w = le_bytes (LENGTH('a) div 8) (unat w)"

definition from_le_bytes :: "byte list \<Rightarrow> 'a::len word" where
  "from_le_bytes bs = word_of_nat (le_nat bs)"

lemma unat_less_pow: "unat (w :: 'a::len word) < 2 ^ LENGTH('a)"
  by (rule unsigned_less)

lemma length_le_bytes [simp]: "length (le_bytes k n) = k"
  by (induction k arbitrary: n) auto

lemma le_nat_le_bytes: "le_nat (le_bytes k n) = n mod 256 ^ k"
proof (induction k arbitrary: n)
  case 0
  then show ?case by simp
next
  case (Suc k)
  have "unat (word_of_nat n :: byte) = n mod 256"
    by (simp add: unat_of_nat)
  then show ?case
    using Suc [of "n div 256"] by (simp add: mod_mult2_eq)
qed

lemma le_nat_less: "le_nat bs < 256 ^ length bs"
proof (induction bs)
  case Nil
  then show ?case by simp
next
  case (Cons b bs)
  have "unat b < 256"
    using unat_less_pow [of b] by simp
  with Cons show ?case by simp
qed

lemma le_bytes_le_nat: "le_bytes (length bs) (le_nat bs) = bs"
proof (induction bs)
  case Nil
  then show ?case by simp
next
  case (Cons b bs)
  have b: "unat b < 256"
    using unat_less_pow [of b] by simp
  have "word_of_nat (unat b + 256 * le_nat bs) = b"
  proof (rule word_unat_eq_iff [THEN iffD2])
    show "unat (word_of_nat (unat b + 256 * le_nat bs) :: byte) = unat b"
      using b by (simp add: unat_of_nat del: of_nat_add of_nat_mult)
  qed
  moreover have "(unat b + 256 * le_nat bs) div 256 = le_nat bs"
    using b by simp
  ultimately show ?case
    using Cons by simp
qed

lemma pow_256_bytes: "8 dvd n \<Longrightarrow> (256::nat) ^ (n div 8) = 2 ^ n"
proof -
  assume "8 dvd n"
  then obtain k where "n = 8 * k" by (auto elim: dvdE)
  then show "(256::nat) ^ (n div 8) = 2 ^ n" by (simp add: power_mult)
qed

lemma length_to_le_bytes: "length (to_le_bytes (w :: 'a::len word)) = LENGTH('a) div 8"
  by (simp add: to_le_bytes_def)

lemma from_to_le_bytes:
  assumes "8 dvd LENGTH('a)"
  shows "from_le_bytes (to_le_bytes (w :: 'a::len word)) = w"
proof -
  have "le_nat (to_le_bytes w) = unat w mod 2 ^ LENGTH('a)"
    using pow_256_bytes [OF assms] by (simp add: to_le_bytes_def le_nat_le_bytes)
  also have "\<dots> = unat w"
    using unat_less_pow [of w] by simp
  finally show ?thesis
    by (simp add: from_le_bytes_def)
qed

lemma to_from_le_bytes:
  assumes "8 dvd LENGTH('a::len)" and "length bs = LENGTH('a) div 8"
  shows "to_le_bytes (from_le_bytes bs :: 'a word) = bs"
proof -
  have "le_nat bs < 2 ^ LENGTH('a)"
    using le_nat_less [of bs] pow_256_bytes [OF assms(1)] assms(2) by simp
  then have "unat (from_le_bytes bs :: 'a word) = le_nat bs"
    by (simp add: from_le_bytes_def unat_of_nat)
  then show ?thesis
    using le_bytes_le_nat [of bs] assms(2) by (simp add: to_le_bytes_def)
qed

section \<open>Checked arithmetic\<close>

text \<open>\<open>checked_add\<close> and \<open>checked_sub\<close> of the unsigned and of the signed 64 bit integers.\<close>

definition checked_add_u64 :: "u64 \<Rightarrow> u64 \<Rightarrow> u64 option" where
  "checked_add_u64 a b = (if unat a + unat b < 2 ^ 64 then Some (a + b) else None)"

definition checked_sub_u64 :: "u64 \<Rightarrow> u64 \<Rightarrow> u64 option" where
  "checked_sub_u64 a b = (if unat b \<le> unat a then Some (a - b) else None)"

definition i64_in_range :: "int \<Rightarrow> bool" where
  "i64_in_range i \<longleftrightarrow> - (2 ^ 63) \<le> i \<and> i < 2 ^ 63"

definition checked_add_i64 :: "i64 \<Rightarrow> i64 \<Rightarrow> i64 option" where
  "checked_add_i64 a b = (if i64_in_range (sint a + sint b) then Some (a + b) else None)"

definition checked_sub_i64 :: "i64 \<Rightarrow> i64 \<Rightarrow> i64 option" where
  "checked_sub_i64 a b = (if i64_in_range (sint a - sint b) then Some (a - b) else None)"

lemma checked_add_u64_Some:
  "checked_add_u64 a b = Some c \<Longrightarrow> unat c = unat a + unat b"
  by (auto simp: checked_add_u64_def unat_word_ariths split: if_splits)

lemma checked_add_u64_None:
  "checked_add_u64 a b = None \<longleftrightarrow> 2 ^ 64 \<le> unat a + unat b"
  by (auto simp: checked_add_u64_def)

lemma checked_sub_u64_Some:
  "checked_sub_u64 a b = Some c \<Longrightarrow> unat c + unat b = unat a"
  by (auto simp: checked_sub_u64_def word_le_nat_alt unat_sub split: if_splits)

lemma sint_range: "- (2 ^ 63) \<le> sint (w :: i64)" "sint (w :: i64) < 2 ^ 63"
  using sint_greater_eq [of w] sint_less [of w] by simp_all

lemma sint_i64_of_int: "i64_in_range i \<Longrightarrow> sint (word_of_int i :: i64) = i"
  by (simp add: i64_in_range_def sint_sbintrunc' signed_take_bit_int_eq_self_iff
      signed_take_bit_int_eq_self)

lemma checked_add_i64_Some:
  assumes "checked_add_i64 a b = Some c"
  shows "sint c = sint a + sint b"
proof -
  have r: "i64_in_range (sint a + sint b)" and c: "c = a + b"
    using assms by (auto simp: checked_add_i64_def split: if_splits)
  have "c = word_of_int (sint a + sint b)"
    by (simp add: c)
  then show ?thesis
    using sint_i64_of_int [OF r] by simp
qed

lemma checked_sub_i64_Some:
  assumes "checked_sub_i64 a b = Some c"
  shows "sint c = sint a - sint b"
proof -
  have r: "i64_in_range (sint a - sint b)" and c: "c = a - b"
    using assms by (auto simp: checked_sub_i64_def split: if_splits)
  have "c = word_of_int (sint a - sint b)"
    by (simp add: c)
  then show ?thesis
    using sint_i64_of_int [OF r] by simp
qed

section \<open>Results\<close>

text \<open>\<open>Option::ok_or\<close>, and the question mark operator on a value of type \<open>Result\<close>.\<close>

definition ok_or :: "'e \<Rightarrow> 'a option \<Rightarrow> 'e + 'a" where
  "ok_or e x = (case x of None \<Rightarrow> Inl e | Some y \<Rightarrow> Inr y)"

definition bindR :: "'e + 'a \<Rightarrow> ('a \<Rightarrow> 'e + 'b) \<Rightarrow> 'e + 'b" where
  "bindR r f = (case r of Inl e \<Rightarrow> Inl e | Inr x \<Rightarrow> f x)"

definition requireR :: "bool \<Rightarrow> 'e \<Rightarrow> 'e + unit" where
  "requireR b e = (if b then Inr () else Inl e)"

definition map_errR :: "('e \<Rightarrow> 'f) \<Rightarrow> 'e + 'a \<Rightarrow> 'f + 'a" where
  "map_errR f r = (case r of Inl e \<Rightarrow> Inl (f e) | Inr x \<Rightarrow> Inr x)"

lemma bindR_simps [simp]:
  "bindR (Inl e) f = Inl e"
  "bindR (Inr x) f = f x"
  by (simp_all add: bindR_def)

lemma bindR_Inr_iff: "bindR r f = Inr y \<longleftrightarrow> (\<exists>x. r = Inr x \<and> f x = Inr y)"
  by (cases r) auto

lemma bindR_Inl_iff:
  "bindR r f = Inl e \<longleftrightarrow> r = Inl e \<or> (\<exists>x. r = Inr x \<and> f x = Inl e)"
  by (cases r) auto

lemma ok_or_simps [simp]:
  "ok_or e None = Inl e"
  "ok_or e (Some x) = Inr x"
  by (simp_all add: ok_or_def)

lemma ok_or_Inr_iff [simp]: "ok_or e x = Inr y \<longleftrightarrow> x = Some y"
  by (cases x) auto

lemma ok_or_Inl_iff [simp]: "ok_or e x = Inl e' \<longleftrightarrow> x = None \<and> e' = e"
  by (cases x) auto

lemma requireR_simps [simp]:
  "requireR True e = Inr ()"
  "requireR False e = Inl e"
  by (simp_all add: requireR_def)

lemma requireR_Inr_iff [simp]: "requireR b e = Inr u \<longleftrightarrow> b"
  by (simp add: requireR_def)

lemma requireR_Inl_iff [simp]: "requireR b e = Inl e' \<longleftrightarrow> \<not> b \<and> e' = e"
  by (auto simp: requireR_def)

lemma map_errR_simps [simp]:
  "map_errR f (Inl e) = Inl (f e)"
  "map_errR f (Inr x) = Inr x"
  by (simp_all add: map_errR_def)

lemma map_errR_Inr_iff [simp]: "map_errR f r = Inr x \<longleftrightarrow> r = Inr x"
  by (cases r) auto

section \<open>Lists without repetitions\<close>

text \<open>The sources look for repetitions by counting: \<open>iter().filter(..).count() > 1\<close>.\<close>

lemma distinct_filter_iff: "distinct xs \<longleftrightarrow> (\<forall>x\<in>set xs. length (filter (\<lambda>y. y = x) xs) \<le> 1)"
proof (induction xs)
  case (Cons x xs)
  have "length (filter (\<lambda>y. y = x) xs) = 0 \<longleftrightarrow> x \<notin> set xs"
    by (auto simp: filter_empty_conv)
  with Cons show ?case by (auto simp: filter_empty_conv)
qed simp

lemma filter_map_filter:
  "length (filter (\<lambda>y. y = a) (List.map_filter f xs)) = length (filter (\<lambda>y. f y = Some a) xs)"
  by (induction xs) (auto simp: map_filter_simps split: option.splits)

lemma set_map_filter: "set (List.map_filter f xs) = {a. \<exists>x\<in>set xs. f x = Some a}"
  by (induction xs) (auto simp: map_filter_simps split: option.splits)

lemma distinct_map_filter_iff:
  "distinct (List.map_filter f xs) \<longleftrightarrow>
     (\<forall>x\<in>set xs. \<forall>a. f x = Some a \<longrightarrow> length (filter (\<lambda>y. f y = Some a) xs) \<le> 1)"
  by (auto simp: distinct_filter_iff filter_map_filter set_map_filter)

section \<open>Readers\<close>

type_synonym ('e, 'a) reader = "byte list \<Rightarrow> 'e + 'a \<times> byte list"

definition returnP :: "'a \<Rightarrow> ('e, 'a) reader" where
  "returnP x bs = Inr (x, bs)"

definition failP :: "'e \<Rightarrow> ('e, 'a) reader" where
  "failP e bs = Inl e"

definition bindP :: "('e, 'a) reader \<Rightarrow> ('a \<Rightarrow> ('e, 'b) reader) \<Rightarrow> ('e, 'b) reader" where
  "bindP p f bs = (case p bs of Inl e \<Rightarrow> Inl e | Inr (x, rest) \<Rightarrow> f x rest)"

text \<open>A result used inside a reader (\<open>Self::new(..)\<close> at the end of an \<open>unpack\<close>).\<close>

definition liftP :: "'e + 'a \<Rightarrow> ('e, 'a) reader" where
  "liftP r bs = (case r of Inl e \<Rightarrow> Inl e | Inr x \<Rightarrow> Inr (x, bs))"

text \<open>The early return \<open>if !cond { return Err(e); }\<close> inside a reader.\<close>

definition requireP :: "bool \<Rightarrow> 'e \<Rightarrow> ('e, unit) reader" where
  "requireP b e = (if b then returnP () else failP e)"

text \<open>The conversion of an error by \<open>From\<close> or \<open>map_err\<close>.\<close>

definition map_errP :: "('e \<Rightarrow> 'f) \<Rightarrow> ('e, 'a) reader \<Rightarrow> ('f, 'a) reader" where
  "map_errP f p bs = map_errR f (p bs)"

text \<open>The loop \<open>for _ in 0..n { v.push(p(reader)?); }\<close>.\<close>

fun repeatP :: "nat \<Rightarrow> ('e, 'a) reader \<Rightarrow> ('e, 'a list) reader" where
  "repeatP 0 p = returnP []"
| "repeatP (Suc n) p = bindP p (\<lambda>x. bindP (repeatP n p) (\<lambda>xs. returnP (x # xs)))"

lemma returnP_simp [simp]: "returnP x bs = Inr (x, bs)"
  by (simp add: returnP_def)

lemma failP_simp [simp]: "failP e bs = Inl e"
  by (simp add: failP_def)

lemma liftP_simps [simp]:
  "liftP (Inl e) bs = Inl e"
  "liftP (Inr x) bs = Inr (x, bs)"
  by (simp_all add: liftP_def)

lemma liftP_fun_simps [simp]:
  "liftP (Inl e) = failP e"
  "liftP (Inr x) = returnP x"
  by (rule ext, simp add: failP_def returnP_def liftP_def)+

lemma liftP_Inr_iff [simp]: "liftP r bs = Inr (x, rest) \<longleftrightarrow> r = Inr x \<and> rest = bs"
  by (cases r) auto

lemma liftP_Inl_iff [simp]: "liftP r bs = Inl e \<longleftrightarrow> r = Inl e"
  by (cases r) auto

lemma requireP_simps [simp]:
  "requireP True e bs = Inr ((), bs)"
  "requireP False e bs = Inl e"
  by (simp_all add: requireP_def)

lemma requireP_Inr_iff [simp]: "requireP b e bs = Inr (u, rest) \<longleftrightarrow> b \<and> rest = bs"
  by (auto simp: requireP_def)

lemma requireP_Inl_iff [simp]: "requireP b e bs = Inl e' \<longleftrightarrow> \<not> b \<and> e' = e"
  by (auto simp: requireP_def)

lemma map_errP_Inr_iff [simp]: "map_errP f p bs = Inr r \<longleftrightarrow> p bs = Inr r"
  by (simp add: map_errP_def)

lemma map_errP_Inr: "p bs = Inr r \<Longrightarrow> map_errP f p bs = Inr r"
  by simp

lemma bindP_run: "p bs = Inr (x, rest) \<Longrightarrow> bindP p f bs = f x rest"
  by (simp add: bindP_def)

lemma bindP_fail: "p bs = Inl e \<Longrightarrow> bindP p f bs = Inl e"
  by (simp add: bindP_def)

lemma bindP_Inr_iff:
  "bindP p f bs = Inr (y, rest) \<longleftrightarrow> (\<exists>x r. p bs = Inr (x, r) \<and> f x r = Inr (y, rest))"
  by (auto simp: bindP_def split: sum.splits prod.splits)

lemma bindP_cong:
  assumes "p bs = q bs" and "\<And>x rest. q bs = Inr (x, rest) \<Longrightarrow> f x rest = g x rest"
  shows "bindP p f bs = bindP q g bs"
  using assms by (auto simp: bindP_def split: sum.splits prod.splits)

lemma bindP_returnP [simp]: "bindP (returnP x) f = f x"
  by (rule ext) (simp add: bindP_def)

lemma bindP_failP [simp]: "bindP (failP e) f = failP e"
  by (rule ext) (simp add: bindP_def failP_def)

lemma bindP_requireP [simp]: "bindP (requireP b e) f = (if b then f () else failP e)"
  by (simp add: requireP_def)

lemma bindP_liftP [simp]:
  "bindP (liftP r) f = (case r of Inl e \<Rightarrow> failP e | Inr x \<Rightarrow> f x)"
  by (cases r) simp_all

lemma liftP_bindR: "liftP (bindR r f) = (case r of Inl e \<Rightarrow> failP e | Inr x \<Rightarrow> liftP (f x))"
  by (cases r) simp_all

lemma bindP_assoc [simp]: "bindP (bindP p f) g = bindP p (\<lambda>x. bindP (f x) g)"
  by (rule ext) (simp add: bindP_def split: sum.split)

lemma bindP_if_failP [simp]:
  "bindP (if b then p else failP e) f = (if b then bindP p f else failP e)"
  by simp

lemma length_repeatP: "repeatP n p bs = Inr (xs, rest) \<Longrightarrow> length xs = n"
  by (induction n arbitrary: bs xs) (auto simp: bindP_Inr_iff)

text \<open>\<open>Read::read_exact\<close> on a slice: the bytes asked for, or \<open>UnexpectedEof\<close>.\<close>

datatype io_error = UnexpectedEof

definition read_exact :: "nat \<Rightarrow> (io_error, byte list) reader" where
  "read_exact n bs = (if n \<le> length bs then Inr (take n bs, drop n bs) else Inl UnexpectedEof)"

lemma read_exact_append [simp]: "length xs = n \<Longrightarrow> read_exact n (xs @ rest) = Inr (xs, rest)"
  by (simp add: read_exact_def)

lemma read_exact_Inr_iff:
  "read_exact n bs = Inr (xs, rest) \<longleftrightarrow> bs = xs @ rest \<and> length xs = n"
  by (auto simp: read_exact_def)

end
