(* ===== verification/Memory_Tables.thy ===== *)
theory Memory_Tables
  imports Bee_Prelude
begin

text \<open>
  The tables of the in-memory storage backend (bee-storage-memory/src/table.rs): single values per
  key, sets of values per key kept as vectors, the same kept sorted and searched by bisection, and
  a table with one entry. A hash map is a partial map. The contract they share, a partial map from
  keys to values that batches of insertions and deletions update in order, is the locale
  \<open>keyed_table\<close>.
\<close>

section \<open>Batches\<close>

datatype ('k, 'v) BatchOp = BatchOp_Insert 'k 'v | BatchOp_Delete 'k

type_synonym ('k, 'v) TableBatch = "('k, 'v) BatchOp list"

definition TableBatch_insert :: "'k \<Rightarrow> 'v \<Rightarrow> ('k, 'v) TableBatch \<Rightarrow> ('k, 'v) TableBatch" where
  "TableBatch_insert k v batch = batch @ [BatchOp_Insert k v]"

definition TableBatch_delete :: "'k \<Rightarrow> ('k, 'v) TableBatch \<Rightarrow> ('k, 'v) TableBatch" where
  "TableBatch_delete k batch = batch @ [BatchOp_Delete k]"

text \<open>What a batch does to a partial map.\<close>

fun batch_map :: "('k, 'v) TableBatch \<Rightarrow> ('k \<rightharpoonup> 'v) \<Rightarrow> 'k \<rightharpoonup> 'v" where
  "batch_map [] m = m"
| "batch_map (BatchOp_Insert k v # ops) m = batch_map ops (m(k \<mapsto> v))"
| "batch_map (BatchOp_Delete k # ops) m = batch_map ops (m(k := None))"

fun batch_key :: "('k, 'v) BatchOp \<Rightarrow> 'k" where
  "batch_key (BatchOp_Insert k v) = k"
| "batch_key (BatchOp_Delete k) = k"

lemma batch_map_append [simp]: "batch_map (xs @ ys) m = batch_map ys (batch_map xs m)"
  by (induction xs m rule: batch_map.induct) (simp_all del: fun_upd_apply)

lemma batch_map_insert [simp]: "batch_map (TableBatch_insert k v b) m = (batch_map b m)(k \<mapsto> v)"
  by (simp add: TableBatch_insert_def)

lemma batch_map_delete [simp]: "batch_map (TableBatch_delete k b) m = (batch_map b m)(k := None)"
  by (simp add: TableBatch_delete_def)

lemma batch_map_other: "k \<notin> batch_key ` set ops \<Longrightarrow> batch_map ops m k = m k"
  by (induction ops m rule: batch_map.induct) simp_all

text \<open>Batches that insert or delete one key after the other.\<close>

lemma batch_map_inserts:
  "distinct (map fst es) \<Longrightarrow> batch_map (map (\<lambda>(k, v). BatchOp_Insert k v) es) m = m ++ map_of es"
proof (induction es arbitrary: m)
  case (Cons e es)
  obtain k v where e: "e = (k, v)" by (cases e)
  have "k \<notin> dom (map_of es)" using Cons.prems by (auto simp: e dom_map_of_conv_image_fst)
  then have "m(k \<mapsto> v) ++ map_of es = m ++ (map_of es)(k \<mapsto> v)"
    by (auto simp: map_add_def fun_eq_iff split: option.splits)
  with Cons show ?case by (simp add: e del: fun_upd_apply)
qed simp

lemma batch_map_insert_keys:
  "batch_map (map (\<lambda>e. BatchOp_Insert (f e) ()) es) m k = (if k \<in> f ` set es then Some () else m k)"
  by (induction es arbitrary: m) auto

lemma batch_map_delete_keys:
  "batch_map (map (\<lambda>e. BatchOp_Delete (f e)) es) m k = (if k \<in> f ` set es then None else m k)"
  by (induction es arbitrary: m) auto

section \<open>The contract of a table\<close>

locale keyed_table =
  fixes lookup :: "'t \<Rightarrow> 'k \<Rightarrow> 'v option"
    and ins :: "'k \<Rightarrow> 'v \<Rightarrow> 't \<Rightarrow> 't"
    and del :: "'k \<Rightarrow> 't \<Rightarrow> 't"
    and commit :: "('k, 'v) TableBatch \<Rightarrow> 't \<Rightarrow> 't"
    and inv :: "'t \<Rightarrow> bool"
  assumes inv_ins: "inv t \<Longrightarrow> inv (ins k v t)"
    and inv_del: "inv t \<Longrightarrow> inv (del k t)"
    and lookup_ins: "inv t \<Longrightarrow> lookup (ins k v t) k' = (if k' = k then Some v else lookup t k')"
    and lookup_del: "inv t \<Longrightarrow> lookup (del k t) k' = (if k' = k then None else lookup t k')"
    and commit_Nil: "commit [] t = t"
    and commit_Insert: "commit (BatchOp_Insert k v # ops) t = commit ops (ins k v t)"
    and commit_Delete: "commit (BatchOp_Delete k # ops) t = commit ops (del k t)"
begin

lemma inv_commit: "inv t \<Longrightarrow> inv (commit ops t)"
proof (induction ops arbitrary: t)
  case (Cons op ops)
  then show ?case by (cases op) (simp_all add: commit_Insert commit_Delete inv_ins inv_del)
qed (simp add: commit_Nil)

lemma lookup_commit: "inv t \<Longrightarrow> lookup (commit ops t) = batch_map ops (lookup t)"
proof (induction ops arbitrary: t)
  case (Cons op ops)
  have "lookup (ins k v t) = (lookup t)(k \<mapsto> v)" and "lookup (del k t) = (lookup t)(k := None)" for k v
    using Cons.prems by (auto simp: lookup_ins lookup_del)
  with Cons show ?case
    by (cases op) (simp_all add: commit_Insert commit_Delete inv_ins inv_del del: fun_upd_apply)
qed (simp add: commit_Nil)

lemma commit_append: "commit (xs @ ys) t = commit ys (commit xs t)"
proof (induction xs arbitrary: t)
  case (Cons op xs)
  then show ?case by (cases op) (simp_all add: commit_Insert commit_Delete)
qed (simp add: commit_Nil)

lemma lookup_commit_other:
  "inv t \<Longrightarrow> k \<notin> batch_key ` set ops \<Longrightarrow> lookup (commit ops t) k = lookup t k"
  by (simp add: lookup_commit batch_map_other)

end

section \<open>Tables with one value per key\<close>

type_synonym ('k, 'v) Table = "'k \<rightharpoonup> 'v"

definition Table_default :: "('k, 'v) Table" where
  "Table_default = Map.empty"

definition Table_fetch :: "('k, 'v) Table \<Rightarrow> 'k \<Rightarrow> 'v option" where
  "Table_fetch self k = self k"

definition Table_exist :: "('k, 'v) Table \<Rightarrow> 'k \<Rightarrow> bool" where
  "Table_exist self k \<longleftrightarrow> self k \<noteq> None"

definition Table_insert :: "'k \<Rightarrow> 'v \<Rightarrow> ('k, 'v) Table \<Rightarrow> ('k, 'v) Table" where
  "Table_insert k v self = self(k \<mapsto> v)"

definition Table_delete :: "'k \<Rightarrow> ('k, 'v) Table \<Rightarrow> ('k, 'v) Table" where
  "Table_delete k self = self(k := None)"

definition Table_truncate :: "('k, 'v) Table \<Rightarrow> ('k, 'v) Table" where
  "Table_truncate self = Map.empty"

fun Table_batch_commit :: "('k, 'v) TableBatch \<Rightarrow> ('k, 'v) Table \<Rightarrow> ('k, 'v) Table" where
  "Table_batch_commit [] self = self"
| "Table_batch_commit (op # batch) self =
     Table_batch_commit batch
       (case op of BatchOp_Insert k v \<Rightarrow> self(k \<mapsto> v) | BatchOp_Delete k \<Rightarrow> self(k := None))"

fun Table_multi_fetch :: "('k, 'v) Table \<Rightarrow> 'k list \<Rightarrow> 'v option list" where
  "Table_multi_fetch self [] = []"
| "Table_multi_fetch self (k # ks) = self k # Table_multi_fetch self ks"

interpretation Table: keyed_table Table_fetch Table_insert Table_delete Table_batch_commit "\<lambda>_. True"
  by unfold_locales (simp_all add: Table_fetch_def Table_insert_def Table_delete_def)

section \<open>Tables with a vector of values per key\<close>

text \<open>\<open>Vec::remove\<close> and \<open>Vec::insert\<close>.\<close>

definition vec_remove :: "nat \<Rightarrow> 'a list \<Rightarrow> 'a list" where
  "vec_remove i xs = take i xs @ drop (Suc i) xs"

definition vec_insert :: "nat \<Rightarrow> 'a \<Rightarrow> 'a list \<Rightarrow> 'a list" where
  "vec_insert i x xs = take i xs @ x # drop i xs"

type_synonym ('k, 'v) VecTable = "'k \<rightharpoonup> 'v list"

definition VecTable_fetch :: "('k, 'v) VecTable \<Rightarrow> 'k \<Rightarrow> 'v list option" where
  "VecTable_fetch self k = (case self k of Some vs \<Rightarrow> Some vs | None \<Rightarrow> Some [])"

definition VecTable_exist :: "('k, 'v) VecTable \<Rightarrow> 'k \<times> 'v \<Rightarrow> bool" where
  "VecTable_exist self = (\<lambda>(k, v). case self k of Some vs \<Rightarrow> v \<in> set vs | None \<Rightarrow> False)"

definition or_empty :: "'v list option \<Rightarrow> 'v list" where
  "or_empty x = (case x of Some vs \<Rightarrow> vs | None \<Rightarrow> [])"

definition VecTable_insert :: "'k \<times> 'v \<Rightarrow> unit \<Rightarrow> ('k, 'v) VecTable \<Rightarrow> ('k, 'v) VecTable" where
  "VecTable_insert = (\<lambda>(k, v) _ self.
     let vs = or_empty (self k) in
     self(k \<mapsto> (if v \<notin> set vs then vs @ [v] else vs)))"

text \<open>The loop that deletes the first occurrence of a value.\<close>

fun delete_loop :: "nat \<Rightarrow> 'v list \<Rightarrow> 'v \<Rightarrow> 'v list \<Rightarrow> 'v list" where
  "delete_loop i [] v vs = vs"
| "delete_loop i (found # rest) v vs = (if found = v then vec_remove i vs else delete_loop (Suc i) rest v vs)"

definition VecTable_delete :: "'k \<times> 'v \<Rightarrow> ('k, 'v) VecTable \<Rightarrow> ('k, 'v) VecTable" where
  "VecTable_delete = (\<lambda>(k, v) self.
     case self k of
       Some vs \<Rightarrow> self(k \<mapsto> delete_loop 0 vs v vs)
     | None \<Rightarrow> self)"

definition VecTable_truncate :: "('k, 'v) VecTable \<Rightarrow> ('k, 'v) VecTable" where
  "VecTable_truncate self = Map.empty"

fun VecTable_batch_commit :: "('k \<times> 'v, unit) TableBatch \<Rightarrow> ('k, 'v) VecTable \<Rightarrow> ('k, 'v) VecTable" where
  "VecTable_batch_commit [] self = self"
| "VecTable_batch_commit (BatchOp_Insert (k, v) u # batch) self =
     VecTable_batch_commit batch
       (let vs = or_empty (self k) in self(k \<mapsto> (if v \<notin> set vs then vs @ [v] else vs)))"
| "VecTable_batch_commit (BatchOp_Delete (k, v) # batch) self =
     VecTable_batch_commit batch
       (case self k of
          Some vs \<Rightarrow> self(k \<mapsto> delete_loop 0 vs v vs)
        | None \<Rightarrow> self)"

definition VecTable_lookup :: "('k, 'v) VecTable \<Rightarrow> 'k \<times> 'v \<Rightarrow> unit option" where
  "VecTable_lookup self kv = (if VecTable_exist self kv then Some () else None)"

definition VecTable_inv :: "('k, 'v) VecTable \<Rightarrow> bool" where
  "VecTable_inv self \<longleftrightarrow> (\<forall>k vs. self k = Some vs \<longrightarrow> distinct vs)"

lemma delete_loop_remove1:
  "delete_loop (length pre) vs v (pre @ vs) = (if v \<in> set vs then pre @ remove1 v vs else pre @ vs)"
proof (induction vs arbitrary: pre)
  case (Cons x vs)
  have "delete_loop (Suc (length pre)) vs v (pre @ x # vs) =
      (if v \<in> set vs then (pre @ [x]) @ remove1 v vs else pre @ x # vs)"
    using Cons.IH [of "pre @ [x]"] by simp
  then show ?case by (auto simp: vec_remove_def)
qed simp

lemma delete_loop_eq [simp]: "delete_loop 0 vs v vs = remove1 v vs"
  using delete_loop_remove1 [of "[]" vs v] by (auto simp: remove1_idem)

interpretation VecTable: keyed_table VecTable_lookup VecTable_insert VecTable_delete
    VecTable_batch_commit VecTable_inv
proof (unfold_locales, goal_cases)
  case (1 t k v)
  then show ?case
    by (auto simp: VecTable_inv_def VecTable_insert_def or_empty_def Let_def split: option.splits prod.splits)
next
  case (2 t k)
  then show ?case
    by (auto simp: VecTable_inv_def VecTable_delete_def split: option.splits prod.splits)
next
  case (3 t k v k')
  then show ?case
    by (auto simp: VecTable_lookup_def VecTable_exist_def VecTable_insert_def or_empty_def Let_def
        split: option.splits prod.splits)
next
  case (4 t k k')
  then show ?case
    by (auto simp: VecTable_inv_def VecTable_lookup_def VecTable_exist_def VecTable_delete_def
        set_remove1_eq split: option.splits prod.splits)
next
  case (6 k v ops t)
  then show ?case by (cases k) (simp add: VecTable_insert_def Let_def)
next
  case (7 k ops t)
  then show ?case by (cases k) (simp add: VecTable_delete_def split: option.splits)
qed simp

lemma VecTable_fetch_set: "set (the (VecTable_fetch t k)) = {v. VecTable_lookup t (k, v) = Some ()}"
  by (auto simp: VecTable_fetch_def VecTable_lookup_def VecTable_exist_def split: option.splits)

lemma VecTable_fetch_distinct: "VecTable_inv t \<Longrightarrow> distinct (the (VecTable_fetch t k))"
  by (auto simp: VecTable_fetch_def VecTable_inv_def split: option.splits)

section \<open>Tables with a sorted vector of values per key\<close>

text \<open>\<open>slice::binary_search\<close> of the Rust library: \<open>Inr\<close> is the index of an equal element, \<open>Inl\<close>
  where the value could be inserted.\<close>

function bisect :: "'a::linorder list \<Rightarrow> 'a \<Rightarrow> nat \<Rightarrow> nat \<Rightarrow> nat + nat" where
  "bisect xs x left right =
     (if left < right
      then let mid = left + (right - left) div 2 in
        if xs ! mid < x then bisect xs x (mid + 1) right
        else if x < xs ! mid then bisect xs x left mid
        else Inr mid
      else Inl left)"
  by pat_completeness auto

termination
  by (relation "measure (\<lambda>(xs, x, left, right). right - left)") (auto simp: Let_def)

declare bisect.simps [simp del]

definition binary_search :: "'a::linorder list \<Rightarrow> 'a \<Rightarrow> nat + nat" where
  "binary_search xs x = bisect xs x 0 (length xs)"

type_synonym ('k, 'v) VecBinTable = "'k \<rightharpoonup> 'v list"

definition VecBinTable_fetch :: "('k, 'v) VecBinTable \<Rightarrow> 'k \<Rightarrow> 'v list option" where
  "VecBinTable_fetch self k = (case self k of Some vs \<Rightarrow> Some vs | None \<Rightarrow> Some [])"

definition VecBinTable_exist :: "('k, 'v::linorder) VecBinTable \<Rightarrow> 'k \<times> 'v \<Rightarrow> bool" where
  "VecBinTable_exist self = (\<lambda>(k, v).
     case self k of Some vs \<Rightarrow> \<not> isl (binary_search vs v) | None \<Rightarrow> False)"

definition VecBinTable_insert ::
  "'k \<times> 'v \<Rightarrow> unit \<Rightarrow> ('k, 'v::linorder) VecBinTable \<Rightarrow> ('k, 'v) VecBinTable" where
  "VecBinTable_insert = (\<lambda>(k, v) _ self.
     let vs = or_empty (self k) in
     self(k \<mapsto> (case binary_search vs v of Inl i \<Rightarrow> vec_insert i v vs | Inr _ \<Rightarrow> vs)))"

definition VecBinTable_delete :: "'k \<times> 'v \<Rightarrow> ('k, 'v::linorder) VecBinTable \<Rightarrow> ('k, 'v) VecBinTable" where
  "VecBinTable_delete = (\<lambda>(k, v) self.
     case self k of
       Some vs \<Rightarrow> (case binary_search vs v of Inr i \<Rightarrow> self(k \<mapsto> vec_remove i vs) | Inl _ \<Rightarrow> self)
     | None \<Rightarrow> self)"

definition VecBinTable_truncate :: "('k, 'v) VecBinTable \<Rightarrow> ('k, 'v) VecBinTable" where
  "VecBinTable_truncate self = Map.empty"

fun VecBinTable_batch_commit ::
  "('k \<times> 'v, unit) TableBatch \<Rightarrow> ('k, 'v::linorder) VecBinTable \<Rightarrow> ('k, 'v) VecBinTable" where
  "VecBinTable_batch_commit [] self = self"
| "VecBinTable_batch_commit (BatchOp_Insert (k, v) u # batch) self =
     VecBinTable_batch_commit batch
       (let vs = or_empty (self k) in
        self(k \<mapsto> (case binary_search vs v of Inl i \<Rightarrow> vec_insert i v vs | Inr _ \<Rightarrow> vs)))"
| "VecBinTable_batch_commit (BatchOp_Delete (k, v) # batch) self =
     VecBinTable_batch_commit batch
       (case self k of
          Some vs \<Rightarrow> (case binary_search vs v of Inr i \<Rightarrow> self(k \<mapsto> vec_remove i vs) | Inl _ \<Rightarrow> self)
        | None \<Rightarrow> self)"

definition VecBinTable_lookup :: "('k, 'v::linorder) VecBinTable \<Rightarrow> 'k \<times> 'v \<Rightarrow> unit option" where
  "VecBinTable_lookup self kv = (if VecBinTable_exist self kv then Some () else None)"

definition VecBinTable_inv :: "('k, 'v::linorder) VecBinTable \<Rightarrow> bool" where
  "VecBinTable_inv self \<longleftrightarrow> (\<forall>k vs. self k = Some vs \<longrightarrow> sorted_wrt (<) vs)"

text \<open>On a strictly sorted vector bisection finds the value or its place.\<close>

lemma bisect_correct:
  assumes "sorted_wrt (<) xs" and "right \<le> length xs"
    and "\<And>i. i < left \<Longrightarrow> xs ! i < x" and "\<And>i. right \<le> i \<Longrightarrow> i < length xs \<Longrightarrow> x < xs ! i"
    and "left \<le> right"
  shows "case bisect xs x left right of
      Inr i \<Rightarrow> i < length xs \<and> xs ! i = x
    | Inl i \<Rightarrow> i \<le> length xs \<and> (\<forall>j < i. xs ! j < x) \<and> (\<forall>j. i \<le> j \<longrightarrow> j < length xs \<longrightarrow> x < xs ! j)"
  using assms
proof (induction xs x left right rule: bisect.induct)
  case (1 xs x left right)
  let ?mid = "left + (right - left) div 2"
  show ?case
  proof (cases "left < right")
    case False
    with "1.prems" show ?thesis by (subst bisect.simps) auto
  next
    case True
    then have mid: "left \<le> ?mid" "?mid < right" by auto
    have below: "xs ! i < xs ! ?mid" if "i < ?mid" for i
      using "1.prems"(1,2) mid that by (simp add: sorted_wrt_iff_nth_less)
    have above: "xs ! ?mid < xs ! i" if "?mid < i" "i < length xs" for i
      using "1.prems"(1) that by (simp add: sorted_wrt_iff_nth_less)
    consider "xs ! ?mid < x" | "x < xs ! ?mid" | "xs ! ?mid = x" by fastforce
    then show ?thesis
    proof cases
      case c: 1
      have "i < ?mid + 1 \<Longrightarrow> xs ! i < x" for i
        using below [of i] c by (cases "i = ?mid") auto
      with "1.IH"(1) [OF True refl c] "1.prems" mid c True show ?thesis
        by (subst bisect.simps) (simp add: Let_def)
    next
      case c: 2
      have "?mid \<le> i \<Longrightarrow> i < length xs \<Longrightarrow> x < xs ! i" for i
        using above [of i] c by (cases "i = ?mid") auto
      moreover have "\<not> xs ! ?mid < x" using c by simp
      ultimately show ?thesis
        using "1.IH"(2) [OF True refl _ c] "1.prems" mid c True
        by (subst bisect.simps) (simp add: Let_def)
    next
      case 3
      with True mid "1.prems" show ?thesis by (subst bisect.simps) (simp add: Let_def)
    qed
  qed
qed

lemma binary_search_Inr: "sorted_wrt (<) xs \<Longrightarrow> binary_search xs x = Inr i \<Longrightarrow> i < length xs \<and> xs ! i = x"
  using bisect_correct [of xs "length xs" 0 x] by (simp add: binary_search_def)

lemma binary_search_Inl:
  "sorted_wrt (<) xs \<Longrightarrow> binary_search xs x = Inl i \<Longrightarrow>
     i \<le> length xs \<and> (\<forall>y \<in> set (take i xs). y < x) \<and> (\<forall>y \<in> set (drop i xs). x < y)"
  using bisect_correct [of xs "length xs" 0 x]
  by (auto simp: binary_search_def in_set_conv_nth)

lemma binary_search_isl: "sorted_wrt (<) xs \<Longrightarrow> isl (binary_search xs x) \<longleftrightarrow> x \<notin> set xs"
proof (cases "binary_search xs x")
  case (Inl i)
  assume s: "sorted_wrt (<) xs"
  have "set xs = set (take i xs) \<union> set (drop i xs)" by (metis append_take_drop_id set_append)
  with binary_search_Inl [OF s Inl] Inl show ?thesis by auto
qed (auto dest: binary_search_Inr)

lemma vec_insert_sorted:
  assumes "sorted_wrt (<) xs" and "binary_search xs x = Inl i"
  shows "sorted_wrt (<) (vec_insert i x xs)" and "set (vec_insert i x xs) = insert x (set xs)"
proof -
  note b = binary_search_Inl [OF assms]
  have s: "sorted_wrt (<) (take i xs @ drop i xs)" using assms(1) by simp
  then show "sorted_wrt (<) (vec_insert i x xs)"
    using b by (auto simp: vec_insert_def sorted_wrt_append simp del: append_take_drop_id)
  have "set xs = set (take i xs) \<union> set (drop i xs)" by (metis append_take_drop_id set_append)
  then show "set (vec_insert i x xs) = insert x (set xs)" by (simp add: vec_insert_def)
qed

lemma vec_remove_sorted:
  assumes "sorted_wrt (<) xs" and "binary_search xs x = Inr i"
  shows "sorted_wrt (<) (vec_remove i xs)" and "set (vec_remove i xs) = set xs - {x}"
proof -
  have i: "i < length xs" "xs ! i = x" using binary_search_Inr [OF assms] by simp_all
  then have xs: "xs = take i xs @ x # drop (Suc i) xs" by (auto simp: id_take_nth_drop)
  have "sorted_wrt (<) (take i xs @ x # drop (Suc i) xs)" using assms(1) xs by simp
  then have *: "sorted_wrt (<) (take i xs @ drop (Suc i) xs)" "x \<notin> set (take i xs)" "x \<notin> set (drop (Suc i) xs)"
    by (auto simp: sorted_wrt_append)
  then show "sorted_wrt (<) (vec_remove i xs)" by (simp add: vec_remove_def)
  have "set xs = insert x (set (take i xs) \<union> set (drop (Suc i) xs))" by (subst xs) simp
  with * show "set (vec_remove i xs) = set xs - {x}" by (auto simp: vec_remove_def)
qed

lemma VecBinTable_exist_iff:
  "VecBinTable_inv t \<Longrightarrow> VecBinTable_exist t (k, v) \<longleftrightarrow> v \<in> set (or_empty (t k))"
  by (auto simp: VecBinTable_exist_def VecBinTable_inv_def or_empty_def binary_search_isl split: option.splits)

lemma VecBinTable_insert_entry:
  assumes "VecBinTable_inv t"
  shows "VecBinTable_inv (VecBinTable_insert (k, v) u t)"
    and "set (or_empty (VecBinTable_insert (k, v) u t k')) =
      (if k' = k then insert v (set (or_empty (t k'))) else set (or_empty (t k')))"
proof -
  have s: "sorted_wrt (<) (or_empty (t k))"
    using assms by (auto simp: VecBinTable_inv_def or_empty_def split: option.splits)
  have "v \<in> set (or_empty (t k))" if "binary_search (or_empty (t k)) v = Inr i" for i
    using binary_search_isl [OF s, of v] that by simp
  then show "set (or_empty (VecBinTable_insert (k, v) u t k')) =
      (if k' = k then insert v (set (or_empty (t k'))) else set (or_empty (t k')))"
    using vec_insert_sorted [OF s, of v]
    by (auto simp: VecBinTable_insert_def Let_def or_empty_def [of "Some _"] split: sum.splits)
  show "VecBinTable_inv (VecBinTable_insert (k, v) u t)"
    using assms vec_insert_sorted [OF s, of v] s
    by (auto simp: VecBinTable_inv_def VecBinTable_insert_def Let_def split: sum.splits)
qed

lemma VecBinTable_delete_entry:
  assumes "VecBinTable_inv t"
  shows "VecBinTable_inv (VecBinTable_delete (k, v) t)"
    and "set (or_empty (VecBinTable_delete (k, v) t k')) =
      (if k' = k then set (or_empty (t k')) - {v} else set (or_empty (t k')))"
proof -
  have s: "sorted_wrt (<) (or_empty (t k))"
    using assms by (auto simp: VecBinTable_inv_def or_empty_def split: option.splits)
  have "v \<notin> set (or_empty (t k))" if "binary_search (or_empty (t k)) v = Inl i" for i
    using binary_search_isl [OF s, of v] that by simp
  then show "set (or_empty (VecBinTable_delete (k, v) t k')) =
      (if k' = k then set (or_empty (t k')) - {v} else set (or_empty (t k')))"
    using vec_remove_sorted [OF s, of v]
    by (auto simp: VecBinTable_delete_def or_empty_def split: sum.splits option.splits)
  show "VecBinTable_inv (VecBinTable_delete (k, v) t)"
    using assms vec_remove_sorted [OF s, of v]
    by (auto simp: VecBinTable_inv_def VecBinTable_delete_def or_empty_def split: sum.splits option.splits)
qed

interpretation VecBinTable: keyed_table VecBinTable_lookup VecBinTable_insert VecBinTable_delete
    VecBinTable_batch_commit VecBinTable_inv
proof (unfold_locales, goal_cases)
  case (1 t k v)
  then show ?case by (cases k) (simp add: VecBinTable_insert_entry)
next
  case (2 t k)
  then show ?case by (cases k) (simp add: VecBinTable_delete_entry)
next
  case (3 t k v k')
  then show ?case
    by (cases k; cases k') (simp add: VecBinTable_lookup_def VecBinTable_exist_iff VecBinTable_insert_entry)
next
  case (4 t k k')
  then show ?case
    by (cases k; cases k') (simp add: VecBinTable_lookup_def VecBinTable_exist_iff VecBinTable_delete_entry)
next
  case (6 k v ops t)
  then show ?case by (cases k) (simp add: VecBinTable_insert_def Let_def)
next
  case (7 k ops t)
  then show ?case by (cases k) (simp add: VecBinTable_delete_def)
qed simp

lemma VecBinTable_fetch_set:
  "VecBinTable_inv t \<Longrightarrow> set (the (VecBinTable_fetch t k)) = {v. VecBinTable_lookup t (k, v) = Some ()}"
  by (auto simp: VecBinTable_fetch_def VecBinTable_lookup_def VecBinTable_exist_iff or_empty_def split: option.splits)

section \<open>Tables with a single entry\<close>

type_synonym 'v SingletonTable = "'v option"

definition SingletonTable_fetch :: "'v SingletonTable \<Rightarrow> unit \<Rightarrow> 'v option" where
  "SingletonTable_fetch self u = self"

definition SingletonTable_exist :: "'v SingletonTable \<Rightarrow> unit \<Rightarrow> bool" where
  "SingletonTable_exist self u \<longleftrightarrow> self \<noteq> None"

definition SingletonTable_insert :: "unit \<Rightarrow> 'v \<Rightarrow> 'v SingletonTable \<Rightarrow> 'v SingletonTable" where
  "SingletonTable_insert u v self = Some v"

definition SingletonTable_delete :: "unit \<Rightarrow> 'v SingletonTable \<Rightarrow> 'v SingletonTable" where
  "SingletonTable_delete u self = None"

fun SingletonTable_batch_commit :: "(unit, 'v) TableBatch \<Rightarrow> 'v SingletonTable \<Rightarrow> 'v SingletonTable" where
  "SingletonTable_batch_commit [] self = self"
| "SingletonTable_batch_commit (op # batch) self =
     SingletonTable_batch_commit batch
       (case op of BatchOp_Insert u v \<Rightarrow> Some v | BatchOp_Delete u \<Rightarrow> None)"

interpretation SingletonTable: keyed_table SingletonTable_fetch SingletonTable_insert
    SingletonTable_delete SingletonTable_batch_commit "\<lambda>_. True"
  by unfold_locales
    (simp_all add: SingletonTable_fetch_def SingletonTable_insert_def SingletonTable_delete_def)

end
