(* ===== verification/Packable.thy ===== *)
theory Packable
  imports Bee_Prelude
begin

text \<open>
  The serialisation trait \<open>Packable\<close> of bee-common and its implementations for integers, byte
  arrays, booleans, vectors and options (bee-common/bee-common/src/packable.rs).

  A writer is a growing vector, so \<open>pack\<close> is the list of bytes it writes (writing to a vector does
  not fail); \<open>unpack_inner\<close> is a reader that takes the constant generic \<open>CHECK\<close> as its first
  argument. The trait's contract is the locale \<open>codec\<close>: the packed length is the number of bytes
  written, what was packed is unpacked again, what is unpacked under \<open>CHECK\<close> is well formed, and a
  reader takes exactly the bytes that the value it returns occupies. \<open>canonical_codec\<close> adds that
  the bytes read are the ones the value packs to.
\<close>

section \<open>The contract of the trait\<close>

lemma length_prefix_of_drop:
  assumes "bs = p @ rest" and "n \<le> length bs" and "rest = drop n bs"
  shows "length p = n"
proof -
  have "length rest = length bs - n" using assms(3) by simp
  moreover have "length bs = length p + length rest" using assms(1) by simp
  ultimately show ?thesis using assms(2) by linarith
qed

named_theorems codec_run and codec_len and codec_drop and codec_dest

locale codec =
  fixes packed_len :: "'a \<Rightarrow> nat"
    and pack :: "'a \<Rightarrow> byte list"
    and unpack :: "bool \<Rightarrow> ('e, 'a) reader"
    and valid :: "'a \<Rightarrow> bool"
  assumes length_pack [codec_len]: "valid x \<Longrightarrow> length (pack x) = packed_len x"
    and unpack_pack [codec_run]: "valid x \<Longrightarrow> unpack c (pack x @ rest) = Inr (x, rest)"
    and unpack_valid: "unpack True bs = Inr (x, rest) \<Longrightarrow> valid x"
    and unpack_rest:
      "unpack c bs = Inr (x, rest) \<Longrightarrow> packed_len x \<le> length bs \<and> rest = drop (packed_len x) bs"
begin

lemma unpack_pack_nil [codec_run]: "valid x \<Longrightarrow> unpack c (pack x) = Inr (x, [])"
  using unpack_pack [of x c "[]"] by simp

lemma bind_unpack [codec_run]:
  "valid x \<Longrightarrow> bindP (unpack c) f (pack x @ rest) = f x rest"
  "valid x \<Longrightarrow> bindP (unpack c) f (pack x) = f x []"
  by (simp_all add: bindP_def unpack_pack unpack_pack_nil)

lemma pack_prefix_free:
  assumes "valid x" and "valid y" and "pack x @ r = pack y @ s"
  shows "x = y \<and> r = s"
proof -
  have "Inr (x, r) = unpack True (pack x @ r)" by (simp only: unpack_pack [OF assms(1)])
  also have "\<dots> = Inr (y, s)" unfolding assms(3) by (rule unpack_pack [OF assms(2)])
  finally show ?thesis by simp
qed

lemma pack_inj: "valid x \<Longrightarrow> valid y \<Longrightarrow> pack x = pack y \<Longrightarrow> x = y"
  using pack_prefix_free [of x y "[]" "[]"] by simp

lemma repeat_run [codec_run]:
  "list_all valid xs \<Longrightarrow> length xs = n \<Longrightarrow>
     repeatP n (unpack c) (concat (map pack xs) @ rest) = Inr (xs, rest)"
proof (induction xs arbitrary: n)
  case Nil
  then show ?case by simp
next
  case (Cons x xs)
  then obtain m where "n = Suc m" and "length xs = m" by (cases n) auto
  with Cons show ?case
    by (simp add: bindP_def unpack_pack)
qed

lemma bind_repeat [codec_run]:
  "list_all valid xs \<Longrightarrow> length xs = n \<Longrightarrow>
     bindP (repeatP n (unpack c)) f (concat (map pack xs) @ rest) = f xs rest"
  by (simp add: bindP_def repeat_run)

lemma length_concat [codec_len]:
  "list_all valid xs \<Longrightarrow> length (concat (map pack xs)) = sum_list (map packed_len xs)"
  by (induction xs) (auto simp: length_pack)

lemma repeat_valid:
  "repeatP n (unpack True) bs = Inr (xs, rest) \<Longrightarrow> list_all valid xs"
  by (induction n arbitrary: bs xs) (auto simp: bindP_Inr_iff dest: unpack_valid)

lemma repeat_rest:
  "repeatP n (unpack c) bs = Inr (xs, rest) \<Longrightarrow>
     sum_list (map packed_len xs) \<le> length bs \<and> rest = drop (sum_list (map packed_len xs)) bs"
proof (induction n arbitrary: bs xs)
  case 0
  then show ?case by simp
next
  case (Suc n)
  then obtain x r ys where x: "unpack c bs = Inr (x, r)"
    and ys: "repeatP n (unpack c) r = Inr (ys, rest)" and xs: "xs = x # ys"
    by (auto simp: bindP_Inr_iff)
  from Suc.IH [OF ys] unpack_rest [OF x] xs show ?case
    by (auto simp: add.commute)
qed

lemma unpack_drop [codec_drop]:
  "unpack c bs = Inr (x, rest) \<Longrightarrow>
     packed_len x \<le> length bs \<and> rest = drop (packed_len x) bs \<and> (c \<longrightarrow> valid x)"
  using unpack_rest [of c bs x rest] unpack_valid [of bs x rest] by (cases c) auto

lemma repeat_drop [codec_drop]:
  "repeatP n (unpack c) bs = Inr (xs, rest) \<Longrightarrow>
     length xs = n \<and> sum_list (map packed_len xs) \<le> length bs \<and>
     rest = drop (sum_list (map packed_len xs)) bs \<and> (c \<longrightarrow> list_all valid xs)"
  using repeat_rest [of n c bs xs rest] repeat_valid [of n bs xs rest] length_repeatP
  by (cases c) auto

lemma map_err_codec: "codec packed_len pack (\<lambda>c. map_errP f (unpack c)) valid"
  by unfold_locales
    (auto simp: codec_len map_errP_def unpack_pack dest: unpack_valid unpack_rest)

end

locale canonical_codec = codec +
  assumes pack_unpack: "unpack c bs = Inr (x, rest) \<Longrightarrow> bs = pack x @ rest"
begin

lemma unpack_dest [codec_dest]:
  "unpack c bs = Inr (x, rest) \<Longrightarrow>
     bs = pack x @ rest \<and> length (pack x) = packed_len x \<and> (c \<longrightarrow> valid x)"
  using unpack_drop pack_unpack length_prefix_of_drop by blast

lemma repeat_pack_unpack:
  "repeatP n (unpack c) bs = Inr (xs, rest) \<Longrightarrow> bs = concat (map pack xs) @ rest"
  by (induction n arbitrary: bs xs) (auto simp: bindP_Inr_iff dest!: pack_unpack)

lemma repeat_dest [codec_dest]:
  "repeatP n (unpack c) bs = Inr (xs, rest) \<Longrightarrow>
     length xs = n \<and> bs = concat (map pack xs) @ rest \<and>
     length (concat (map pack xs)) = sum_list (map packed_len xs) \<and> (c \<longrightarrow> list_all valid xs)"
proof -
  assume u: "repeatP n (unpack c) bs = Inr (xs, rest)"
  with repeat_drop repeat_pack_unpack length_prefix_of_drop show ?thesis by blast
qed

lemma map_err_canonical: "canonical_codec packed_len pack (\<lambda>c. map_errP f (unpack c)) valid"
  using map_err_codec [of f] pack_unpack
  by (simp add: canonical_codec_def canonical_codec_axioms_def)

lemma unpack_iff:
  "unpack True bs = Inr (x, rest) \<longleftrightarrow> valid x \<and> bs = pack x @ rest"
  by (auto simp: unpack_pack dest: unpack_valid pack_unpack)

end

section \<open>Composition\<close>

text \<open>Two fields packed one after the other, and a type whose values are built from the fields by a
  constructor that may refuse them (\<open>Self::new\<close>).\<close>

definition seqP :: "(bool \<Rightarrow> ('e, 'a) reader) \<Rightarrow> (bool \<Rightarrow> ('e, 'b) reader) \<Rightarrow> bool \<Rightarrow> ('e, 'a \<times> 'b) reader"
where
  "seqP p q c = bindP (p c) (\<lambda>x. bindP (q c) (\<lambda>y. returnP (x, y)))"

lemma seqP_Inr_iff:
  "seqP p q c bs = Inr (z, rest) \<longleftrightarrow>
     (\<exists>r. p c bs = Inr (fst z, r) \<and> q c r = Inr (snd z, rest))"
  by (cases z) (auto simp: seqP_def bindP_Inr_iff)

lemma bindP_seqP [simp]:
  "bindP (seqP p q c) f = bindP (p c) (\<lambda>x. bindP (q c) (\<lambda>y. f (x, y)))"
  by (simp add: seqP_def)

lemma seq_codec:
  assumes "codec l p u v" and "codec l' p' u' v'"
  shows "codec (\<lambda>z. l (fst z) + l' (snd z)) (\<lambda>z. p (fst z) @ p' (snd z)) (seqP u u')
    (\<lambda>z. v (fst z) \<and> v' (snd z))"
  by unfold_locales
    (auto simp: seqP_Inr_iff add.commute codec.length_pack [OF assms(1)]
      codec.length_pack [OF assms(2)] codec.unpack_pack [OF assms(1)] codec.unpack_pack [OF assms(2)]
      dest!: codec.unpack_drop [OF assms(1)] codec.unpack_drop [OF assms(2)])

lemma seq_canonical:
  assumes "canonical_codec l p u v" and "canonical_codec l' p' u' v'"
  shows "canonical_codec (\<lambda>z. l (fst z) + l' (snd z)) (\<lambda>z. p (fst z) @ p' (snd z)) (seqP u u')
    (\<lambda>z. v (fst z) \<and> v' (snd z))"
  using assms seq_codec [of l p u v l' p' u' v']
  by (fastforce simp: canonical_codec_def canonical_codec_axioms_def seqP_Inr_iff)

lemma via_codec:
  assumes "codec l p u v"
    and "\<And>c bs. u' c bs = bindP (u c) (\<lambda>y. liftP (make y)) bs"
    and "\<And>y x. make y = Inr x \<Longrightarrow> l' x = l y \<and> p' x = p y"
    and "\<And>x. v' x \<Longrightarrow> v (get x) \<and> make (get x) = Inr x"
    and "\<And>y x. v y \<Longrightarrow> make y = Inr x \<Longrightarrow> v' x"
  shows "codec l' p' u' v'"
proof -
  note facts = assms(1) [unfolded codec_def] assms(2-)
  show ?thesis
    by unfold_locales (use facts in \<open>fastforce simp: bindP_Inr_iff\<close>)+
qed

lemma via_canonical:
  assumes "canonical_codec l p u v"
    and "\<And>c bs. u' c bs = bindP (u c) (\<lambda>y. liftP (make y)) bs"
    and "\<And>y x. make y = Inr x \<Longrightarrow> l' x = l y \<and> p' x = p y"
    and "\<And>x. v' x \<Longrightarrow> v (get x) \<and> make (get x) = Inr x"
    and "\<And>y x. v y \<Longrightarrow> make y = Inr x \<Longrightarrow> v' x"
  shows "canonical_codec l' p' u' v'"
proof -
  have "codec l p u v" using assms(1) by (simp add: canonical_codec_def)
  from via_codec [OF this assms(2-)] assms(1,2,3) show ?thesis
    by (fastforce simp: canonical_codec_def canonical_codec_axioms_def bindP_Inr_iff)
qed

section \<open>Integers\<close>

text \<open>The macro \<open>impl_packable_for_num\<close>, at every width.\<close>

definition num_packed_len :: "'a::len word \<Rightarrow> nat" where
  "num_packed_len w = length (to_le_bytes w)"

definition num_pack :: "'a::len word \<Rightarrow> byte list" where
  "num_pack w = to_le_bytes w"

definition num_unpack :: "bool \<Rightarrow> (io_error, 'a::len word) reader" where
  "num_unpack check = bindP (read_exact (LENGTH('a) div 8)) (\<lambda>bytes. returnP (from_le_bytes bytes))"

lemma num_packed_len_eq [simp]: "num_packed_len (w :: 'a::len word) = LENGTH('a) div 8"
  by (simp add: num_packed_len_def length_to_le_bytes)

lemma num_canonical_codec:
  assumes "8 dvd LENGTH('a::len)"
  shows "canonical_codec num_packed_len (num_pack :: 'a word \<Rightarrow> _) num_unpack (\<lambda>_. True)"
proof unfold_locales
  fix x :: "'a word" and c :: bool and rest bs :: "byte list"
  show "length (num_pack x) = num_packed_len x"
    by (simp add: num_pack_def length_to_le_bytes)
  show "num_unpack c (num_pack x @ rest) = Inr (x, rest)"
    using assms
    by (simp add: num_unpack_def num_pack_def bindP_def length_to_le_bytes from_to_le_bytes)
  assume "num_unpack c bs = Inr (x, rest)"
  then obtain ys where ys: "bs = ys @ rest" "length ys = LENGTH('a) div 8" "x = from_le_bytes ys"
    by (auto simp: num_unpack_def bindP_Inr_iff read_exact_Inr_iff)
  then show "bs = num_pack x @ rest"
    using to_from_le_bytes [OF assms] by (simp add: num_pack_def)
  from ys show "num_packed_len x \<le> length bs \<and> rest = drop (num_packed_len x) bs"
    by simp
qed simp

interpretation u8: canonical_codec num_packed_len "num_pack :: u8 \<Rightarrow> _" num_unpack "\<lambda>_. True"
  by (rule num_canonical_codec) simp

interpretation u16: canonical_codec num_packed_len "num_pack :: u16 \<Rightarrow> _" num_unpack "\<lambda>_. True"
  by (rule num_canonical_codec) simp

interpretation u32: canonical_codec num_packed_len "num_pack :: u32 \<Rightarrow> _" num_unpack "\<lambda>_. True"
  by (rule num_canonical_codec) simp

interpretation u64: canonical_codec num_packed_len "num_pack :: u64 \<Rightarrow> _" num_unpack "\<lambda>_. True"
  by (rule num_canonical_codec) simp

section \<open>Counted sequences\<close>

text \<open>The shape \<open>len as uN; items..\<close> that the message types use for their vectors, with the check
  of the count that \<open>CHECK\<close> turns on.\<close>

definition countedP :: "(bool \<Rightarrow> ('e, 'n::len word) reader) \<Rightarrow> (nat \<Rightarrow> bool) \<Rightarrow> (nat \<Rightarrow> 'e) \<Rightarrow>
    (bool \<Rightarrow> ('e, 'a) reader) \<Rightarrow> bool \<Rightarrow> ('e, 'a list) reader" where
  "countedP un ok e u c =
     bindP (un c) (\<lambda>n. bindP (requireP (c \<longrightarrow> ok (unat n)) (e (unat n))) (\<lambda>_. repeatP (unat n) (u c)))"

lemma countedP_Inr_iff:
  "countedP un ok e u c bs = Inr (xs, rest) \<longleftrightarrow>
     (\<exists>n r. un c bs = Inr (n, r) \<and> (c \<longrightarrow> ok (unat n)) \<and> repeatP (unat n) (u c) r = Inr (xs, rest))"
  by (auto simp: countedP_def bindP_Inr_iff split: if_splits)

lemma counted_codec:
  fixes un :: "bool \<Rightarrow> ('e, 'n::len word) reader"
  assumes "canonical_codec num_packed_len (num_pack :: 'n word \<Rightarrow> _) un (\<lambda>_. True)"
    and "codec l p u v" and "\<And>n. ok n \<Longrightarrow> n < 2 ^ LENGTH('n)"
  shows "codec (\<lambda>xs. num_packed_len (0 :: 'n word) + sum_list (map l xs))
    (\<lambda>xs. num_pack (word_of_nat (length xs) :: 'n word) @ concat (map p xs))
    (countedP un ok e u) (\<lambda>xs. list_all v xs \<and> ok (length xs))"
    (is "codec ?l ?p _ ?v")
proof -
  note n = canonical_codec.axioms(1) [OF assms(1)]
  have len: "length (num_pack w) = LENGTH('n) div 8" for w :: "'n word"
    using codec.length_pack [OF n, of w] by simp
  show ?thesis
  proof unfold_locales
    fix xs c rest assume v: "?v xs"
    then show "length (?p xs) = ?l xs"
      by (simp add: len codec.length_concat [OF assms(2)])
    have "unat (word_of_nat (length xs) :: 'n word) = length xs"
      using v assms(3) by (simp add: unat_of_nat)
    with v show "countedP un ok e u c (?p xs @ rest) = Inr (xs, rest)"
      by (simp add: countedP_def codec.bind_unpack [OF n] codec.repeat_run [OF assms(2)])
  next
    fix xs rest bs assume "countedP un ok e u True bs = Inr (xs, rest)"
    then show "?v xs"
      by (auto simp: countedP_Inr_iff dest: codec.repeat_drop [OF assms(2)])
  next
    fix xs rest bs c assume "countedP un ok e u c bs = Inr (xs, rest)"
    then show "?l xs \<le> length bs \<and> rest = drop (?l xs) bs"
      by (auto simp: countedP_Inr_iff add.commute dest!: codec.repeat_drop [OF assms(2)]
          codec.unpack_rest [OF n])
  qed
qed

lemma counted_canonical:
  fixes un :: "bool \<Rightarrow> ('e, 'n::len word) reader"
  assumes n: "canonical_codec num_packed_len (num_pack :: 'n word \<Rightarrow> _) un (\<lambda>_. True)"
    and u: "canonical_codec l p u v" and "\<And>n. ok n \<Longrightarrow> n < 2 ^ LENGTH('n)"
  shows "canonical_codec (\<lambda>xs. num_packed_len (0 :: 'n word) + sum_list (map l xs))
    (\<lambda>xs. num_pack (word_of_nat (length xs) :: 'n word) @ concat (map p xs))
    (countedP un ok e u) (\<lambda>xs. list_all v xs \<and> ok (length xs))"
proof -
  have "codec l p u v" using u by (simp add: canonical_codec_def)
  from counted_codec [OF n this assms(3)] show ?thesis
    by (auto simp: canonical_codec_def canonical_codec_axioms_def countedP_Inr_iff
        dest!: canonical_codec.repeat_dest [OF u] canonical_codec.unpack_dest [OF n])
qed

lemma countedP_unchecked:
  "countedP un (\<lambda>n. n < 2 ^ LENGTH('n)) e u c = bindP (un c) (\<lambda>n :: 'n::len word. repeatP (unat n) (u c))"
  by (simp add: countedP_def unat_less_pow)

section \<open>Byte arrays and booleans\<close>

text \<open>\<open>[u8; N]\<close>: a list of bytes whose length is the type's \<open>N\<close>.\<close>

definition array_packed_len :: "nat \<Rightarrow> byte list \<Rightarrow> nat" where
  "array_packed_len n a = n"

definition array_pack :: "byte list \<Rightarrow> byte list" where
  "array_pack a = a"

definition array_unpack :: "nat \<Rightarrow> bool \<Rightarrow> (io_error, byte list) reader" where
  "array_unpack n check = read_exact n"

interpretation array: canonical_codec "array_packed_len n" array_pack "array_unpack n"
    "\<lambda>a. length a = n" for n
  by unfold_locales
    (auto simp: array_packed_len_def array_pack_def array_unpack_def read_exact_Inr_iff)

definition bool_packed_len :: "bool \<Rightarrow> nat" where
  "bool_packed_len b = num_packed_len (of_bool b :: u8)"

definition bool_pack :: "bool \<Rightarrow> byte list" where
  "bool_pack b = num_pack (of_bool b :: u8)"

definition bool_unpack :: "bool \<Rightarrow> (io_error, bool) reader" where
  "bool_unpack check = bindP (num_unpack check) (\<lambda>b :: u8. returnP (b \<noteq> 0))"

lemma bool_packed_len_eq [simp]: "bool_packed_len b = 1"
  by (simp add: bool_packed_len_def)

text \<open>A boolean is not canonical: every byte but 0 reads as true.\<close>

interpretation bool: codec bool_packed_len bool_pack bool_unpack "\<lambda>_. True"
  by unfold_locales
    (auto simp: bool_packed_len_def bool_pack_def bool_unpack_def codec_len codec_run bindP_def
      bindP_Inr_iff split: sum.splits dest: u8.unpack_rest)

section \<open>Vectors and options\<close>

definition vec_packed_len :: "('a \<Rightarrow> nat) \<Rightarrow> 'a list \<Rightarrow> nat" where
  "vec_packed_len packed_len xs = num_packed_len (0 :: u64) + sum_list (map packed_len xs)"

definition vec_pack :: "('a \<Rightarrow> byte list) \<Rightarrow> 'a list \<Rightarrow> byte list" where
  "vec_pack pack xs = num_pack (word_of_nat (length xs) :: u64) @ concat (map pack xs)"

definition vec_unpack ::
  "(io_error \<Rightarrow> 'e) \<Rightarrow> (bool \<Rightarrow> ('e, 'a) reader) \<Rightarrow> bool \<Rightarrow> ('e, 'a list) reader" where
  "vec_unpack from_io unpack check =
     bindP (map_errP from_io (num_unpack check)) (\<lambda>len :: u64. repeatP (unat len) (unpack check))"

datatype 'e OptionError = OptionError_Bool io_error | OptionError_Inner 'e

definition option_packed_len :: "('a \<Rightarrow> nat) \<Rightarrow> 'a option \<Rightarrow> nat" where
  "option_packed_len packed_len x =
     bool_packed_len True + (case x of None \<Rightarrow> 0 | Some p \<Rightarrow> packed_len p)"

definition option_pack :: "('a \<Rightarrow> byte list) \<Rightarrow> 'a option \<Rightarrow> byte list" where
  "option_pack pack x = (case x of Some p \<Rightarrow> bool_pack True @ pack p | None \<Rightarrow> bool_pack False)"

definition option_unpack ::
  "(bool \<Rightarrow> ('e, 'a) reader) \<Rightarrow> bool \<Rightarrow> ('e OptionError, 'a option) reader" where
  "option_unpack unpack check =
     bindP (map_errP OptionError_Bool (bool_unpack check)) (\<lambda>present.
       if present
       then bindP (map_errP OptionError_Inner (unpack check)) (\<lambda>p. returnP (Some p))
       else returnP None)"

text \<open>A vector and an option of a packable type are packable.\<close>

context codec
begin

lemma vec_codec:
  "codec (vec_packed_len packed_len) (vec_pack pack) (vec_unpack from_io unpack)
     (\<lambda>xs. list_all valid xs \<and> length xs < 2 ^ 64)"
proof unfold_locales
  fix xs rest bs c
  assume v: "list_all valid xs \<and> length xs < 2 ^ 64"
  then show "length (vec_pack pack xs) = vec_packed_len packed_len xs"
    by (simp add: vec_pack_def vec_packed_len_def codec_len)
  have "unat (word_of_nat (length xs) :: u64) = length xs"
    using v by (simp add: unat_of_nat)
  with v show "vec_unpack from_io unpack c (vec_pack pack xs @ rest) = Inr (xs, rest)"
    by (simp add: vec_pack_def vec_unpack_def bindP_def map_errP_def codec_run)
next
  fix xs rest bs
  assume "vec_unpack from_io unpack True bs = Inr (xs, rest)"
  then obtain n :: u64 and r where "repeatP (unat n) (unpack True) r = Inr (xs, rest)"
    by (auto simp: vec_unpack_def bindP_Inr_iff)
  then show "list_all valid xs \<and> length xs < 2 ^ 64"
    using unat_less_pow [of n] by (auto dest: repeat_valid length_repeatP)
next
  fix xs rest bs c
  assume "vec_unpack from_io unpack c bs = Inr (xs, rest)"
  then obtain n :: u64 and r where n: "num_unpack c bs = Inr (n, r)"
    and xs: "repeatP (unat n) (unpack c) r = Inr (xs, rest)"
    by (auto simp: vec_unpack_def bindP_Inr_iff)
  from u64.unpack_rest [OF n] repeat_rest [OF xs]
  show "vec_packed_len packed_len xs \<le> length bs \<and> rest = drop (vec_packed_len packed_len xs) bs"
    by (auto simp: vec_packed_len_def add.commute)
qed

lemma option_codec:
  "codec (option_packed_len packed_len) (option_pack pack) (option_unpack unpack)
     (\<lambda>x. case x of None \<Rightarrow> True | Some p \<Rightarrow> valid p)"
  by unfold_locales
    (auto simp: option_packed_len_def option_pack_def option_unpack_def codec_len codec_run
      bindP_def map_errP_def bindP_Inr_iff add.commute
      split: option.splits sum.splits if_splits
      dest!: bool.unpack_rest unpack_rest unpack_valid)

end

end
