(* ===== verification/External.thy ===== *)
theory External
  imports Bee_Prelude "HOL-Library.List_Lexorder"
begin

text \<open>
  What the sources call of crates that are not part of the repository: hashing and Ed25519 of
  iota-crypto, hex, bech32, iterator-sorted and bitflags. They are the fields of a record that the
  definitions using them take as an argument; what a property relies on is one of the named
  hypotheses below, each of them the documented behaviour of a crate.

  The order on byte strings is the lexicographic one of the library (\<open>Ord\<close> of slices and arrays
  in Rust).
\<close>

unbundle bit_operations_syntax

type_synonym u5 = "5 word"
type_synonym CryptoError = string
type_synonym PublicKey = "byte list"

datatype Variant = Bech32 | Bech32m

record deps =
  blake2b256 :: "byte list \<Rightarrow> byte list"
  public_key_try_from_bytes :: "byte list \<Rightarrow> CryptoError + PublicKey"
  public_key_verify :: "PublicKey \<Rightarrow> byte list \<Rightarrow> byte list \<Rightarrow> bool"
  hex_encode :: "byte list \<Rightarrow> string"
  hex_decode :: "string \<Rightarrow> byte list option"
  bech32_encode :: "string \<Rightarrow> u5 list \<Rightarrow> Variant \<Rightarrow> string option"
  bech32_decode :: "string \<Rightarrow> (string \<times> u5 list \<times> Variant) option"
  to_base32 :: "byte list \<Rightarrow> u5 list"
  from_base32 :: "u5 list \<Rightarrow> byte list option"
  is_sorted :: "byte list list \<Rightarrow> bool"
  is_unique_sorted :: "byte list list \<Rightarrow> bool"
  flags_contains :: "u8 \<Rightarrow> u8 \<Rightarrow> bool"
  flags_set :: "u8 \<Rightarrow> u8 \<Rightarrow> bool \<Rightarrow> u8"

text \<open>iterator-sorted: the items are in (strictly) ascending order.\<close>

definition iterator_sorted_spec :: "deps \<Rightarrow> bool" where
  "iterator_sorted_spec d \<longleftrightarrow>
     (\<forall>xs. is_sorted d xs = sorted_wrt (\<le>) xs) \<and> (\<forall>xs. is_unique_sorted d xs = sorted_wrt (<) xs)"

text \<open>hex: two characters per byte, byte after byte; decoding undoes encoding.\<close>

definition hex_spec :: "deps \<Rightarrow> bool" where
  "hex_spec d \<longleftrightarrow>
     (\<forall>xs ys. hex_encode d (xs @ ys) = hex_encode d xs @ hex_encode d ys) \<and>
     (\<forall>xs. length (hex_encode d xs) = 2 * length xs) \<and>
     (\<forall>xs. hex_decode d (hex_encode d xs) = Some xs)"

text \<open>bech32: what is encoded under a given prefix is decoded again, and the conversion to base 32
  is undone by the conversion from it.\<close>

definition bech32_spec :: "string \<Rightarrow> deps \<Rightarrow> bool" where
  "bech32_spec hrp d \<longleftrightarrow>
     (\<forall>xs v s. bech32_encode d hrp xs v = Some s \<longrightarrow> bech32_decode d s = Some (hrp, xs, v)) \<and>
     (\<forall>bs. from_base32 d (to_base32 d bs) = Some bs)"

text \<open>BLAKE2b-256: a digest has 32 bytes.\<close>

definition blake2b256_spec :: "deps \<Rightarrow> bool" where
  "blake2b256_spec d \<longleftrightarrow> (\<forall>bs. length (blake2b256 d bs) = 32)"

text \<open>bitflags: a value contains a flag when all bits of the flag are set in it, and setting a flag
  sets or clears these bits.\<close>

definition bitflags_spec :: "deps \<Rightarrow> bool" where
  "bitflags_spec d \<longleftrightarrow>
     (\<forall>bits flag. flags_contains d bits flag = (bits AND flag = flag)) \<and>
     (\<forall>bits flag on. flags_set d bits flag on = (if on then bits OR flag else bits AND NOT flag))"

lemma is_unique_sorted_eq:
  "iterator_sorted_spec d \<Longrightarrow> is_unique_sorted d xs = sorted_wrt (<) xs"
  by (simp add: iterator_sorted_spec_def)

lemma is_sorted_eq: "iterator_sorted_spec d \<Longrightarrow> is_sorted d xs = sorted_wrt (\<le>) xs"
  by (simp add: iterator_sorted_spec_def)

lemma hex_specD:
  assumes "hex_spec d"
  shows "hex_encode d (xs @ ys) = hex_encode d xs @ hex_encode d ys"
    and "length (hex_encode d xs) = 2 * length xs"
    and "hex_decode d (hex_encode d xs) = Some xs"
  using assms by (simp_all add: hex_spec_def)

section \<open>A concrete instance\<close>

text \<open>The instance on which hypotheses are shown to be satisfiable: the order checks and the
  hexadecimal digits as documented, a constant digest and identity encodings elsewhere.\<close>

definition hex_digit :: "nat \<Rightarrow> char" where
  "hex_digit n = (if n < 10 then char_of (48 + n) else char_of (87 + n))"

definition hex_value :: "char \<Rightarrow> nat option" where
  "hex_value c =
     (let n = of_char c :: nat in
      if 48 \<le> n \<and> n < 58 then Some (n - 48)
      else if 97 \<le> n \<and> n < 103 then Some (n - 87)
      else if 65 \<le> n \<and> n < 71 then Some (n - 55)
      else None)"

fun hex_string :: "byte list \<Rightarrow> string" where
  "hex_string [] = []"
| "hex_string (b # bs) = hex_digit (unat b div 16) # hex_digit (unat b mod 16) # hex_string bs"

fun hex_bytes :: "string \<Rightarrow> byte list option" where
  "hex_bytes [] = Some []"
| "hex_bytes [c] = None"
| "hex_bytes (c # c' # cs) =
     (case (hex_value c, hex_value c', hex_bytes cs) of
       (Some h, Some l, Some bs) \<Rightarrow> Some (word_of_nat (16 * h + l) # bs)
     | _ \<Rightarrow> None)"

fun nibbles :: "byte list \<Rightarrow> u5 list" where
  "nibbles [] = []"
| "nibbles (b # bs) = word_of_nat (unat b div 16) # word_of_nat (unat b mod 16) # nibbles bs"

fun from_nibbles :: "u5 list \<Rightarrow> byte list option" where
  "from_nibbles [] = Some []"
| "from_nibbles [x] = None"
| "from_nibbles (x # y # xs) =
     map_option (\<lambda>bs. word_of_nat (16 * unat x + unat y) # bs) (from_nibbles xs)"

definition sample_deps :: deps where
  "sample_deps = \<lparr>
     blake2b256 = (\<lambda>bs. replicate 32 0),
     public_key_try_from_bytes = Inr,
     public_key_verify = (\<lambda>key sig msg. key = take 32 sig),
     hex_encode = hex_string,
     hex_decode = hex_bytes,
     bech32_encode = (\<lambda>hrp xs v.
       if hrp = ''iota'' \<and> v = Bech32 then Some (map (\<lambda>x. char_of (unat x)) xs) else None),
     bech32_decode = (\<lambda>s. Some (''iota'', map (\<lambda>c. word_of_nat (of_char c)) s, Bech32)),
     to_base32 = nibbles,
     from_base32 = from_nibbles,
     is_sorted = sorted_wrt (\<le>),
     is_unique_sorted = sorted_wrt (<),
     flags_contains = (\<lambda>bits flag. bits AND flag = flag),
     flags_set = (\<lambda>bits flag on. if on then bits OR flag else bits AND NOT flag)\<rparr>"

lemma hex_value_digit: "n < 16 \<Longrightarrow> hex_value (hex_digit n) = Some n"
  by (auto simp: hex_value_def hex_digit_def Let_def)

lemma byte_nibbles: "word_of_nat (16 * (unat b div 16) + unat b mod 16) = (b :: byte)"
  by (simp only: mult_div_mod_eq) simp

lemma hex_bytes_string: "hex_bytes (hex_string bs) = Some bs"
proof (induction bs)
  case (Cons b bs)
  have "unat b < 256" using unat_less_pow [of b] by simp
  then have "unat b div 16 < 16" by simp
  with Cons show ?case by (simp add: hex_value_digit byte_nibbles del: of_nat_add of_nat_mult)
qed simp

lemma hex_spec_sample: "hex_spec sample_deps"
proof -
  have "hex_string (xs @ ys) = hex_string xs @ hex_string ys" for xs ys
    by (induction xs) auto
  moreover have "length (hex_string xs) = 2 * length xs" for xs
    by (induction xs) auto
  ultimately show ?thesis by (simp add: hex_spec_def sample_deps_def hex_bytes_string)
qed

lemma from_nibbles_nibbles: "from_nibbles (nibbles bs) = Some bs"
proof (induction bs)
  case (Cons b bs)
  have "unat b < 256" using unat_less_pow [of b] by simp
  then have "unat (word_of_nat (unat b div 16) :: u5) = unat b div 16"
    and "unat (word_of_nat (unat b mod 16) :: u5) = unat b mod 16"
    by (simp_all add: unat_of_nat)
  with Cons show ?case by (simp add: byte_nibbles del: of_nat_add of_nat_mult)
qed simp

lemma bech32_spec_sample: "bech32_spec ''iota'' sample_deps"
proof -
  have "word_of_nat (of_char (char_of (unat x) :: char)) = x" for x :: u5
    using unat_less_pow [of x] by simp
  then show ?thesis
    by (auto simp: bech32_spec_def sample_deps_def from_nibbles_nibbles comp_def map_idI)
qed

lemma iterator_sorted_spec_sample: "iterator_sorted_spec sample_deps"
  by (simp add: iterator_sorted_spec_def sample_deps_def)

lemma blake2b256_spec_sample: "blake2b256_spec sample_deps"
  by (simp add: blake2b256_spec_def sample_deps_def)

lemma bitflags_spec_sample: "bitflags_spec sample_deps"
  by (simp add: bitflags_spec_def sample_deps_def)

end
