(* ===== verification/Message_Error.thy ===== *)
theory Message_Error
  imports Packable External
begin

text \<open>
  The identifiers that errors mention and the error type of bee-message (error.rs), followed by
  the crate's constants (constants.rs) and the conversions the \<open>?\<close> operator inserts.
  The tuple structs of the sources are datatypes of one constructor; that their byte arrays have
  the length of their Rust type is part of the \<open>valid\<close> predicate of each type.
\<close>

section \<open>Data that errors carry\<close>

datatype Ed25519Address = Ed25519Address (Ed25519Address_bytes: "byte list")

datatype Address = Address_Ed25519 Ed25519Address

datatype TransactionId = TransactionId (TransactionId_bytes: "byte list")

record OutputId =
  OutputId_transaction_id :: TransactionId
  OutputId_index :: u16

datatype UtxoInput = UtxoInput (UtxoInput_output_id: OutputId)

section \<open>Errors\<close>

datatype (plugins only: code size) Error =
    CryptoError CryptoError
  | DuplicateAddress Address
  | DuplicateSignature nat
  | DuplicateUtxo UtxoInput
  | InputUnlockBlockCountMismatch nat nat
  | InvalidAccumulatedOutput nat
  | InvalidAddress
  | InvalidAddressKind u8
  | InvalidAmount u64
  | InvalidDustAllowanceAmount u64
  | InvalidEssenceKind u8
  | InvalidHexadecimalChar string
  | InvalidHexadecimalLength nat nat
  | InvalidIndexationDataLength nat
  | InvalidIndexationIndexLength nat
  | InvalidInputKind u8
  | InvalidInputOutputCount nat
  | InvalidInputOutputIndex u16
  | InvalidMessageLength nat
  | InvalidMigratedFundsEntryAmount u64
  | InvalidOutputKind u8
  | InvalidParentsCount nat
  | InvalidPayloadKind u32
  | InvalidPayloadLength nat nat
  | InvalidPowScoreValues u32 u32
  | InvalidReceiptFundsCount nat
  | InvalidReferenceIndex u16
  | InvalidSignature
  | InvalidSignatureKind u8
  | InvalidTailTransactionHash
  | InvalidTreasuryAmount u64
  | InvalidUnlockBlockCount nat
  | InvalidUnlockBlockKind u8
  | InvalidUnlockBlockReference nat
  | Io io_error
  | MigratedFundsNotSorted
  | MilestoneInvalidPublicKeyCount nat
  | MilestoneInvalidSignatureCount nat
  | MilestonePublicKeysNotUniqueSorted
  | MilestonePublicKeysSignaturesCountMismatch nat nat
  | MissingField string
  | MissingPayload
  | ParentsNotUniqueSorted
  | RemainingBytesAfterMessage
  | SignaturePublicKeyMismatch string string
  | TailTransactionHashNotUnique nat nat
  | TransactionInputsNotSorted
  | TransactionOutputsNotSorted

section \<open>Constants\<close>

definition IOTA_SUPPLY :: u64 where
  "IOTA_SUPPLY = 2779530283277761"

definition INPUT_OUTPUT_COUNT_MAX :: nat where
  "INPUT_OUTPUT_COUNT_MAX = 127"

definition INPUT_OUTPUT_COUNT_RANGE :: "nat \<Rightarrow> bool" where
  "INPUT_OUTPUT_COUNT_RANGE n \<longleftrightarrow> 1 \<le> n \<and> n \<le> INPUT_OUTPUT_COUNT_MAX"

definition UNLOCK_BLOCK_COUNT_RANGE :: "nat \<Rightarrow> bool" where
  "UNLOCK_BLOCK_COUNT_RANGE = INPUT_OUTPUT_COUNT_RANGE"

definition INPUT_OUTPUT_INDEX_RANGE :: "u16 \<Rightarrow> bool" where
  "INPUT_OUTPUT_INDEX_RANGE i \<longleftrightarrow> 0 \<le> i \<and> i < word_of_nat INPUT_OUTPUT_COUNT_MAX"

lemma INPUT_OUTPUT_INDEX_RANGE_iff: "INPUT_OUTPUT_INDEX_RANGE i \<longleftrightarrow> unat i < 127"
  by (simp add: INPUT_OUTPUT_INDEX_RANGE_def INPUT_OUTPUT_COUNT_MAX_def word_less_nat_alt)

section \<open>Numbers and arrays under this error type\<close>

text \<open>\<open>u8::unpack_inner(reader)?\<close> and \<open><[u8; N]>::unpack_inner(reader)?\<close>: an I/O error is
  converted by \<open>From<std::io::Error>\<close>.\<close>

definition num_read :: "bool \<Rightarrow> (Error, 'a::len word) reader" where
  "num_read check = map_errP Io (num_unpack check)"

definition array_read :: "nat \<Rightarrow> bool \<Rightarrow> (Error, byte list) reader" where
  "array_read n check = map_errP Io (array_unpack n check)"

lemma num_read_canonical:
  assumes "8 dvd LENGTH('a::len)"
  shows "canonical_codec num_packed_len (num_pack :: 'a word \<Rightarrow> _) num_read (\<lambda>_. True)"
proof -
  from num_canonical_codec [OF assms] have *: "canonical_codec num_packed_len
    (num_pack :: 'a word \<Rightarrow> _) num_unpack (\<lambda>_. True)" .
  then have "codec num_packed_len (num_pack :: 'a word \<Rightarrow> _) num_unpack (\<lambda>_. True)"
    by (simp add: canonical_codec_def)
  then have "codec num_packed_len (num_pack :: 'a word \<Rightarrow> _) num_read (\<lambda>_. True)"
    unfolding num_read_def by (rule codec.map_err_codec)
  with * show ?thesis
    by (auto simp: canonical_codec_def canonical_codec_axioms_def num_read_def)
qed

interpretation ru8: canonical_codec num_packed_len "num_pack :: u8 \<Rightarrow> _" num_read "\<lambda>_. True"
  by (rule num_read_canonical) simp

interpretation ru16: canonical_codec num_packed_len "num_pack :: u16 \<Rightarrow> _" num_read "\<lambda>_. True"
  by (rule num_read_canonical) simp

interpretation ru32: canonical_codec num_packed_len "num_pack :: u32 \<Rightarrow> _" num_read "\<lambda>_. True"
  by (rule num_read_canonical) simp

interpretation ru64: canonical_codec num_packed_len "num_pack :: u64 \<Rightarrow> _" num_read "\<lambda>_. True"
  by (rule num_read_canonical) simp

interpretation rarray: canonical_codec "array_packed_len n" array_pack "array_read n"
    "\<lambda>a. length a = n" for n
  by unfold_locales
    (auto simp: array_read_def array_packed_len_def array_pack_def array_unpack_def map_errP_def
      read_exact_Inr_iff split: sum.splits)

interpretation rbool: codec bool_packed_len bool_pack "\<lambda>c. map_errP Io (bool_unpack c)" "\<lambda>_. True"
  by (rule bool.map_err_codec)

lemma array_read_Inr_iff:
  "array_read n c bs = Inr (a, rest) \<longleftrightarrow> bs = a @ rest \<and> length a = n"
  by (auto simp: array_read_def array_unpack_def read_exact_Inr_iff)

end
