(* ===== verification/Message_Ids.thy ===== *)
theory Message_Ids
  imports Message_Error
begin

text \<open>
  The identifiers of bee-message: \<open>MessageId\<close> (message_id.rs), \<open>TransactionId\<close>
  (payload/transaction/transaction_id.rs), \<open>MilestoneId\<close> (payload/milestone/milestone_id.rs),
  \<open>OutputId\<close> (output/output_id.rs), \<open>MilestoneIndex\<close> and \<open>Milestone\<close> (milestone/). Each has its
  textual form, which \<open>from_str\<close> reads back, and its packed form.
\<close>

section \<open>Message identifiers\<close>

definition MESSAGE_ID_LENGTH :: nat where
  "MESSAGE_ID_LENGTH = 32"

datatype MessageId = MessageId (MessageId_bytes: "byte list")

definition MessageId_new :: "byte list \<Rightarrow> MessageId" where
  "MessageId_new bytes = MessageId bytes"

definition MessageId_null :: MessageId where
  "MessageId_null = MessageId (replicate MESSAGE_ID_LENGTH 0)"

definition MessageId_from_str :: "deps \<Rightarrow> string \<Rightarrow> Error + MessageId" where
  "MessageId_from_str d s =
     bindR (ok_or (InvalidHexadecimalChar s) (hex_decode d s)) (\<lambda>bytes.
     bindR (requireR (length bytes = MESSAGE_ID_LENGTH)
       (InvalidHexadecimalLength (MESSAGE_ID_LENGTH * 2) (length s))) (\<lambda>_.
     Inr (MessageId bytes)))"

definition MessageId_fmt :: "deps \<Rightarrow> MessageId \<Rightarrow> string" where
  "MessageId_fmt d x = hex_encode d (MessageId_bytes x)"

definition MessageId_packed_len :: "MessageId \<Rightarrow> nat" where
  "MessageId_packed_len x = MESSAGE_ID_LENGTH"

definition MessageId_pack :: "MessageId \<Rightarrow> byte list" where
  "MessageId_pack x = array_pack (MessageId_bytes x)"

definition MessageId_unpack :: "bool \<Rightarrow> (Error, MessageId) reader" where
  "MessageId_unpack check =
     bindP (array_read MESSAGE_ID_LENGTH check) (\<lambda>bytes. returnP (MessageId_new bytes))"

definition MessageId_valid :: "MessageId \<Rightarrow> bool" where
  "MessageId_valid x \<longleftrightarrow> length (MessageId_bytes x) = MESSAGE_ID_LENGTH"

interpretation MessageId: canonical_codec MessageId_packed_len MessageId_pack MessageId_unpack MessageId_valid
  by unfold_locales
    (auto simp: MessageId_packed_len_def MessageId_pack_def MessageId_unpack_def MessageId_valid_def MessageId_new_def
      bindP_Inr_iff array_read_Inr_iff array_pack_def)

lemma MessageId_from_str_fmt:
  "hex_spec d \<Longrightarrow> MessageId_valid x \<Longrightarrow> MessageId_from_str d (MessageId_fmt d x) = Inr x"
  by (simp add: MessageId_from_str_def MessageId_fmt_def MessageId_valid_def hex_specD)

lemma MessageId_from_str_valid: "MessageId_from_str d s = Inr x \<Longrightarrow> MessageId_valid x"
  by (auto simp: MessageId_from_str_def MessageId_valid_def bindR_Inr_iff)

section \<open>Transaction identifiers\<close>

definition TRANSACTION_ID_LENGTH :: nat where
  "TRANSACTION_ID_LENGTH = 32"

definition TransactionId_new :: "byte list \<Rightarrow> TransactionId" where
  "TransactionId_new bytes = TransactionId bytes"

definition TransactionId_from_str :: "deps \<Rightarrow> string \<Rightarrow> Error + TransactionId" where
  "TransactionId_from_str d s =
     bindR (ok_or (InvalidHexadecimalChar s) (hex_decode d s)) (\<lambda>bytes.
     bindR (requireR (length bytes = TRANSACTION_ID_LENGTH)
       (InvalidHexadecimalLength (TRANSACTION_ID_LENGTH * 2) (length s))) (\<lambda>_.
     Inr (TransactionId bytes)))"

definition TransactionId_fmt :: "deps \<Rightarrow> TransactionId \<Rightarrow> string" where
  "TransactionId_fmt d x = hex_encode d (TransactionId_bytes x)"

definition TransactionId_packed_len :: "TransactionId \<Rightarrow> nat" where
  "TransactionId_packed_len x = TRANSACTION_ID_LENGTH"

definition TransactionId_pack :: "TransactionId \<Rightarrow> byte list" where
  "TransactionId_pack x = array_pack (TransactionId_bytes x)"

definition TransactionId_unpack :: "bool \<Rightarrow> (Error, TransactionId) reader" where
  "TransactionId_unpack check =
     bindP (array_read TRANSACTION_ID_LENGTH check) (\<lambda>bytes. returnP (TransactionId_new bytes))"

definition TransactionId_valid :: "TransactionId \<Rightarrow> bool" where
  "TransactionId_valid x \<longleftrightarrow> length (TransactionId_bytes x) = TRANSACTION_ID_LENGTH"

interpretation TransactionId: canonical_codec TransactionId_packed_len TransactionId_pack TransactionId_unpack TransactionId_valid
  by unfold_locales
    (auto simp: TransactionId_packed_len_def TransactionId_pack_def TransactionId_unpack_def TransactionId_valid_def TransactionId_new_def
      bindP_Inr_iff array_read_Inr_iff array_pack_def)

lemma TransactionId_from_str_fmt:
  "hex_spec d \<Longrightarrow> TransactionId_valid x \<Longrightarrow> TransactionId_from_str d (TransactionId_fmt d x) = Inr x"
  by (simp add: TransactionId_from_str_def TransactionId_fmt_def TransactionId_valid_def hex_specD)

lemma TransactionId_from_str_valid: "TransactionId_from_str d s = Inr x \<Longrightarrow> TransactionId_valid x"
  by (auto simp: TransactionId_from_str_def TransactionId_valid_def bindR_Inr_iff)

section \<open>Milestone identifiers\<close>

definition MILESTONE_ID_LENGTH :: nat where
  "MILESTONE_ID_LENGTH = 32"

datatype MilestoneId = MilestoneId (MilestoneId_bytes: "byte list")

definition MilestoneId_new :: "byte list \<Rightarrow> MilestoneId" where
  "MilestoneId_new bytes = MilestoneId bytes"

definition MilestoneId_from_str :: "deps \<Rightarrow> string \<Rightarrow> Error + MilestoneId" where
  "MilestoneId_from_str d s =
     bindR (ok_or (InvalidHexadecimalChar s) (hex_decode d s)) (\<lambda>bytes.
     bindR (requireR (length bytes = MILESTONE_ID_LENGTH)
       (InvalidHexadecimalLength (MILESTONE_ID_LENGTH * 2) (length s))) (\<lambda>_.
     Inr (MilestoneId bytes)))"

definition MilestoneId_fmt :: "deps \<Rightarrow> MilestoneId \<Rightarrow> string" where
  "MilestoneId_fmt d x = hex_encode d (MilestoneId_bytes x)"

definition MilestoneId_packed_len :: "MilestoneId \<Rightarrow> nat" where
  "MilestoneId_packed_len x = MILESTONE_ID_LENGTH"

definition MilestoneId_pack :: "MilestoneId \<Rightarrow> byte list" where
  "MilestoneId_pack x = array_pack (MilestoneId_bytes x)"

definition MilestoneId_unpack :: "bool \<Rightarrow> (Error, MilestoneId) reader" where
  "MilestoneId_unpack check =
     bindP (array_read MILESTONE_ID_LENGTH check) (\<lambda>bytes. returnP (MilestoneId_new bytes))"

definition MilestoneId_valid :: "MilestoneId \<Rightarrow> bool" where
  "MilestoneId_valid x \<longleftrightarrow> length (MilestoneId_bytes x) = MILESTONE_ID_LENGTH"

interpretation MilestoneId: canonical_codec MilestoneId_packed_len MilestoneId_pack MilestoneId_unpack MilestoneId_valid
  by unfold_locales
    (auto simp: MilestoneId_packed_len_def MilestoneId_pack_def MilestoneId_unpack_def MilestoneId_valid_def MilestoneId_new_def
      bindP_Inr_iff array_read_Inr_iff array_pack_def)

lemma MilestoneId_from_str_fmt:
  "hex_spec d \<Longrightarrow> MilestoneId_valid x \<Longrightarrow> MilestoneId_from_str d (MilestoneId_fmt d x) = Inr x"
  by (simp add: MilestoneId_from_str_def MilestoneId_fmt_def MilestoneId_valid_def hex_specD)

lemma MilestoneId_from_str_valid: "MilestoneId_from_str d s = Inr x \<Longrightarrow> MilestoneId_valid x"
  by (auto simp: MilestoneId_from_str_def MilestoneId_valid_def bindR_Inr_iff)

section \<open>Output identifiers\<close>

definition OUTPUT_ID_LENGTH :: nat where
  "OUTPUT_ID_LENGTH = TRANSACTION_ID_LENGTH + 2"

definition OutputId_new :: "TransactionId \<Rightarrow> u16 \<Rightarrow> Error + OutputId" where
  "OutputId_new transaction_id index =
     bindR (requireR (INPUT_OUTPUT_INDEX_RANGE index) (InvalidInputOutputIndex index)) (\<lambda>_.
     Inr \<lparr>OutputId_transaction_id = transaction_id, OutputId_index = index\<rparr>)"

definition OutputId_split :: "OutputId \<Rightarrow> TransactionId \<times> u16" where
  "OutputId_split x = (OutputId_transaction_id x, OutputId_index x)"

definition OutputId_try_from :: "byte list \<Rightarrow> Error + OutputId" where
  "OutputId_try_from bytes =
     OutputId_new (TransactionId (take TRANSACTION_ID_LENGTH bytes))
       (from_le_bytes (drop TRANSACTION_ID_LENGTH bytes))"

definition OutputId_from_str :: "deps \<Rightarrow> string \<Rightarrow> Error + OutputId" where
  "OutputId_from_str d s =
     bindR (ok_or (InvalidHexadecimalChar s) (hex_decode d s)) (\<lambda>bytes.
     bindR (requireR (length bytes = OUTPUT_ID_LENGTH)
       (InvalidHexadecimalLength (OUTPUT_ID_LENGTH * 2) (length s))) (\<lambda>_.
     OutputId_try_from bytes))"

definition OutputId_fmt :: "deps \<Rightarrow> OutputId \<Rightarrow> string" where
  "OutputId_fmt d x =
     TransactionId_fmt d (OutputId_transaction_id x) @ hex_encode d (to_le_bytes (OutputId_index x))"

definition OutputId_packed_len :: "OutputId \<Rightarrow> nat" where
  "OutputId_packed_len x =
     TransactionId_packed_len (OutputId_transaction_id x) + num_packed_len (OutputId_index x)"

definition OutputId_pack :: "OutputId \<Rightarrow> byte list" where
  "OutputId_pack x = TransactionId_pack (OutputId_transaction_id x) @ num_pack (OutputId_index x)"

definition OutputId_unpack :: "bool \<Rightarrow> (Error, OutputId) reader" where
  "OutputId_unpack check =
     bindP (TransactionId_unpack check) (\<lambda>transaction_id.
     bindP (num_read check) (\<lambda>index.
     liftP (OutputId_new transaction_id index)))"

definition OutputId_valid :: "OutputId \<Rightarrow> bool" where
  "OutputId_valid x \<longleftrightarrow>
     TransactionId_valid (OutputId_transaction_id x) \<and> INPUT_OUTPUT_INDEX_RANGE (OutputId_index x)"

lemma OutputId_new_Inr_iff:
  "OutputId_new t i = Inr x \<longleftrightarrow>
     INPUT_OUTPUT_INDEX_RANGE i \<and> x = \<lparr>OutputId_transaction_id = t, OutputId_index = i\<rparr>"
  by (auto simp: OutputId_new_def bindR_Inr_iff)

interpretation OutputId: canonical_codec OutputId_packed_len OutputId_pack OutputId_unpack
    OutputId_valid
  by (rule via_canonical [OF seq_canonical [OF TransactionId.canonical_codec_axioms
        ru16.canonical_codec_axioms], where get = OutputId_split and make = "\<lambda>(t, i). OutputId_new t i"])
    (auto simp: OutputId_packed_len_def OutputId_pack_def OutputId_unpack_def OutputId_valid_def
      OutputId_split_def OutputId_new_Inr_iff)

lemma OutputId_from_str_fmt:
  assumes "hex_spec d" and "OutputId_valid x"
  shows "OutputId_from_str d (OutputId_fmt d x) = Inr x"
proof -
  have "OutputId_fmt d x = hex_encode d (OutputId_pack x)"
    by (simp add: OutputId_fmt_def TransactionId_fmt_def OutputId_pack_def TransactionId_pack_def
        array_pack_def num_pack_def hex_specD(1) [OF assms(1)])
  moreover have "length (OutputId_pack x) = OUTPUT_ID_LENGTH"
    using assms(2) by (simp add: codec_len OutputId_packed_len_def TransactionId_packed_len_def
        OUTPUT_ID_LENGTH_def)
  moreover have "OutputId_try_from (OutputId_pack x) = Inr x"
    using assms(2) by (simp add: OutputId_try_from_def OutputId_pack_def TransactionId_pack_def
        OutputId_valid_def TransactionId_valid_def OutputId_new_Inr_iff array_pack_def num_pack_def
        from_to_le_bytes)
  ultimately show ?thesis
    by (simp add: OutputId_from_str_def hex_specD [OF assms(1)])
qed

section \<open>Milestone indices and milestones\<close>

text \<open>Indices are \<open>u32\<close>; sums and differences wrap around, as in a release build.\<close>

datatype MilestoneIndex = MilestoneIndex (MilestoneIndex_value: u32)

definition MilestoneIndex_add :: "MilestoneIndex \<Rightarrow> MilestoneIndex \<Rightarrow> MilestoneIndex" where
  "MilestoneIndex_add x y = MilestoneIndex (MilestoneIndex_value x + MilestoneIndex_value y)"

definition MilestoneIndex_sub :: "MilestoneIndex \<Rightarrow> MilestoneIndex \<Rightarrow> MilestoneIndex" where
  "MilestoneIndex_sub x y = MilestoneIndex (MilestoneIndex_value x - MilestoneIndex_value y)"

definition MilestoneIndex_packed_len :: "MilestoneIndex \<Rightarrow> nat" where
  "MilestoneIndex_packed_len x = num_packed_len (MilestoneIndex_value x)"

definition MilestoneIndex_pack :: "MilestoneIndex \<Rightarrow> byte list" where
  "MilestoneIndex_pack x = num_pack (MilestoneIndex_value x)"

definition MilestoneIndex_unpack :: "bool \<Rightarrow> (io_error, MilestoneIndex) reader" where
  "MilestoneIndex_unpack check = bindP (num_unpack check) (\<lambda>v. returnP (MilestoneIndex v))"

interpretation MilestoneIndex: canonical_codec MilestoneIndex_packed_len MilestoneIndex_pack
    MilestoneIndex_unpack "\<lambda>_. True"
  by (rule via_canonical [OF u32.canonical_codec_axioms, where get = MilestoneIndex_value
        and make = "Inr \<circ> MilestoneIndex"])
    (auto simp: MilestoneIndex_packed_len_def MilestoneIndex_pack_def MilestoneIndex_unpack_def)

text \<open>\<open>MilestoneIndex::unpack_inner(reader)?\<close> inside a type whose error is \<open>Error\<close>.\<close>

definition MilestoneIndex_read :: "bool \<Rightarrow> (Error, MilestoneIndex) reader" where
  "MilestoneIndex_read check = map_errP Io (MilestoneIndex_unpack check)"

interpretation rMilestoneIndex: canonical_codec MilestoneIndex_packed_len MilestoneIndex_pack
    MilestoneIndex_read "\<lambda>_. True"
  by (rule via_canonical [OF ru32.canonical_codec_axioms, where get = MilestoneIndex_value
        and make = "Inr \<circ> MilestoneIndex"])
    (auto simp: MilestoneIndex_packed_len_def MilestoneIndex_pack_def MilestoneIndex_read_def
      MilestoneIndex_unpack_def num_read_def map_errP_def bindP_def split: sum.splits)

record Milestone =
  Milestone_message_id :: MessageId
  Milestone_timestamp :: u64

definition Milestone_new :: "MessageId \<Rightarrow> u64 \<Rightarrow> Milestone" where
  "Milestone_new message_id timestamp =
     \<lparr>Milestone_message_id = message_id, Milestone_timestamp = timestamp\<rparr>"

definition Milestone_packed_len :: "Milestone \<Rightarrow> nat" where
  "Milestone_packed_len x =
     MessageId_packed_len (Milestone_message_id x) + num_packed_len (Milestone_timestamp x)"

definition Milestone_pack :: "Milestone \<Rightarrow> byte list" where
  "Milestone_pack x = MessageId_pack (Milestone_message_id x) @ num_pack (Milestone_timestamp x)"

definition Milestone_unpack :: "bool \<Rightarrow> (Error, Milestone) reader" where
  "Milestone_unpack check =
     bindP (MessageId_unpack check) (\<lambda>message_id.
     bindP (num_read check) (\<lambda>timestamp.
     returnP (Milestone_new message_id timestamp)))"

definition Milestone_valid :: "Milestone \<Rightarrow> bool" where
  "Milestone_valid x \<longleftrightarrow> MessageId_valid (Milestone_message_id x)"

interpretation Milestone: canonical_codec Milestone_packed_len Milestone_pack Milestone_unpack
    Milestone_valid
  by (rule via_canonical [OF seq_canonical [OF MessageId.canonical_codec_axioms
        ru64.canonical_codec_axioms],
        where get = "\<lambda>x. (Milestone_message_id x, Milestone_timestamp x)"
        and make = "\<lambda>(m, t). Inr (Milestone_new m t)"])
    (auto simp: Milestone_packed_len_def Milestone_pack_def Milestone_unpack_def Milestone_valid_def
      Milestone_new_def)

end
