(* ===== verification/Signature.thy ===== *)
theory Signature
  imports Message_Ids
begin

text \<open>
  Signatures of bee-message: \<open>Ed25519Signature\<close> (signature/ed25519.rs) and the enum
  \<open>SignatureUnlock\<close> (signature/mod.rs).
\<close>

definition ED25519_PUBLIC_KEY_LENGTH :: nat where
  "ED25519_PUBLIC_KEY_LENGTH = 32"

definition ED25519_SIGNATURE_LENGTH :: nat where
  "ED25519_SIGNATURE_LENGTH = 64"

record Ed25519Signature =
  Ed25519Signature_public_key :: "byte list"
  Ed25519Signature_signature :: "byte list"

definition Ed25519Signature_KIND :: u8 where
  "Ed25519Signature_KIND = 0"

definition Ed25519Signature_new :: "byte list \<Rightarrow> byte list \<Rightarrow> Ed25519Signature" where
  "Ed25519Signature_new public_key signature =
     \<lparr>Ed25519Signature_public_key = public_key, Ed25519Signature_signature = signature\<rparr>"

definition Ed25519Signature_packed_len :: "Ed25519Signature \<Rightarrow> nat" where
  "Ed25519Signature_packed_len x = ED25519_PUBLIC_KEY_LENGTH + ED25519_SIGNATURE_LENGTH"

definition Ed25519Signature_pack :: "Ed25519Signature \<Rightarrow> byte list" where
  "Ed25519Signature_pack x =
     array_pack (Ed25519Signature_public_key x) @ Ed25519Signature_signature x"

definition Ed25519Signature_unpack :: "bool \<Rightarrow> (Error, Ed25519Signature) reader" where
  "Ed25519Signature_unpack check =
     bindP (array_read ED25519_PUBLIC_KEY_LENGTH check) (\<lambda>public_key.
     bindP (array_read ED25519_SIGNATURE_LENGTH check) (\<lambda>signature.
     returnP (Ed25519Signature_new public_key signature)))"

definition Ed25519Signature_valid :: "Ed25519Signature \<Rightarrow> bool" where
  "Ed25519Signature_valid x \<longleftrightarrow>
     length (Ed25519Signature_public_key x) = ED25519_PUBLIC_KEY_LENGTH \<and>
     length (Ed25519Signature_signature x) = ED25519_SIGNATURE_LENGTH"

interpretation Ed25519Signature: canonical_codec Ed25519Signature_packed_len Ed25519Signature_pack
    Ed25519Signature_unpack Ed25519Signature_valid
  by (rule via_canonical [OF seq_canonical [OF
        rarray.canonical_codec_axioms [of ED25519_PUBLIC_KEY_LENGTH]
        rarray.canonical_codec_axioms [of ED25519_SIGNATURE_LENGTH]], where
        get = "\<lambda>x. (Ed25519Signature_public_key x, Ed25519Signature_signature x)" and
        make = "\<lambda>(k, s). Inr (Ed25519Signature_new k s)"])
    (auto simp: Ed25519Signature_packed_len_def Ed25519Signature_pack_def
      Ed25519Signature_unpack_def Ed25519Signature_valid_def Ed25519Signature_new_def
      array_packed_len_def array_pack_def)

datatype SignatureUnlock = SignatureUnlock_Ed25519 Ed25519Signature

definition SignatureUnlock_KIND :: u8 where
  "SignatureUnlock_KIND = 0"

fun SignatureUnlock_kind :: "SignatureUnlock \<Rightarrow> u8" where
  "SignatureUnlock_kind (SignatureUnlock_Ed25519 s) = Ed25519Signature_KIND"

fun SignatureUnlock_packed_len :: "SignatureUnlock \<Rightarrow> nat" where
  "SignatureUnlock_packed_len (SignatureUnlock_Ed25519 signature) =
     num_packed_len Ed25519Signature_KIND + Ed25519Signature_packed_len signature"

fun SignatureUnlock_pack :: "SignatureUnlock \<Rightarrow> byte list" where
  "SignatureUnlock_pack (SignatureUnlock_Ed25519 signature) =
     num_pack Ed25519Signature_KIND @ Ed25519Signature_pack signature"

definition SignatureUnlock_unpack :: "bool \<Rightarrow> (Error, SignatureUnlock) reader" where
  "SignatureUnlock_unpack check =
     bindP (num_read check) (\<lambda>k.
       if k = Ed25519Signature_KIND
       then bindP (Ed25519Signature_unpack check) (\<lambda>s. returnP (SignatureUnlock_Ed25519 s))
       else failP (InvalidSignatureKind k))"

fun SignatureUnlock_valid :: "SignatureUnlock \<Rightarrow> bool" where
  "SignatureUnlock_valid (SignatureUnlock_Ed25519 s) = Ed25519Signature_valid s"

interpretation SignatureUnlock: canonical_codec SignatureUnlock_packed_len SignatureUnlock_pack
    SignatureUnlock_unpack SignatureUnlock_valid
  by unfold_locales
    (auto simp: SignatureUnlock_unpack_def bindP_Inr_iff codec_run codec_len
      elim!: SignatureUnlock_valid.elims split: if_splits dest!: codec_dest)

end
