(* ===== verification/Unlock.thy ===== *)
theory Unlock
  imports Signature
begin

text \<open>
  Unlock blocks of bee-message: \<open>ReferenceUnlock\<close> (unlock/reference.rs), the enum \<open>UnlockBlock\<close> and
  the collection \<open>UnlockBlocks\<close> with its syntactic checks and its lookup through references
  (unlock/mod.rs).
\<close>

section \<open>Reference unlocks\<close>

datatype ReferenceUnlock = ReferenceUnlock (ReferenceUnlock_index: u16)

definition ReferenceUnlock_KIND :: u8 where
  "ReferenceUnlock_KIND = 1"

definition ReferenceUnlock_new :: "u16 \<Rightarrow> Error + ReferenceUnlock" where
  "ReferenceUnlock_new index =
     bindR (requireR (INPUT_OUTPUT_INDEX_RANGE index) (InvalidReferenceIndex index)) (\<lambda>_.
     Inr (ReferenceUnlock index))"

definition ReferenceUnlock_packed_len :: "ReferenceUnlock \<Rightarrow> nat" where
  "ReferenceUnlock_packed_len x = num_packed_len (0 :: u16)"

definition ReferenceUnlock_pack :: "ReferenceUnlock \<Rightarrow> byte list" where
  "ReferenceUnlock_pack x = num_pack (ReferenceUnlock_index x)"

definition ReferenceUnlock_unpack :: "bool \<Rightarrow> (Error, ReferenceUnlock) reader" where
  "ReferenceUnlock_unpack check = bindP (num_read check) (\<lambda>index. liftP (ReferenceUnlock_new index))"

definition ReferenceUnlock_valid :: "ReferenceUnlock \<Rightarrow> bool" where
  "ReferenceUnlock_valid x \<longleftrightarrow> INPUT_OUTPUT_INDEX_RANGE (ReferenceUnlock_index x)"

lemma ReferenceUnlock_new_Inr_iff:
  "ReferenceUnlock_new i = Inr x \<longleftrightarrow> INPUT_OUTPUT_INDEX_RANGE i \<and> x = ReferenceUnlock i"
  by (auto simp: ReferenceUnlock_new_def bindR_Inr_iff)

interpretation ReferenceUnlock: canonical_codec ReferenceUnlock_packed_len ReferenceUnlock_pack
    ReferenceUnlock_unpack ReferenceUnlock_valid
  by (rule via_canonical [OF ru16.canonical_codec_axioms, where get = ReferenceUnlock_index and
        make = ReferenceUnlock_new])
    (auto simp: ReferenceUnlock_packed_len_def ReferenceUnlock_pack_def ReferenceUnlock_unpack_def
      ReferenceUnlock_valid_def ReferenceUnlock_new_Inr_iff)

section \<open>Unlock blocks\<close>

datatype UnlockBlock =
    UnlockBlock_Signature SignatureUnlock
  | UnlockBlock_Reference ReferenceUnlock

fun UnlockBlock_kind :: "UnlockBlock \<Rightarrow> u8" where
  "UnlockBlock_kind (UnlockBlock_Signature _) = SignatureUnlock_KIND"
| "UnlockBlock_kind (UnlockBlock_Reference _) = ReferenceUnlock_KIND"

fun UnlockBlock_packed_len :: "UnlockBlock \<Rightarrow> nat" where
  "UnlockBlock_packed_len (UnlockBlock_Signature unlock) =
     num_packed_len SignatureUnlock_KIND + SignatureUnlock_packed_len unlock"
| "UnlockBlock_packed_len (UnlockBlock_Reference unlock) =
     num_packed_len ReferenceUnlock_KIND + ReferenceUnlock_packed_len unlock"

fun UnlockBlock_pack :: "UnlockBlock \<Rightarrow> byte list" where
  "UnlockBlock_pack (UnlockBlock_Signature unlock) =
     num_pack SignatureUnlock_KIND @ SignatureUnlock_pack unlock"
| "UnlockBlock_pack (UnlockBlock_Reference unlock) =
     num_pack ReferenceUnlock_KIND @ ReferenceUnlock_pack unlock"

definition UnlockBlock_unpack :: "bool \<Rightarrow> (Error, UnlockBlock) reader" where
  "UnlockBlock_unpack check =
     bindP (num_read check) (\<lambda>k.
       if k = SignatureUnlock_KIND
       then bindP (SignatureUnlock_unpack check) (\<lambda>x. returnP (UnlockBlock_Signature x))
       else if k = ReferenceUnlock_KIND
       then bindP (ReferenceUnlock_unpack check) (\<lambda>x. returnP (UnlockBlock_Reference x))
       else failP (InvalidUnlockBlockKind k))"

fun UnlockBlock_valid :: "UnlockBlock \<Rightarrow> bool" where
  "UnlockBlock_valid (UnlockBlock_Signature x) = SignatureUnlock_valid x"
| "UnlockBlock_valid (UnlockBlock_Reference x) = ReferenceUnlock_valid x"

lemmas UnlockBlock_KIND_defs = SignatureUnlock_KIND_def ReferenceUnlock_KIND_def

interpretation UnlockBlock: canonical_codec UnlockBlock_packed_len UnlockBlock_pack
    UnlockBlock_unpack UnlockBlock_valid
  by unfold_locales
    ((auto simp: UnlockBlock_unpack_def UnlockBlock_KIND_defs codec_run codec_len
        elim!: UnlockBlock_valid.elims)[2],
      auto simp: UnlockBlock_unpack_def bindP_Inr_iff split: if_splits dest!: codec_dest)

section \<open>Collections of unlock blocks\<close>

datatype UnlockBlocks = UnlockBlocks (UnlockBlocks_blocks: "UnlockBlock list")

fun is_reference :: "UnlockBlock \<Rightarrow> bool" where
  "is_reference (UnlockBlock_Reference _) = True"
| "is_reference (UnlockBlock_Signature _) = False"

text \<open>The loop of \<open>new\<close>: \<open>unlock_blocks\<close> is the whole vector, the last argument what is left of it.\<close>

fun UnlockBlocks_check ::
  "UnlockBlock list \<Rightarrow> nat \<Rightarrow> SignatureUnlock set \<Rightarrow> UnlockBlock list \<Rightarrow> Error + unit" where
  "UnlockBlocks_check unlock_blocks index seen_signatures [] = Inr ()"
| "UnlockBlocks_check unlock_blocks index seen_signatures (UnlockBlock_Reference r # rest) =
     (if index = 0 \<or> ReferenceUnlock_index r \<ge> word_of_nat index
         \<or> is_reference (unlock_blocks ! unat (ReferenceUnlock_index r))
      then Inl (InvalidUnlockBlockReference index)
      else UnlockBlocks_check unlock_blocks (Suc index) seen_signatures rest)"
| "UnlockBlocks_check unlock_blocks index seen_signatures (UnlockBlock_Signature s # rest) =
     (if s \<in> seen_signatures
      then Inl (DuplicateSignature index)
      else UnlockBlocks_check unlock_blocks (Suc index) (insert s seen_signatures) rest)"

definition UnlockBlocks_new :: "UnlockBlock list \<Rightarrow> Error + UnlockBlocks" where
  "UnlockBlocks_new unlock_blocks =
     bindR (requireR (UNLOCK_BLOCK_COUNT_RANGE (length unlock_blocks))
       (InvalidUnlockBlockCount (length unlock_blocks))) (\<lambda>_.
     bindR (UnlockBlocks_check unlock_blocks 0 {} unlock_blocks) (\<lambda>_.
     Inr (UnlockBlocks unlock_blocks)))"

definition UnlockBlocks_get :: "UnlockBlocks \<Rightarrow> nat \<Rightarrow> UnlockBlock option" where
  "UnlockBlocks_get self index =
     (let blocks = UnlockBlocks_blocks self;
          slice_get = (\<lambda>i. if i < length blocks then Some (blocks ! i) else None) in
      case slice_get index of
        Some (UnlockBlock_Reference reference) \<Rightarrow> slice_get (unat (ReferenceUnlock_index reference))
      | Some unlock_block \<Rightarrow> Some unlock_block
      | None \<Rightarrow> None)"

definition UnlockBlocks_packed_len :: "UnlockBlocks \<Rightarrow> nat" where
  "UnlockBlocks_packed_len x =
     num_packed_len (0 :: u16) + sum_list (map UnlockBlock_packed_len (UnlockBlocks_blocks x))"

definition UnlockBlocks_pack :: "UnlockBlocks \<Rightarrow> byte list" where
  "UnlockBlocks_pack x =
     num_pack (word_of_nat (length (UnlockBlocks_blocks x)) :: u16) @
     concat (map UnlockBlock_pack (UnlockBlocks_blocks x))"

definition UnlockBlocks_unpack :: "bool \<Rightarrow> (Error, UnlockBlocks) reader" where
  "UnlockBlocks_unpack check =
     bindP (num_read check) (\<lambda>unlock_blocks_len :: u16.
     bindP (requireP (check \<longrightarrow> UNLOCK_BLOCK_COUNT_RANGE (unat unlock_blocks_len))
       (InvalidUnlockBlockCount (unat unlock_blocks_len))) (\<lambda>_.
     bindP (repeatP (unat unlock_blocks_len) (UnlockBlock_unpack check)) (\<lambda>unlock_blocks.
     liftP (UnlockBlocks_new unlock_blocks))))"

text \<open>What the checks amount to: a reference points to an earlier signature block, and no two
  blocks hold the same signature.\<close>

definition unlock_block_ok :: "UnlockBlock list \<Rightarrow> nat \<Rightarrow> bool" where
  "unlock_block_ok bs i =
     (case bs ! i of
       UnlockBlock_Reference r \<Rightarrow>
         unat (ReferenceUnlock_index r) < i \<and> \<not> is_reference (bs ! unat (ReferenceUnlock_index r))
     | UnlockBlock_Signature s \<Rightarrow> UnlockBlock_Signature s \<notin> set (take i bs))"

definition UnlockBlocks_wf :: "UnlockBlock list \<Rightarrow> bool" where
  "UnlockBlocks_wf bs \<longleftrightarrow>
     UNLOCK_BLOCK_COUNT_RANGE (length bs) \<and> (\<forall>i < length bs. unlock_block_ok bs i)"

definition UnlockBlocks_valid :: "UnlockBlocks \<Rightarrow> bool" where
  "UnlockBlocks_valid x \<longleftrightarrow>
     list_all UnlockBlock_valid (UnlockBlocks_blocks x) \<and> UnlockBlocks_wf (UnlockBlocks_blocks x)"

lemma UnlockBlocks_check_Inr_iff:
  assumes "bs = pre @ rest" and "length bs < 2 ^ 16"
    and "seen = {s. UnlockBlock_Signature s \<in> set pre}"
  shows "UnlockBlocks_check bs (length pre) seen rest = Inr () \<longleftrightarrow>
    (\<forall>i. length pre \<le> i \<and> i < length bs \<longrightarrow> unlock_block_ok bs i)"
  using assms
proof (induction rest arbitrary: pre seen)
  case Nil
  then show ?case by auto
next
  case (Cons b rest)
  have split: "(\<forall>i. length pre \<le> i \<and> i < length bs \<longrightarrow> unlock_block_ok bs i) \<longleftrightarrow>
      unlock_block_ok bs (length pre) \<and>
      (\<forall>i. length (pre @ [b]) \<le> i \<and> i < length bs \<longrightarrow> unlock_block_ok bs i)"
    using Cons.prems(1) by (auto simp: Suc_le_eq nat_less_le)
  have b: "bs ! length pre = b" and take: "take (length pre) bs = pre"
    using Cons.prems(1) by auto
  have seen: "insert s seen = {s'. UnlockBlock_Signature s' \<in> set (pre @ [b])}"
    if "b = UnlockBlock_Signature s" for s
    using that Cons.prems(3) by auto
  have seen': "seen = {s'. UnlockBlock_Signature s' \<in> set (pre @ [b])}"
    if "b = UnlockBlock_Reference r" for r
    using that Cons.prems(3) by auto
  have bs: "bs = (pre @ [b]) @ rest" using Cons.prems(1) by simp
  have idx: "(word_of_nat (length pre) :: u16) \<le> w \<longleftrightarrow> length pre \<le> unat w" for w
    using Cons.prems(1,2) by (simp add: word_le_nat_alt unat_of_nat)
  show ?case
  proof (cases b)
    case (UnlockBlock_Signature s)
    then show ?thesis
      using Cons.IH [OF bs Cons.prems(2) seen] Cons.prems(3) unfolding split
      by (auto simp: unlock_block_ok_def b take)
  next
    case (UnlockBlock_Reference r)
    then show ?thesis
      using Cons.IH [OF bs Cons.prems(2) seen'] unfolding split
      by (auto simp: unlock_block_ok_def b take idx)
  qed
qed

lemma UnlockBlocks_new_Inr_iff:
  "UnlockBlocks_new bs = Inr x \<longleftrightarrow> UnlockBlocks_wf bs \<and> x = UnlockBlocks bs"
  using UnlockBlocks_check_Inr_iff [of bs "[]" bs "{}"]
  by (auto simp: UnlockBlocks_new_def UnlockBlocks_wf_def bindR_Inr_iff UNLOCK_BLOCK_COUNT_RANGE_def
      INPUT_OUTPUT_COUNT_RANGE_def INPUT_OUTPUT_COUNT_MAX_def)

interpretation UnlockBlocks: canonical_codec UnlockBlocks_packed_len UnlockBlocks_pack
    UnlockBlocks_unpack UnlockBlocks_valid
  by (rule via_canonical [OF counted_canonical [OF ru16.canonical_codec_axioms
        UnlockBlock.canonical_codec_axioms, where ok = UNLOCK_BLOCK_COUNT_RANGE and
        e = InvalidUnlockBlockCount], where get = UnlockBlocks_blocks and make = UnlockBlocks_new])
    (auto simp: UnlockBlocks_packed_len_def UnlockBlocks_pack_def UnlockBlocks_unpack_def
      UnlockBlocks_valid_def UnlockBlocks_new_Inr_iff UnlockBlocks_wf_def countedP_def
      UNLOCK_BLOCK_COUNT_RANGE_def INPUT_OUTPUT_COUNT_RANGE_def INPUT_OUTPUT_COUNT_MAX_def)

text \<open>Looking a block up in a well formed collection always yields a signature block.\<close>

lemma UnlockBlocks_get_signature:
  assumes "UnlockBlocks_wf bs" and "i < length bs"
  shows "\<exists>s. UnlockBlocks_get (UnlockBlocks bs) i = Some (UnlockBlock_Signature s)"
proof (cases "bs ! i")
  case (UnlockBlock_Signature s)
  with assms(2) show ?thesis by (simp add: UnlockBlocks_get_def)
next
  case (UnlockBlock_Reference r)
  let ?j = "unat (ReferenceUnlock_index r)"
  from assms UnlockBlock_Reference have j: "?j < i" "\<not> is_reference (bs ! ?j)"
    by (auto simp: UnlockBlocks_wf_def unlock_block_ok_def split: UnlockBlock.splits)
  then obtain s where "bs ! ?j = UnlockBlock_Signature s"
    by (cases "bs ! ?j") auto
  with UnlockBlock_Reference j(1) assms(2) show ?thesis by (simp add: UnlockBlocks_get_def)
qed

lemma UnlockBlocks_get_None:
  "length bs \<le> i \<Longrightarrow> UnlockBlocks_get (UnlockBlocks bs) i = None"
  by (simp add: UnlockBlocks_get_def)

end
