(* ===== verification/Parents_Model.thy ===== *)
theory Parents_Model
  imports Message_Ids
begin

text \<open>
  The parents of a message (bee-message, parents.rs): between one and eight message identifiers,
  sorted and unique.
\<close>

definition MESSAGE_PARENTS_RANGE :: "nat \<Rightarrow> bool" where
  "MESSAGE_PARENTS_RANGE n \<longleftrightarrow> 1 \<le> n \<and> n \<le> 8"

datatype Parents = Parents (Parents_ids: "MessageId list")

definition Parents_new :: "deps \<Rightarrow> MessageId list \<Rightarrow> Error + Parents" where
  "Parents_new d inner =
     bindR (requireR (MESSAGE_PARENTS_RANGE (length inner)) (InvalidParentsCount (length inner))) (\<lambda>_.
     bindR (requireR (is_unique_sorted d (map MessageId_bytes inner)) ParentsNotUniqueSorted) (\<lambda>_.
     Inr (Parents inner)))"

definition Parents_len :: "Parents \<Rightarrow> nat" where
  "Parents_len x = length (Parents_ids x)"

definition Parents_packed_len :: "Parents \<Rightarrow> nat" where
  "Parents_packed_len x = num_packed_len (0 :: u8) + Parents_len x * MESSAGE_ID_LENGTH"

definition Parents_pack :: "Parents \<Rightarrow> byte list" where
  "Parents_pack x =
     num_pack (word_of_nat (Parents_len x) :: u8) @ concat (map MessageId_pack (Parents_ids x))"

definition Parents_unpack :: "deps \<Rightarrow> bool \<Rightarrow> (Error, Parents) reader" where
  "Parents_unpack d check =
     bindP (num_read check) (\<lambda>parents_len :: u8.
     bindP (requireP (check \<longrightarrow> MESSAGE_PARENTS_RANGE (unat parents_len))
       (InvalidParentsCount (unat parents_len))) (\<lambda>_.
     bindP (repeatP (unat parents_len) (MessageId_unpack check)) (\<lambda>inner.
     liftP (Parents_new d inner))))"

definition Parents_valid :: "deps \<Rightarrow> Parents \<Rightarrow> bool" where
  "Parents_valid d x \<longleftrightarrow>
     list_all MessageId_valid (Parents_ids x) \<and> MESSAGE_PARENTS_RANGE (length (Parents_ids x)) \<and>
     is_unique_sorted d (map MessageId_bytes (Parents_ids x))"

lemma Parents_new_Inr_iff:
  "Parents_new d ids = Inr x \<longleftrightarrow>
     MESSAGE_PARENTS_RANGE (length ids) \<and> is_unique_sorted d (map MessageId_bytes ids) \<and>
     x = Parents ids"
  by (auto simp: Parents_new_def bindR_Inr_iff)

lemma sum_MessageId_packed_len: "sum_list (map MessageId_packed_len xs) = length xs * MESSAGE_ID_LENGTH"
  by (induction xs) (simp_all add: MessageId_packed_len_def)

interpretation Parents: canonical_codec Parents_packed_len Parents_pack "Parents_unpack d"
    "Parents_valid d" for d
  by (rule via_canonical [OF counted_canonical [OF ru8.canonical_codec_axioms
        MessageId.canonical_codec_axioms, where ok = MESSAGE_PARENTS_RANGE and
        e = InvalidParentsCount], where get = Parents_ids and make = "Parents_new d"])
    (auto simp: Parents_packed_len_def Parents_pack_def Parents_unpack_def Parents_len_def
      Parents_valid_def Parents_new_Inr_iff countedP_def sum_MessageId_packed_len
      MESSAGE_PARENTS_RANGE_def)

lemma Parents_valid_distinct:
  assumes "iterator_sorted_spec d" and "Parents_valid d p"
  shows "distinct (Parents_ids p)"
proof -
  have "sorted_wrt (<) (map MessageId_bytes (Parents_ids p))"
    using assms by (simp add: Parents_valid_def is_unique_sorted_eq)
  then have "distinct (map MessageId_bytes (Parents_ids p))"
    by (simp add: strict_sorted_iff)
  then show ?thesis by (simp add: distinct_map)
qed

end
