(* ===== verification/Indexation.thy ===== *)
theory Indexation
  imports Message_Ids
begin

text \<open>
  The indexation payload of bee-message (payload/indexation/mod.rs) and its padded index
  (payload/indexation/padded.rs), with the length limits of a message (message.rs).
\<close>

definition MESSAGE_LENGTH_MIN :: nat where
  "MESSAGE_LENGTH_MIN = 53"

definition MESSAGE_LENGTH_MAX :: nat where
  "MESSAGE_LENGTH_MAX = 32768"

definition INDEXATION_PADDED_INDEX_LENGTH :: nat where
  "INDEXATION_PADDED_INDEX_LENGTH = 64"

definition INDEXATION_INDEX_LENGTH_RANGE :: "nat \<Rightarrow> bool" where
  "INDEXATION_INDEX_LENGTH_RANGE n \<longleftrightarrow> 1 \<le> n \<and> n \<le> INDEXATION_PADDED_INDEX_LENGTH"

datatype PaddedIndex = PaddedIndex (PaddedIndex_bytes: "byte list")

record IndexationPayload =
  IndexationPayload_index :: "byte list"
  IndexationPayload_data :: "byte list"

definition IndexationPayload_KIND :: u32 where
  "IndexationPayload_KIND = 2"

definition IndexationPayload_new :: "byte list \<Rightarrow> byte list \<Rightarrow> Error + IndexationPayload" where
  "IndexationPayload_new index data =
     bindR (requireR (INDEXATION_INDEX_LENGTH_RANGE (length index))
       (InvalidIndexationIndexLength (length index))) (\<lambda>_.
     bindR (requireR (\<not> length data > MESSAGE_LENGTH_MAX)
       (InvalidIndexationDataLength (length data))) (\<lambda>_.
     Inr \<lparr>IndexationPayload_index = index, IndexationPayload_data = data\<rparr>))"

text \<open>The slice \<open>padded_index[..self.index.len()]\<close> panics when the index is too long.\<close>

definition IndexationPayload_padded_index :: "IndexationPayload \<Rightarrow> PaddedIndex option" where
  "IndexationPayload_padded_index self =
     (let padded_index = replicate INDEXATION_PADDED_INDEX_LENGTH 0;
          n = length (IndexationPayload_index self) in
      if n \<le> length padded_index
      then Some (PaddedIndex (IndexationPayload_index self @ drop n padded_index))
      else None)"

definition IndexationPayload_packed_len :: "IndexationPayload \<Rightarrow> nat" where
  "IndexationPayload_packed_len x =
     num_packed_len (0 :: u16) + length (IndexationPayload_index x) +
     num_packed_len (0 :: u32) + length (IndexationPayload_data x)"

definition IndexationPayload_pack :: "IndexationPayload \<Rightarrow> byte list" where
  "IndexationPayload_pack x =
     num_pack (word_of_nat (length (IndexationPayload_index x)) :: u16) @ IndexationPayload_index x @
     num_pack (word_of_nat (length (IndexationPayload_data x)) :: u32) @ IndexationPayload_data x"

definition IndexationPayload_unpack :: "bool \<Rightarrow> (Error, IndexationPayload) reader" where
  "IndexationPayload_unpack check =
     bindP (num_read check) (\<lambda>index_len :: u16.
     bindP (requireP (check \<longrightarrow> INDEXATION_INDEX_LENGTH_RANGE (unat index_len))
       (InvalidIndexationIndexLength (unat index_len))) (\<lambda>_.
     bindP (map_errP Io (read_exact (unat index_len))) (\<lambda>index.
     bindP (num_read check) (\<lambda>data_len :: u32.
     bindP (requireP (check \<longrightarrow> \<not> unat data_len > MESSAGE_LENGTH_MAX)
       (InvalidIndexationDataLength (unat data_len))) (\<lambda>_.
     bindP (map_errP Io (read_exact (unat data_len))) (\<lambda>data.
     returnP \<lparr>IndexationPayload_index = index, IndexationPayload_data = data\<rparr>))))))"

definition IndexationPayload_valid :: "IndexationPayload \<Rightarrow> bool" where
  "IndexationPayload_valid x \<longleftrightarrow>
     INDEXATION_INDEX_LENGTH_RANGE (length (IndexationPayload_index x)) \<and>
     length (IndexationPayload_data x) \<le> MESSAGE_LENGTH_MAX"

lemma IndexationPayload_new_Inr_iff:
  "IndexationPayload_new i b = Inr x \<longleftrightarrow>
     INDEXATION_INDEX_LENGTH_RANGE (length i) \<and> length b \<le> MESSAGE_LENGTH_MAX \<and>
     x = \<lparr>IndexationPayload_index = i, IndexationPayload_data = b\<rparr>"
  by (auto simp: IndexationPayload_new_def bindR_Inr_iff)

text \<open>A run of bytes with its length in front of it.\<close>

definition blobP :: "(nat \<Rightarrow> bool) \<Rightarrow> (nat \<Rightarrow> Error) \<Rightarrow> ('n::len) itself \<Rightarrow> bool \<Rightarrow> (Error, byte list) reader"
where
  "blobP ok e T c =
     bindP (num_read c) (\<lambda>n :: 'n word. bindP (requireP (c \<longrightarrow> ok (unat n)) (e (unat n))) (\<lambda>_.
       map_errP Io (read_exact (unat n))))"

lemma blob_canonical:
  assumes "8 dvd LENGTH('n::len)" and "\<And>n. ok n \<Longrightarrow> n < 2 ^ LENGTH('n)"
  shows "canonical_codec (\<lambda>xs. num_packed_len (0 :: 'n word) + length xs)
    (\<lambda>xs. num_pack (word_of_nat (length xs) :: 'n word) @ xs) (blobP ok e TYPE('n)) (\<lambda>xs. ok (length xs))"
proof -
  note n = num_read_canonical [OF assms(1)]
  note nc = canonical_codec.axioms(1) [OF n]
  show ?thesis
    using assms(2)
    by unfold_locales
      ((auto simp: blobP_def codec.length_pack [OF nc] codec.bind_unpack [OF nc] unat_of_nat)[2],
        auto simp: blobP_def bindP_Inr_iff read_exact_Inr_iff split: if_splits
          dest!: canonical_codec.unpack_dest [OF n])
qed

interpretation IndexationPayload: canonical_codec IndexationPayload_packed_len IndexationPayload_pack
    IndexationPayload_unpack IndexationPayload_valid
  by (rule via_canonical [OF seq_canonical [OF
        blob_canonical [where 'n = 16 and ok = INDEXATION_INDEX_LENGTH_RANGE and
          e = InvalidIndexationIndexLength]
        blob_canonical [where 'n = 32 and ok = "\<lambda>n. \<not> n > MESSAGE_LENGTH_MAX" and
          e = InvalidIndexationDataLength]], where
        get = "\<lambda>x. (IndexationPayload_index x, IndexationPayload_data x)" and
        make = "\<lambda>(i, b). Inr \<lparr>IndexationPayload_index = i, IndexationPayload_data = b\<rparr>"])
    (auto simp: IndexationPayload_packed_len_def IndexationPayload_pack_def blobP_def
      IndexationPayload_unpack_def IndexationPayload_valid_def INDEXATION_INDEX_LENGTH_RANGE_def
      INDEXATION_PADDED_INDEX_LENGTH_def MESSAGE_LENGTH_MAX_def)

lemma IndexationPayload_padded_index_total:
  assumes "IndexationPayload_valid x"
  obtains p where "IndexationPayload_padded_index x = Some (PaddedIndex p)"
    and "length p = INDEXATION_PADDED_INDEX_LENGTH"
    and "take (length (IndexationPayload_index x)) p = IndexationPayload_index x"
  using assms
  by (auto simp: IndexationPayload_padded_index_def IndexationPayload_valid_def Let_def
      INDEXATION_INDEX_LENGTH_RANGE_def)

end
