(* ===== verification/Address_Model.thy ===== *)
theory Address_Model
  imports Signature
begin

text \<open>
  Addresses of bee-message: \<open>Ed25519Address\<close> (address/ed25519.rs) with its signature check, and the
  enum \<open>Address\<close> (address/mod.rs) with its Bech32 form. The conversion of the signature to an array
  inside \<open>verify\<close> cannot fail, an \<open>Ed25519Signature\<close> being built from an array of that length.
\<close>

section \<open>Ed25519 addresses\<close>

definition ED25519_ADDRESS_LENGTH :: nat where
  "ED25519_ADDRESS_LENGTH = 32"

definition Ed25519Address_KIND :: u8 where
  "Ed25519Address_KIND = 0"

definition Ed25519Address_new :: "byte list \<Rightarrow> Ed25519Address" where
  "Ed25519Address_new address = Ed25519Address address"

definition Ed25519Address_verify ::
  "deps \<Rightarrow> Ed25519Address \<Rightarrow> byte list \<Rightarrow> Ed25519Signature \<Rightarrow> Error + unit" where
  "Ed25519Address_verify d self msg signature =
     (let address = blake2b256 d (Ed25519Signature_public_key signature) in
      bindR (requireR (Ed25519Address_bytes self = address)
        (SignaturePublicKeyMismatch (hex_encode d (Ed25519Address_bytes self)) (hex_encode d address)))
        (\<lambda>_.
      bindR (map_errR CryptoError
          (public_key_try_from_bytes d (Ed25519Signature_public_key signature))) (\<lambda>key.
      bindR (requireR (public_key_verify d key (Ed25519Signature_signature signature) msg)
        InvalidSignature) (\<lambda>_.
      Inr ()))))"

definition Ed25519Address_from_str :: "deps \<Rightarrow> string \<Rightarrow> Error + Ed25519Address" where
  "Ed25519Address_from_str d s =
     bindR (ok_or (InvalidHexadecimalChar s) (hex_decode d s)) (\<lambda>bytes.
     bindR (requireR (length bytes = ED25519_ADDRESS_LENGTH)
       (InvalidHexadecimalLength (ED25519_ADDRESS_LENGTH * 2) (length s))) (\<lambda>_.
     Inr (Ed25519Address bytes)))"

definition Ed25519Address_fmt :: "deps \<Rightarrow> Ed25519Address \<Rightarrow> string" where
  "Ed25519Address_fmt d x = hex_encode d (Ed25519Address_bytes x)"

definition Ed25519Address_packed_len :: "Ed25519Address \<Rightarrow> nat" where
  "Ed25519Address_packed_len x = ED25519_ADDRESS_LENGTH"

definition Ed25519Address_pack :: "Ed25519Address \<Rightarrow> byte list" where
  "Ed25519Address_pack x = array_pack (Ed25519Address_bytes x)"

definition Ed25519Address_unpack :: "bool \<Rightarrow> (Error, Ed25519Address) reader" where
  "Ed25519Address_unpack check =
     bindP (array_read ED25519_ADDRESS_LENGTH check) (\<lambda>bytes. returnP (Ed25519Address_new bytes))"

definition Ed25519Address_valid :: "Ed25519Address \<Rightarrow> bool" where
  "Ed25519Address_valid x \<longleftrightarrow> length (Ed25519Address_bytes x) = ED25519_ADDRESS_LENGTH"

interpretation Ed25519Address: canonical_codec Ed25519Address_packed_len Ed25519Address_pack
    Ed25519Address_unpack Ed25519Address_valid
  by unfold_locales
    (auto simp: Ed25519Address_packed_len_def Ed25519Address_pack_def Ed25519Address_unpack_def
      Ed25519Address_valid_def Ed25519Address_new_def bindP_Inr_iff array_read_Inr_iff array_pack_def)

lemma Ed25519Address_from_str_fmt:
  "hex_spec d \<Longrightarrow> Ed25519Address_valid x \<Longrightarrow>
     Ed25519Address_from_str d (Ed25519Address_fmt d x) = Inr x"
  by (simp add: Ed25519Address_from_str_def Ed25519Address_fmt_def Ed25519Address_valid_def hex_specD)

lemma Ed25519Address_verify_Inr_iff:
  "Ed25519Address_verify d a msg s = Inr () \<longleftrightarrow>
     Ed25519Address_bytes a = blake2b256 d (Ed25519Signature_public_key s) \<and>
     (\<exists>key. public_key_try_from_bytes d (Ed25519Signature_public_key s) = Inr key \<and>
       public_key_verify d key (Ed25519Signature_signature s) msg)"
  by (auto simp: Ed25519Address_verify_def Let_def bindR_Inr_iff)

section \<open>Addresses\<close>

fun Address_kind :: "Address \<Rightarrow> u8" where
  "Address_kind (Address_Ed25519 a) = Ed25519Address_KIND"

fun Address_packed_len :: "Address \<Rightarrow> nat" where
  "Address_packed_len (Address_Ed25519 address) =
     num_packed_len Ed25519Address_KIND + Ed25519Address_packed_len address"

fun Address_pack :: "Address \<Rightarrow> byte list" where
  "Address_pack (Address_Ed25519 address) =
     num_pack Ed25519Address_KIND @ Ed25519Address_pack address"

definition Address_unpack :: "bool \<Rightarrow> (Error, Address) reader" where
  "Address_unpack check =
     bindP (num_read check) (\<lambda>k.
       if k = Ed25519Address_KIND
       then bindP (Ed25519Address_unpack check) (\<lambda>a. returnP (Address_Ed25519 a))
       else failP (InvalidAddressKind k))"

fun Address_valid :: "Address \<Rightarrow> bool" where
  "Address_valid (Address_Ed25519 a) = Ed25519Address_valid a"

interpretation Address: canonical_codec Address_packed_len Address_pack Address_unpack Address_valid
  by unfold_locales
    (auto simp: Address_unpack_def bindP_Inr_iff codec_run codec_len
      elim!: Address_valid.elims split: if_splits dest!: codec_dest)

definition Address_try_from_bech32 :: "deps \<Rightarrow> string \<Rightarrow> Error + Address" where
  "Address_try_from_bech32 d addr =
     (case bech32_decode d addr of
       Some (hrp, data, variant) \<Rightarrow>
         bindR (ok_or InvalidAddress (from_base32 d data)) (\<lambda>bytes.
           map_errR (\<lambda>_. InvalidAddress) (map_sum id fst (Address_unpack True bytes)))
     | None \<Rightarrow> Inl InvalidAddress)"

text \<open>\<open>None\<close> is the panic of \<open>expect\<close>, when the encoder refuses the prefix.\<close>

definition Address_to_bech32 :: "deps \<Rightarrow> Address \<Rightarrow> string \<Rightarrow> string option" where
  "Address_to_bech32 d self hrp = bech32_encode d hrp (to_base32 d (Address_pack self)) Bech32"

fun Address_verify :: "deps \<Rightarrow> Address \<Rightarrow> byte list \<Rightarrow> SignatureUnlock \<Rightarrow> Error + unit" where
  "Address_verify d (Address_Ed25519 address) msg (SignatureUnlock_Ed25519 signature) =
     Ed25519Address_verify d address msg signature"

lemma Address_bech32_roundtrip:
  assumes "bech32_spec hrp d" and "Address_valid a" and "Address_to_bech32 d a hrp = Some s"
  shows "Address_try_from_bech32 d s = Inr a"
  using assms by (simp add: bech32_spec_def Address_to_bech32_def Address_try_from_bech32_def codec_run)

end
