(* ===== verification/Inputs.thy ===== *)
theory Inputs
  imports Address_Model
begin

text \<open>
  Transaction inputs of bee-message: \<open>UtxoInput\<close> (input/utxo.rs), \<open>TreasuryInput\<close>
  (input/treasury.rs) and the enum \<open>Input\<close> (input/mod.rs).
\<close>

section \<open>UTXO inputs\<close>

definition UtxoInput_KIND :: u8 where
  "UtxoInput_KIND = 0"

definition UtxoInput_new :: "TransactionId \<Rightarrow> u16 \<Rightarrow> Error + UtxoInput" where
  "UtxoInput_new transaction_id index = bindR (OutputId_new transaction_id index) (\<lambda>x. Inr (UtxoInput x))"

definition UtxoInput_from_str :: "deps \<Rightarrow> string \<Rightarrow> Error + UtxoInput" where
  "UtxoInput_from_str d s = bindR (OutputId_from_str d s) (\<lambda>x. Inr (UtxoInput x))"

definition UtxoInput_fmt :: "deps \<Rightarrow> UtxoInput \<Rightarrow> string" where
  "UtxoInput_fmt d x = OutputId_fmt d (UtxoInput_output_id x)"

definition UtxoInput_packed_len :: "UtxoInput \<Rightarrow> nat" where
  "UtxoInput_packed_len x = OutputId_packed_len (UtxoInput_output_id x)"

definition UtxoInput_pack :: "UtxoInput \<Rightarrow> byte list" where
  "UtxoInput_pack x = OutputId_pack (UtxoInput_output_id x)"

definition UtxoInput_unpack :: "bool \<Rightarrow> (Error, UtxoInput) reader" where
  "UtxoInput_unpack check = bindP (OutputId_unpack check) (\<lambda>x. returnP (UtxoInput x))"

definition UtxoInput_valid :: "UtxoInput \<Rightarrow> bool" where
  "UtxoInput_valid x \<longleftrightarrow> OutputId_valid (UtxoInput_output_id x)"

lemmas UtxoInput_defs = UtxoInput_packed_len_def UtxoInput_pack_def UtxoInput_unpack_def
  UtxoInput_valid_def

interpretation UtxoInput: canonical_codec UtxoInput_packed_len UtxoInput_pack UtxoInput_unpack
    UtxoInput_valid
  by (rule via_canonical [OF OutputId.canonical_codec_axioms, where get = UtxoInput_output_id
        and make = "Inr \<circ> UtxoInput"]) (auto simp: UtxoInput_defs)

lemma UtxoInput_from_str_fmt:
  "hex_spec d \<Longrightarrow> UtxoInput_valid x \<Longrightarrow> UtxoInput_from_str d (UtxoInput_fmt d x) = Inr x"
  by (simp add: UtxoInput_from_str_def UtxoInput_fmt_def UtxoInput_valid_def OutputId_from_str_fmt)

section \<open>Treasury inputs\<close>

datatype TreasuryInput = TreasuryInput (TreasuryInput_milestone_id: MilestoneId)

definition TreasuryInput_KIND :: u8 where
  "TreasuryInput_KIND = 1"

definition TreasuryInput_new :: "MilestoneId \<Rightarrow> TreasuryInput" where
  "TreasuryInput_new milestone_id = TreasuryInput milestone_id"

definition TreasuryInput_from_str :: "deps \<Rightarrow> string \<Rightarrow> Error + TreasuryInput" where
  "TreasuryInput_from_str d s = bindR (MilestoneId_from_str d s) (\<lambda>x. Inr (TreasuryInput x))"

definition TreasuryInput_fmt :: "deps \<Rightarrow> TreasuryInput \<Rightarrow> string" where
  "TreasuryInput_fmt d x = MilestoneId_fmt d (TreasuryInput_milestone_id x)"

definition TreasuryInput_packed_len :: "TreasuryInput \<Rightarrow> nat" where
  "TreasuryInput_packed_len x = MilestoneId_packed_len (TreasuryInput_milestone_id x)"

definition TreasuryInput_pack :: "TreasuryInput \<Rightarrow> byte list" where
  "TreasuryInput_pack x = MilestoneId_pack (TreasuryInput_milestone_id x)"

definition TreasuryInput_unpack :: "bool \<Rightarrow> (Error, TreasuryInput) reader" where
  "TreasuryInput_unpack check = bindP (MilestoneId_unpack check) (\<lambda>x. returnP (TreasuryInput_new x))"

definition TreasuryInput_valid :: "TreasuryInput \<Rightarrow> bool" where
  "TreasuryInput_valid x \<longleftrightarrow> MilestoneId_valid (TreasuryInput_milestone_id x)"

lemmas TreasuryInput_defs = TreasuryInput_packed_len_def TreasuryInput_pack_def
  TreasuryInput_unpack_def TreasuryInput_valid_def TreasuryInput_new_def

interpretation TreasuryInput: canonical_codec TreasuryInput_packed_len TreasuryInput_pack
    TreasuryInput_unpack TreasuryInput_valid
  by (rule via_canonical [OF MilestoneId.canonical_codec_axioms, where
        get = TreasuryInput_milestone_id and make = "Inr \<circ> TreasuryInput"])
    (auto simp: TreasuryInput_defs)

lemma TreasuryInput_from_str_fmt:
  "hex_spec d \<Longrightarrow> TreasuryInput_valid x \<Longrightarrow> TreasuryInput_from_str d (TreasuryInput_fmt d x) = Inr x"
  by (simp add: TreasuryInput_from_str_def TreasuryInput_fmt_def TreasuryInput_valid_def
      MilestoneId_from_str_fmt)

section \<open>Inputs\<close>

datatype Input = Input_Utxo UtxoInput | Input_Treasury TreasuryInput

fun Input_kind :: "Input \<Rightarrow> u8" where
  "Input_kind (Input_Utxo _) = UtxoInput_KIND"
| "Input_kind (Input_Treasury _) = TreasuryInput_KIND"

fun Input_packed_len :: "Input \<Rightarrow> nat" where
  "Input_packed_len (Input_Utxo input) = num_packed_len UtxoInput_KIND + UtxoInput_packed_len input"
| "Input_packed_len (Input_Treasury input) =
     num_packed_len TreasuryInput_KIND + TreasuryInput_packed_len input"

fun Input_pack :: "Input \<Rightarrow> byte list" where
  "Input_pack (Input_Utxo input) = num_pack UtxoInput_KIND @ UtxoInput_pack input"
| "Input_pack (Input_Treasury input) = num_pack TreasuryInput_KIND @ TreasuryInput_pack input"

definition Input_unpack :: "bool \<Rightarrow> (Error, Input) reader" where
  "Input_unpack check =
     bindP (num_read check) (\<lambda>k.
       if k = UtxoInput_KIND
       then bindP (UtxoInput_unpack check) (\<lambda>x. returnP (Input_Utxo x))
       else if k = TreasuryInput_KIND
       then bindP (TreasuryInput_unpack check) (\<lambda>x. returnP (Input_Treasury x))
       else failP (InvalidInputKind k))"

fun Input_valid :: "Input \<Rightarrow> bool" where
  "Input_valid (Input_Utxo x) = UtxoInput_valid x"
| "Input_valid (Input_Treasury x) = TreasuryInput_valid x"

lemmas Input_KIND_defs = UtxoInput_KIND_def TreasuryInput_KIND_def

interpretation Input: canonical_codec Input_packed_len Input_pack Input_unpack Input_valid
  by unfold_locales
    ((auto simp: Input_unpack_def Input_KIND_defs codec_run codec_len elim!: Input_valid.elims)[2],
      auto simp: Input_unpack_def bindP_Inr_iff split: if_splits dest!: codec_dest)

end
