(* ===== verification/Outputs.thy ===== *)
theory Outputs
  imports Address_Model
begin

text \<open>
  Transaction outputs of bee-message: \<open>SignatureLockedSingleOutput\<close>
  (output/signature_locked_single.rs), \<open>SignatureLockedDustAllowanceOutput\<close> with the dust constants
  (output/signature_locked_dust_allowance.rs), \<open>TreasuryOutput\<close> (output/treasury.rs) and the enum
  \<open>Output\<close> (output/mod.rs).
\<close>

section \<open>Signature locked single outputs\<close>

definition SIGNATURE_LOCKED_SINGLE_OUTPUT_AMOUNT :: "u64 \<Rightarrow> bool" where
  "SIGNATURE_LOCKED_SINGLE_OUTPUT_AMOUNT amount \<longleftrightarrow> 1 \<le> amount \<and> amount \<le> IOTA_SUPPLY"

record SignatureLockedSingleOutput =
  SignatureLockedSingleOutput_address :: Address
  SignatureLockedSingleOutput_amount :: u64

definition SignatureLockedSingleOutput_KIND :: u8 where
  "SignatureLockedSingleOutput_KIND = 0"

definition SignatureLockedSingleOutput_new ::
  "Address \<Rightarrow> u64 \<Rightarrow> Error + SignatureLockedSingleOutput" where
  "SignatureLockedSingleOutput_new address amount =
     bindR (requireR (SIGNATURE_LOCKED_SINGLE_OUTPUT_AMOUNT amount) (InvalidAmount amount)) (\<lambda>_.
     Inr \<lparr>SignatureLockedSingleOutput_address = address,
       SignatureLockedSingleOutput_amount = amount\<rparr>)"

definition SignatureLockedSingleOutput_packed_len :: "SignatureLockedSingleOutput \<Rightarrow> nat" where
  "SignatureLockedSingleOutput_packed_len x =
     Address_packed_len (SignatureLockedSingleOutput_address x) +
     num_packed_len (SignatureLockedSingleOutput_amount x)"

definition SignatureLockedSingleOutput_pack :: "SignatureLockedSingleOutput \<Rightarrow> byte list" where
  "SignatureLockedSingleOutput_pack x =
     Address_pack (SignatureLockedSingleOutput_address x) @
     num_pack (SignatureLockedSingleOutput_amount x)"

definition SignatureLockedSingleOutput_unpack ::
  "bool \<Rightarrow> (Error, SignatureLockedSingleOutput) reader" where
  "SignatureLockedSingleOutput_unpack check =
     bindP (Address_unpack check) (\<lambda>address.
     bindP (num_read check) (\<lambda>amount.
     liftP (SignatureLockedSingleOutput_new address amount)))"

definition SignatureLockedSingleOutput_valid :: "SignatureLockedSingleOutput \<Rightarrow> bool" where
  "SignatureLockedSingleOutput_valid x \<longleftrightarrow>
     Address_valid (SignatureLockedSingleOutput_address x) \<and>
     SIGNATURE_LOCKED_SINGLE_OUTPUT_AMOUNT (SignatureLockedSingleOutput_amount x)"

lemma SignatureLockedSingleOutput_new_Inr_iff:
  "SignatureLockedSingleOutput_new a n = Inr x \<longleftrightarrow>
     SIGNATURE_LOCKED_SINGLE_OUTPUT_AMOUNT n \<and>
     x = \<lparr>SignatureLockedSingleOutput_address = a, SignatureLockedSingleOutput_amount = n\<rparr>"
  by (auto simp: SignatureLockedSingleOutput_new_def bindR_Inr_iff)

interpretation SignatureLockedSingleOutput: canonical_codec SignatureLockedSingleOutput_packed_len
    SignatureLockedSingleOutput_pack SignatureLockedSingleOutput_unpack
    SignatureLockedSingleOutput_valid
  by (rule via_canonical [OF seq_canonical [OF Address.canonical_codec_axioms
        ru64.canonical_codec_axioms], where
        get = "\<lambda>x. (SignatureLockedSingleOutput_address x, SignatureLockedSingleOutput_amount x)"
        and make = "\<lambda>(a, n). SignatureLockedSingleOutput_new a n"])
    (auto simp: SignatureLockedSingleOutput_packed_len_def SignatureLockedSingleOutput_pack_def
      SignatureLockedSingleOutput_unpack_def SignatureLockedSingleOutput_valid_def
      SignatureLockedSingleOutput_new_Inr_iff)

section \<open>Dust allowance outputs\<close>

definition DUST_THRESHOLD :: u64 where
  "DUST_THRESHOLD = 1000000"

definition DUST_ALLOWANCE_DIVISOR :: u64 where
  "DUST_ALLOWANCE_DIVISOR = 100000"

definition DUST_OUTPUTS_MAX :: u64 where
  "DUST_OUTPUTS_MAX = 100"

definition SIGNATURE_LOCKED_DUST_ALLOWANCE_OUTPUT_AMOUNT :: "u64 \<Rightarrow> bool" where
  "SIGNATURE_LOCKED_DUST_ALLOWANCE_OUTPUT_AMOUNT amount \<longleftrightarrow>
     DUST_THRESHOLD \<le> amount \<and> amount \<le> IOTA_SUPPLY"

definition dust_outputs_max :: "u64 \<Rightarrow> u64" where
  "dust_outputs_max dust_allowance_sum =
     min DUST_OUTPUTS_MAX (dust_allowance_sum div DUST_ALLOWANCE_DIVISOR)"

record SignatureLockedDustAllowanceOutput =
  SignatureLockedDustAllowanceOutput_address :: Address
  SignatureLockedDustAllowanceOutput_amount :: u64

definition SignatureLockedDustAllowanceOutput_KIND :: u8 where
  "SignatureLockedDustAllowanceOutput_KIND = 1"

definition SignatureLockedDustAllowanceOutput_new ::
  "Address \<Rightarrow> u64 \<Rightarrow> Error + SignatureLockedDustAllowanceOutput" where
  "SignatureLockedDustAllowanceOutput_new address amount =
     bindR (requireR (SIGNATURE_LOCKED_DUST_ALLOWANCE_OUTPUT_AMOUNT amount)
       (InvalidDustAllowanceAmount amount)) (\<lambda>_.
     Inr \<lparr>SignatureLockedDustAllowanceOutput_address = address,
       SignatureLockedDustAllowanceOutput_amount = amount\<rparr>)"

definition SignatureLockedDustAllowanceOutput_packed_len ::
  "SignatureLockedDustAllowanceOutput \<Rightarrow> nat" where
  "SignatureLockedDustAllowanceOutput_packed_len x =
     Address_packed_len (SignatureLockedDustAllowanceOutput_address x) +
     num_packed_len (SignatureLockedDustAllowanceOutput_amount x)"

definition SignatureLockedDustAllowanceOutput_pack ::
  "SignatureLockedDustAllowanceOutput \<Rightarrow> byte list" where
  "SignatureLockedDustAllowanceOutput_pack x =
     Address_pack (SignatureLockedDustAllowanceOutput_address x) @
     num_pack (SignatureLockedDustAllowanceOutput_amount x)"

definition SignatureLockedDustAllowanceOutput_unpack ::
  "bool \<Rightarrow> (Error, SignatureLockedDustAllowanceOutput) reader" where
  "SignatureLockedDustAllowanceOutput_unpack check =
     bindP (Address_unpack check) (\<lambda>address.
     bindP (num_read check) (\<lambda>amount.
     liftP (SignatureLockedDustAllowanceOutput_new address amount)))"

definition SignatureLockedDustAllowanceOutput_valid ::
  "SignatureLockedDustAllowanceOutput \<Rightarrow> bool" where
  "SignatureLockedDustAllowanceOutput_valid x \<longleftrightarrow>
     Address_valid (SignatureLockedDustAllowanceOutput_address x) \<and>
     SIGNATURE_LOCKED_DUST_ALLOWANCE_OUTPUT_AMOUNT (SignatureLockedDustAllowanceOutput_amount x)"

lemma SignatureLockedDustAllowanceOutput_new_Inr_iff:
  "SignatureLockedDustAllowanceOutput_new a n = Inr x \<longleftrightarrow>
     SIGNATURE_LOCKED_DUST_ALLOWANCE_OUTPUT_AMOUNT n \<and>
     x = \<lparr>SignatureLockedDustAllowanceOutput_address = a,
       SignatureLockedDustAllowanceOutput_amount = n\<rparr>"
  by (auto simp: SignatureLockedDustAllowanceOutput_new_def bindR_Inr_iff)

interpretation SignatureLockedDustAllowanceOutput: canonical_codec
    SignatureLockedDustAllowanceOutput_packed_len SignatureLockedDustAllowanceOutput_pack
    SignatureLockedDustAllowanceOutput_unpack SignatureLockedDustAllowanceOutput_valid
  by (rule via_canonical [OF seq_canonical [OF Address.canonical_codec_axioms
        ru64.canonical_codec_axioms], where
        get = "\<lambda>x. (SignatureLockedDustAllowanceOutput_address x,
          SignatureLockedDustAllowanceOutput_amount x)"
        and make = "\<lambda>(a, n). SignatureLockedDustAllowanceOutput_new a n"])
    (auto simp: SignatureLockedDustAllowanceOutput_packed_len_def
      SignatureLockedDustAllowanceOutput_pack_def SignatureLockedDustAllowanceOutput_unpack_def
      SignatureLockedDustAllowanceOutput_valid_def SignatureLockedDustAllowanceOutput_new_Inr_iff)

lemma dust_outputs_max_le: "dust_outputs_max s \<le> DUST_OUTPUTS_MAX"
  by (simp add: dust_outputs_max_def)

lemma dust_outputs_max_unat: "unat (dust_outputs_max s) = min 100 (unat s div 100000)"
  by (auto simp: dust_outputs_max_def DUST_OUTPUTS_MAX_def DUST_ALLOWANCE_DIVISOR_def min_def
      word_le_nat_alt unat_div)

section \<open>Treasury outputs\<close>

definition TREASURY_OUTPUT_AMOUNT :: "u64 \<Rightarrow> bool" where
  "TREASURY_OUTPUT_AMOUNT amount \<longleftrightarrow> 0 \<le> amount \<and> amount \<le> IOTA_SUPPLY"

record TreasuryOutput =
  TreasuryOutput_amount :: u64

definition TreasuryOutput_KIND :: u8 where
  "TreasuryOutput_KIND = 2"

definition TreasuryOutput_new :: "u64 \<Rightarrow> Error + TreasuryOutput" where
  "TreasuryOutput_new amount =
     bindR (requireR (TREASURY_OUTPUT_AMOUNT amount) (InvalidTreasuryAmount amount)) (\<lambda>_.
     Inr \<lparr>TreasuryOutput_amount = amount\<rparr>)"

definition TreasuryOutput_packed_len :: "TreasuryOutput \<Rightarrow> nat" where
  "TreasuryOutput_packed_len x = num_packed_len (TreasuryOutput_amount x)"

definition TreasuryOutput_pack :: "TreasuryOutput \<Rightarrow> byte list" where
  "TreasuryOutput_pack x = num_pack (TreasuryOutput_amount x)"

definition TreasuryOutput_unpack :: "bool \<Rightarrow> (Error, TreasuryOutput) reader" where
  "TreasuryOutput_unpack check = bindP (num_read check) (\<lambda>amount. liftP (TreasuryOutput_new amount))"

definition TreasuryOutput_valid :: "TreasuryOutput \<Rightarrow> bool" where
  "TreasuryOutput_valid x \<longleftrightarrow> TREASURY_OUTPUT_AMOUNT (TreasuryOutput_amount x)"

lemma TreasuryOutput_new_Inr_iff:
  "TreasuryOutput_new n = Inr x \<longleftrightarrow> TREASURY_OUTPUT_AMOUNT n \<and> x = \<lparr>TreasuryOutput_amount = n\<rparr>"
  by (auto simp: TreasuryOutput_new_def bindR_Inr_iff)

interpretation TreasuryOutput: canonical_codec TreasuryOutput_packed_len TreasuryOutput_pack
    TreasuryOutput_unpack TreasuryOutput_valid
  by (rule via_canonical [OF ru64.canonical_codec_axioms, where get = TreasuryOutput_amount and
        make = TreasuryOutput_new])
    (auto simp: TreasuryOutput_packed_len_def TreasuryOutput_pack_def TreasuryOutput_unpack_def
      TreasuryOutput_valid_def TreasuryOutput_new_Inr_iff)

section \<open>Outputs\<close>

datatype Output =
    Output_SignatureLockedSingle SignatureLockedSingleOutput
  | Output_SignatureLockedDustAllowance SignatureLockedDustAllowanceOutput
  | Output_Treasury TreasuryOutput

fun Output_kind :: "Output \<Rightarrow> u8" where
  "Output_kind (Output_SignatureLockedSingle _) = SignatureLockedSingleOutput_KIND"
| "Output_kind (Output_SignatureLockedDustAllowance _) = SignatureLockedDustAllowanceOutput_KIND"
| "Output_kind (Output_Treasury _) = TreasuryOutput_KIND"

fun Output_packed_len :: "Output \<Rightarrow> nat" where
  "Output_packed_len (Output_SignatureLockedSingle output) =
     num_packed_len SignatureLockedSingleOutput_KIND + SignatureLockedSingleOutput_packed_len output"
| "Output_packed_len (Output_SignatureLockedDustAllowance output) =
     num_packed_len SignatureLockedDustAllowanceOutput_KIND +
     SignatureLockedDustAllowanceOutput_packed_len output"
| "Output_packed_len (Output_Treasury output) =
     num_packed_len TreasuryOutput_KIND + TreasuryOutput_packed_len output"

fun Output_pack :: "Output \<Rightarrow> byte list" where
  "Output_pack (Output_SignatureLockedSingle output) =
     num_pack SignatureLockedSingleOutput_KIND @ SignatureLockedSingleOutput_pack output"
| "Output_pack (Output_SignatureLockedDustAllowance output) =
     num_pack SignatureLockedDustAllowanceOutput_KIND @
     SignatureLockedDustAllowanceOutput_pack output"
| "Output_pack (Output_Treasury output) = num_pack TreasuryOutput_KIND @ TreasuryOutput_pack output"

definition Output_unpack :: "bool \<Rightarrow> (Error, Output) reader" where
  "Output_unpack check =
     bindP (num_read check) (\<lambda>k.
       if k = SignatureLockedSingleOutput_KIND
       then bindP (SignatureLockedSingleOutput_unpack check)
         (\<lambda>x. returnP (Output_SignatureLockedSingle x))
       else if k = SignatureLockedDustAllowanceOutput_KIND
       then bindP (SignatureLockedDustAllowanceOutput_unpack check)
         (\<lambda>x. returnP (Output_SignatureLockedDustAllowance x))
       else if k = TreasuryOutput_KIND
       then bindP (TreasuryOutput_unpack check) (\<lambda>x. returnP (Output_Treasury x))
       else failP (InvalidOutputKind k))"

fun Output_valid :: "Output \<Rightarrow> bool" where
  "Output_valid (Output_SignatureLockedSingle x) = SignatureLockedSingleOutput_valid x"
| "Output_valid (Output_SignatureLockedDustAllowance x) = SignatureLockedDustAllowanceOutput_valid x"
| "Output_valid (Output_Treasury x) = TreasuryOutput_valid x"

lemmas Output_KIND_defs = SignatureLockedSingleOutput_KIND_def
  SignatureLockedDustAllowanceOutput_KIND_def TreasuryOutput_KIND_def

interpretation Output: canonical_codec Output_packed_len Output_pack Output_unpack Output_valid
  by unfold_locales
    ((auto simp: Output_unpack_def Output_KIND_defs codec_run codec_len elim!: Output_valid.elims)[2],
      auto simp: Output_unpack_def bindP_Inr_iff split: if_splits dest!: codec_dest)

end
