(* ===== verification/Treasury.thy ===== *)
theory Treasury
  imports Inputs Outputs
begin

text \<open>
  The treasury transaction payload of bee-message (payload/treasury/mod.rs): it moves funds from one
  treasury output to the next.
\<close>

record TreasuryTransactionPayload =
  TreasuryTransactionPayload_input :: Input
  TreasuryTransactionPayload_output :: Output

definition TreasuryTransactionPayload_KIND :: u32 where
  "TreasuryTransactionPayload_KIND = 4"

definition is_treasury_input :: "Input \<Rightarrow> bool" where
  "is_treasury_input x = (case x of Input_Treasury _ \<Rightarrow> True | _ \<Rightarrow> False)"

definition is_treasury_output :: "Output \<Rightarrow> bool" where
  "is_treasury_output x = (case x of Output_Treasury _ \<Rightarrow> True | _ \<Rightarrow> False)"

definition TreasuryTransactionPayload_new ::
  "Input \<Rightarrow> Output \<Rightarrow> Error + TreasuryTransactionPayload" where
  "TreasuryTransactionPayload_new input output =
     bindR (requireR (is_treasury_input input) (InvalidInputKind (Input_kind input))) (\<lambda>_.
     bindR (requireR (is_treasury_output output) (InvalidOutputKind (Output_kind output))) (\<lambda>_.
     Inr \<lparr>TreasuryTransactionPayload_input = input, TreasuryTransactionPayload_output = output\<rparr>))"

definition TreasuryTransactionPayload_packed_len :: "TreasuryTransactionPayload \<Rightarrow> nat" where
  "TreasuryTransactionPayload_packed_len x =
     Input_packed_len (TreasuryTransactionPayload_input x) +
     Output_packed_len (TreasuryTransactionPayload_output x)"

definition TreasuryTransactionPayload_pack :: "TreasuryTransactionPayload \<Rightarrow> byte list" where
  "TreasuryTransactionPayload_pack x =
     Input_pack (TreasuryTransactionPayload_input x) @ Output_pack (TreasuryTransactionPayload_output x)"

definition TreasuryTransactionPayload_unpack :: "bool \<Rightarrow> (Error, TreasuryTransactionPayload) reader"
where
  "TreasuryTransactionPayload_unpack check =
     bindP (Input_unpack check) (\<lambda>input.
     bindP (Output_unpack check) (\<lambda>output.
     liftP (TreasuryTransactionPayload_new input output)))"

definition TreasuryTransactionPayload_valid :: "TreasuryTransactionPayload \<Rightarrow> bool" where
  "TreasuryTransactionPayload_valid x \<longleftrightarrow>
     Input_valid (TreasuryTransactionPayload_input x) \<and>
     Output_valid (TreasuryTransactionPayload_output x) \<and>
     is_treasury_input (TreasuryTransactionPayload_input x) \<and>
     is_treasury_output (TreasuryTransactionPayload_output x)"

lemma TreasuryTransactionPayload_new_Inr_iff:
  "TreasuryTransactionPayload_new i out = Inr x \<longleftrightarrow>
     is_treasury_input i \<and> is_treasury_output out \<and>
     x = \<lparr>TreasuryTransactionPayload_input = i, TreasuryTransactionPayload_output = out\<rparr>"
  by (auto simp: TreasuryTransactionPayload_new_def bindR_Inr_iff)

interpretation TreasuryTransactionPayload: canonical_codec TreasuryTransactionPayload_packed_len
    TreasuryTransactionPayload_pack TreasuryTransactionPayload_unpack TreasuryTransactionPayload_valid
  by (rule via_canonical [OF seq_canonical [OF Input.canonical_codec_axioms
        Output.canonical_codec_axioms], where
        get = "\<lambda>x. (TreasuryTransactionPayload_input x, TreasuryTransactionPayload_output x)" and
        make = "\<lambda>(i, out). TreasuryTransactionPayload_new i out"])
    (auto simp: TreasuryTransactionPayload_packed_len_def TreasuryTransactionPayload_pack_def
      TreasuryTransactionPayload_unpack_def TreasuryTransactionPayload_valid_def
      TreasuryTransactionPayload_new_Inr_iff)

end
