(* ===== verification/Trits.thy ===== *)
theory Trits
  imports Bee_Prelude
begin

text \<open>
  Ternary data of bee-ternary: balanced and unbalanced trits (trit/balanced.rs, trit/unbalanced.rs),
  the traits \<open>RawEncoding\<close> and \<open>RawEncodingBuf\<close> (raw.rs) as a record of the operations an encoding
  provides, and the generic slice \<open>Trits\<close> and buffer \<open>TritBuf\<close> (lib.rs) on top of them.

  The value \<open>None\<close> of an operation is the panic of its assertion. The contract of an encoding is the
  locale \<open>raw_encoding\<close>; the list of trits that \<open>iter\<close> yields is the abstraction of a slice.
\<close>

type_synonym i8 = "8 word"

section \<open>Trits\<close>

datatype Utrit = Utrit_Zero | Utrit_One | Utrit_Two

datatype Btrit = Btrit_NegOne | Btrit_Zero | Btrit_PlusOne

fun Utrit_shift :: "Utrit \<Rightarrow> Btrit" where
  "Utrit_shift Utrit_Zero = Btrit_NegOne"
| "Utrit_shift Utrit_One = Btrit_Zero"
| "Utrit_shift Utrit_Two = Btrit_PlusOne"

fun Btrit_shift :: "Btrit \<Rightarrow> Utrit" where
  "Btrit_shift Btrit_NegOne = Utrit_Zero"
| "Btrit_shift Btrit_Zero = Utrit_One"
| "Btrit_shift Btrit_PlusOne = Utrit_Two"

fun Btrit_into_i8 :: "Btrit \<Rightarrow> int" where
  "Btrit_into_i8 Btrit_NegOne = - 1"
| "Btrit_into_i8 Btrit_Zero = 0"
| "Btrit_into_i8 Btrit_PlusOne = 1"

fun Btrit_neg :: "Btrit \<Rightarrow> Btrit" where
  "Btrit_neg Btrit_NegOne = Btrit_PlusOne"
| "Btrit_neg Btrit_Zero = Btrit_Zero"
| "Btrit_neg Btrit_PlusOne = Btrit_NegOne"

fun Btrit_checked_increment :: "Btrit \<Rightarrow> Btrit option" where
  "Btrit_checked_increment Btrit_NegOne = Some Btrit_Zero"
| "Btrit_checked_increment Btrit_Zero = Some Btrit_PlusOne"
| "Btrit_checked_increment Btrit_PlusOne = None"

definition Btrit_try_from :: "int \<Rightarrow> Btrit option" where
  "Btrit_try_from x =
     (if x = - 1 then Some Btrit_NegOne
      else if x = 0 then Some Btrit_Zero
      else if x = 1 then Some Btrit_PlusOne
      else None)"

fun Utrit_checked_increment :: "Utrit \<Rightarrow> Utrit option" where
  "Utrit_checked_increment Utrit_Zero = Some Utrit_One"
| "Utrit_checked_increment Utrit_One = Some Utrit_Two"
| "Utrit_checked_increment Utrit_Two = None"

text \<open>\<open>Utrit::from_u8\<close> panics on anything but 0, 1 and 2.\<close>

definition Utrit_from_u8 :: "int \<Rightarrow> Utrit option" where
  "Utrit_from_u8 x =
     (if x = 0 then Some Utrit_Zero
      else if x = 1 then Some Utrit_One
      else if x = 2 then Some Utrit_Two
      else None)"

fun Utrit_into_u8 :: "Utrit \<Rightarrow> int" where
  "Utrit_into_u8 Utrit_Zero = 0"
| "Utrit_into_u8 Utrit_One = 1"
| "Utrit_into_u8 Utrit_Two = 2"

lemma shift_shift [simp]: "Utrit_shift (Btrit_shift t) = t" "Btrit_shift (Utrit_shift u) = u"
  by (cases t; simp) (cases u; simp)

lemma Btrit_neg_neg [simp]: "Btrit_neg (Btrit_neg t) = t"
  by (cases t) simp_all

lemma Btrit_into_i8_neg [simp]: "Btrit_into_i8 (Btrit_neg t) = - Btrit_into_i8 t"
  by (cases t) simp_all

lemma Btrit_try_from_into [simp]: "Btrit_try_from (Btrit_into_i8 t) = Some t"
  by (cases t) (simp_all add: Btrit_try_from_def)

lemma Btrit_try_from_Some_iff: "Btrit_try_from x = Some t \<longleftrightarrow> Btrit_into_i8 t = x"
  by (cases t) (auto simp: Btrit_try_from_def)

lemma Utrit_from_into_u8 [simp]: "Utrit_from_u8 (Utrit_into_u8 u) = Some u"
  by (cases u) (simp_all add: Utrit_from_u8_def)

lemma Utrit_into_u8_range: "0 \<le> Utrit_into_u8 u \<and> Utrit_into_u8 u < 3"
  by (cases u) simp_all

text \<open>The order that the sources derive for balanced trits.\<close>

instantiation Btrit :: linorder
begin

definition less_eq_Btrit :: "Btrit \<Rightarrow> Btrit \<Rightarrow> bool" where
  "s \<le> t \<longleftrightarrow> Btrit_into_i8 s \<le> Btrit_into_i8 t"

definition less_Btrit :: "Btrit \<Rightarrow> Btrit \<Rightarrow> bool" where
  "s < t \<longleftrightarrow> Btrit_into_i8 s < Btrit_into_i8 t"

instance
proof
  fix s t :: Btrit
  assume "s \<le> t" and "t \<le> s"
  then show "s = t" by (cases s; cases t) (simp_all add: less_eq_Btrit_def)
qed (auto simp: less_eq_Btrit_def less_Btrit_def)

end

section \<open>The encoding traits\<close>

record ('s, 'b, 't) encoding =
  enc_len :: "'s \<Rightarrow> nat"
  enc_as_i8_slice :: "'s \<Rightarrow> i8 list option"
  enc_get_unchecked :: "'s \<Rightarrow> nat \<Rightarrow> 't"
  enc_set_unchecked :: "'s \<Rightarrow> nat \<Rightarrow> 't \<Rightarrow> 's"
  enc_slice_unchecked :: "'s \<Rightarrow> nat \<Rightarrow> nat \<Rightarrow> 's"
  enc_is_valid :: "i8 \<Rightarrow> bool"
  enc_from_raw_unchecked :: "i8 list \<Rightarrow> nat \<Rightarrow> 's option"
  buf_new :: 'b
  buf_clear :: "'b \<Rightarrow> 'b"
  buf_push :: "'b \<Rightarrow> 't \<Rightarrow> 'b"
  buf_pop :: "'b \<Rightarrow> 't option \<times> 'b"
  buf_as_slice :: "'b \<Rightarrow> 's"

section \<open>Trit slices\<close>

datatype trits_error = InvalidRepr

definition Trits_len :: "('s, 'b, 't) encoding \<Rightarrow> 's \<Rightarrow> nat" where
  "Trits_len E s = enc_len E s"

definition Trits_is_empty :: "('s, 'b, 't) encoding \<Rightarrow> 's \<Rightarrow> bool" where
  "Trits_is_empty E s \<longleftrightarrow> Trits_len E s = 0"

text \<open>\<open>None\<close>: the assertion on \<open>num_trits\<close> fails.\<close>

definition Trits_try_from_raw ::
  "('s, 'b, 't) encoding \<Rightarrow> i8 list \<Rightarrow> nat \<Rightarrow> (trits_error + 's) option" where
  "Trits_try_from_raw E raw num_trits =
     (if list_all (enc_is_valid E) raw
      then map_option Inr (enc_from_raw_unchecked E raw num_trits)
      else Some (Inl InvalidRepr))"

definition Trits_get :: "('s, 'b, 't) encoding \<Rightarrow> 's \<Rightarrow> nat \<Rightarrow> 't option" where
  "Trits_get E s index = (if index < enc_len E s then Some (enc_get_unchecked E s index) else None)"

definition Trits_set :: "('s, 'b, 't) encoding \<Rightarrow> 's \<Rightarrow> nat \<Rightarrow> 't \<Rightarrow> 's option" where
  "Trits_set E s index trit =
     (if index < enc_len E s then Some (enc_set_unchecked E s index trit) else None)"

definition Trits_iter :: "('s, 'b, 't) encoding \<Rightarrow> 's \<Rightarrow> 't list" where
  "Trits_iter E s = map (enc_get_unchecked E s) [0..<enc_len E s]"

definition Trits_subslice :: "('s, 'b, 't) encoding \<Rightarrow> 's \<Rightarrow> nat \<Rightarrow> nat \<Rightarrow> 's option" where
  "Trits_subslice E s start stop =
     (if stop \<ge> start \<and> stop \<le> Trits_len E s then Some (enc_slice_unchecked E s start stop) else None)"

text \<open>The loop \<open>for (i, trit) in trits.enumerate() { self.set_unchecked(i, trit) }\<close>.\<close>

fun set_all :: "('s, 'b, 't) encoding \<Rightarrow> 's \<Rightarrow> nat \<Rightarrow> 't list \<Rightarrow> 's" where
  "set_all E s i [] = s"
| "set_all E s i (t # ts) = set_all E (enc_set_unchecked E s i t) (Suc i) ts"

definition Trits_copy_from ::
  "('s, 'b, 't) encoding \<Rightarrow> ('s2, 'b2, 't) encoding \<Rightarrow> 's \<Rightarrow> 's2 \<Rightarrow> 's option" where
  "Trits_copy_from E F s trits =
     (if Trits_len E s = Trits_len F trits then Some (set_all E s 0 (Trits_iter F trits)) else None)"

definition Trits_fill :: "('s, 'b, 't) encoding \<Rightarrow> 's \<Rightarrow> 't \<Rightarrow> 's" where
  "Trits_fill E s trit = set_all E s 0 (map (\<lambda>_. trit) [0..<Trits_len E s])"

fun negate_from :: "('s, 'b, Btrit) encoding \<Rightarrow> 's \<Rightarrow> nat \<Rightarrow> nat \<Rightarrow> 's" where
  "negate_from E s i 0 = s"
| "negate_from E s i (Suc n) =
     negate_from E (enc_set_unchecked E s i (Btrit_neg (enc_get_unchecked E s i))) (Suc i) n"

definition Trits_negate :: "('s, 'b, Btrit) encoding \<Rightarrow> 's \<Rightarrow> 's" where
  "Trits_negate E s = negate_from E s 0 (Trits_len E s)"

definition Trits_chunks :: "('s, 'b, 't) encoding \<Rightarrow> 's \<Rightarrow> nat \<Rightarrow> 's list option" where
  "Trits_chunks E s chunk_len =
     (if chunk_len > 0
      then those (map (\<lambda>i. Trits_subslice E s i (min (i + chunk_len) (Trits_len E s)))
        (filter (\<lambda>i. i mod chunk_len = 0) [0..<Trits_len E s]))
      else None)"

definition Trits_eq ::
  "('s, 'b, 't) encoding \<Rightarrow> ('s2, 'b2, 't) encoding \<Rightarrow> 's \<Rightarrow> 's2 \<Rightarrow> bool" where
  "Trits_eq E F s s' \<longleftrightarrow>
     Trits_len E s = Trits_len F s' \<and>
     list_all (\<lambda>(a, b). a = b) (zip (Trits_iter E s) (Trits_iter F s'))"

datatype Ordering = Less | Equal | Greater

definition trit_cmp :: "'t::linorder \<Rightarrow> 't \<Rightarrow> Ordering" where
  "trit_cmp a b = (if a < b then Less else if a = b then Equal else Greater)"

fun cmp_loop :: "('t::linorder \<times> 't) list \<Rightarrow> Ordering" where
  "cmp_loop [] = Equal"
| "cmp_loop ((a, b) # ps) = (if trit_cmp a b = Equal then cmp_loop ps else trit_cmp a b)"

definition Trits_partial_cmp ::
  "('s, 'b, 't::linorder) encoding \<Rightarrow> ('s2, 'b2, 't) encoding \<Rightarrow> 's \<Rightarrow> 's2 \<Rightarrow> Ordering option" where
  "Trits_partial_cmp E F s s' =
     (if Trits_len E s \<noteq> Trits_len F s' then None
      else Some (cmp_loop (zip (Trits_iter E s) (Trits_iter F s'))))"

section \<open>Trit buffers\<close>

definition TritBuf_from_iter :: "('s, 'b, 't) encoding \<Rightarrow> 't list \<Rightarrow> 'b" where
  "TritBuf_from_iter E ts = foldl (buf_push E) (buf_new E) ts"

definition TritBuf_filled :: "('s, 'b, 't) encoding \<Rightarrow> nat \<Rightarrow> 't \<Rightarrow> 'b" where
  "TritBuf_filled E len trit = foldl (\<lambda>b _. buf_push E b trit) (buf_new E) [0..<len]"

definition TritBuf_append ::
  "('s, 'b, 't) encoding \<Rightarrow> ('s2, 'b2, 't) encoding \<Rightarrow> 'b \<Rightarrow> 's2 \<Rightarrow> 'b" where
  "TritBuf_append E F b trits = foldl (buf_push E) b (Trits_iter F trits)"

definition TritBuf_from_i8s :: "('s, 'b, Btrit) encoding \<Rightarrow> int list \<Rightarrow> 'b option" where
  "TritBuf_from_i8s E xs = map_option (TritBuf_from_iter E) (those (map Btrit_try_from xs))"

definition Trits_to_buf :: "('s, 'b, 't) encoding \<Rightarrow> 's \<Rightarrow> 'b" where
  "Trits_to_buf E s = TritBuf_from_iter E (Trits_iter E s)"

definition Trits_encode :: "('s, 'b, 't) encoding \<Rightarrow> ('s2, 'b2, 't) encoding \<Rightarrow> 's \<Rightarrow> 'b2" where
  "Trits_encode E F s = TritBuf_from_iter F (Trits_iter E s)"

abbreviation buf_trits :: "('s, 'b, 't) encoding \<Rightarrow> 'b \<Rightarrow> 't list" where
  "buf_trits E b \<equiv> Trits_iter E (buf_as_slice E b)"

lemma length_Trits_iter [simp]: "length (Trits_iter E s) = enc_len E s"
  by (simp add: Trits_iter_def)

lemma nth_Trits_iter [simp]: "i < enc_len E s \<Longrightarrow> Trits_iter E s ! i = enc_get_unchecked E s i"
  by (simp add: Trits_iter_def)

lemma Trits_eq_iff: "Trits_eq E F s s' \<longleftrightarrow> Trits_iter E s = Trits_iter F s'"
proof
  assume "Trits_eq E F s s'"
  then show "Trits_iter E s = Trits_iter F s'"
    by (intro nth_equalityI) (auto simp: Trits_eq_def Trits_len_def list_all_length)
next
  assume *: "Trits_iter E s = Trits_iter F s'"
  from arg_cong [OF this, of length] have "enc_len E s = enc_len F s'" by simp
  with * show "Trits_eq E F s s'"
    by (auto simp: Trits_eq_def Trits_len_def list_all_length)
qed

section \<open>The contract of an encoding\<close>

locale raw_encoding =
  fixes E :: "('s, 'b, 't) encoding"
    and slice_inv :: "'s \<Rightarrow> bool"
    and buf_inv :: "'b \<Rightarrow> bool"
  assumes set_inv: "slice_inv s \<Longrightarrow> i < enc_len E s \<Longrightarrow> slice_inv (enc_set_unchecked E s i t)"
    and set_len: "slice_inv s \<Longrightarrow> i < enc_len E s \<Longrightarrow>
      enc_len E (enc_set_unchecked E s i t) = enc_len E s"
    and get_set: "slice_inv s \<Longrightarrow> i < enc_len E s \<Longrightarrow> j < enc_len E s \<Longrightarrow>
      enc_get_unchecked E (enc_set_unchecked E s i t) j = (if i = j then t else enc_get_unchecked E s j)"
    and slice_inv_slice: "slice_inv s \<Longrightarrow> p \<le> q \<Longrightarrow> q \<le> enc_len E s \<Longrightarrow>
      slice_inv (enc_slice_unchecked E s p q)"
    and slice_len: "slice_inv s \<Longrightarrow> p \<le> q \<Longrightarrow> q \<le> enc_len E s \<Longrightarrow>
      enc_len E (enc_slice_unchecked E s p q) = q - p"
    and slice_get: "slice_inv s \<Longrightarrow> p \<le> q \<Longrightarrow> q \<le> enc_len E s \<Longrightarrow> i < q - p \<Longrightarrow>
      enc_get_unchecked E (enc_slice_unchecked E s p q) i = enc_get_unchecked E s (p + i)"
    and as_slice_inv: "buf_inv b \<Longrightarrow> slice_inv (buf_as_slice E b)"
    and new_inv: "buf_inv (buf_new E)"
    and new_trits: "buf_trits E (buf_new E) = []"
    and clear_new: "buf_clear E b = buf_new E"
    and push_inv: "buf_inv b \<Longrightarrow> buf_inv (buf_push E b t)"
    and push_trits: "buf_inv b \<Longrightarrow> buf_trits E (buf_push E b t) = buf_trits E b @ [t]"
    and pop_inv: "buf_inv b \<Longrightarrow> buf_inv (snd (buf_pop E b))"
    and pop_fst: "buf_inv b \<Longrightarrow>
      fst (buf_pop E b) = (if buf_trits E b = [] then None else Some (last (buf_trits E b)))"
    and pop_trits: "buf_inv b \<Longrightarrow> buf_trits E (snd (buf_pop E b)) = butlast (buf_trits E b)"
begin

lemma set_trits:
  assumes "slice_inv s" and "i < enc_len E s"
  shows "Trits_iter E (enc_set_unchecked E s i t) = (Trits_iter E s)[i := t]"
  by (rule nth_equalityI) (use assms in \<open>auto simp: set_len get_set\<close>)

lemma slice_trits:
  assumes "slice_inv s" and "a \<le> b" and "b \<le> enc_len E s"
  shows "Trits_iter E (enc_slice_unchecked E s a b) = take (b - a) (drop a (Trits_iter E s))"
  by (rule nth_equalityI) (use assms in \<open>auto simp: slice_len slice_get\<close>)

lemma set_all_trits:
  assumes "slice_inv s" and "i + length ts \<le> enc_len E s"
  shows "slice_inv (set_all E s i ts) \<and>
    Trits_iter E (set_all E s i ts) = take i (Trits_iter E s) @ ts @ drop (i + length ts) (Trits_iter E s)"
  using assms
proof (induction ts arbitrary: s i)
  case Nil
  then show ?case by simp
next
  case (Cons t ts)
  let ?s = "enc_set_unchecked E s i t"
  have s: "slice_inv ?s" "Suc i + length ts \<le> enc_len E ?s"
    using Cons.prems by (simp_all add: set_inv set_len)
  have "take (Suc i) (Trits_iter E ?s) = take i (Trits_iter E s) @ [t]"
    using Cons.prems by (simp add: set_trits take_Suc_conv_app_nth)
  moreover have "drop (Suc i + length ts) (Trits_iter E ?s) = drop (Suc i + length ts) (Trits_iter E s)"
    using Cons.prems by (simp add: set_trits)
  ultimately show ?case
    using Cons.IH [OF s] by simp
qed

lemma copy_from_trits:
  assumes "slice_inv s" and "Trits_copy_from E F s x = Some s'"
  shows "slice_inv s' \<and> Trits_iter E s' = Trits_iter F x"
proof -
  from assms(2) have "enc_len E s = enc_len F x" and "s' = set_all E s 0 (Trits_iter F x)"
    by (auto simp: Trits_copy_from_def Trits_len_def split: if_splits)
  with set_all_trits [OF assms(1), of 0 "Trits_iter F x"] show ?thesis by simp
qed

lemma fill_trits:
  assumes "slice_inv s"
  shows "Trits_iter E (Trits_fill E s t) = replicate (enc_len E s) t"
  using set_all_trits [OF assms, of 0 "map (\<lambda>_. t) [0..<enc_len E s]"]
  by (simp add: Trits_fill_def Trits_len_def map_replicate_const)

lemma foldl_push:
  "buf_inv b \<Longrightarrow> buf_inv (foldl (buf_push E) b ts) \<and>
     buf_trits E (foldl (buf_push E) b ts) = buf_trits E b @ ts"
  by (induction ts arbitrary: b) (simp_all add: push_inv push_trits)

lemma from_iter_inv: "buf_inv (TritBuf_from_iter E ts)"
  and from_iter_trits: "buf_trits E (TritBuf_from_iter E ts) = ts"
  using foldl_push [OF new_inv, of ts] by (simp_all add: TritBuf_from_iter_def new_trits)

lemma to_buf_trits: "buf_trits E (Trits_to_buf E s) = Trits_iter E s"
  by (simp add: Trits_to_buf_def from_iter_trits)

lemma encode_trits: "buf_trits E (Trits_encode F E x) = Trits_iter F x"
  by (simp add: Trits_encode_def from_iter_trits)

lemma append_trits:
  "buf_inv b \<Longrightarrow> buf_trits E (TritBuf_append E F b x) = buf_trits E b @ Trits_iter F x"
  by (simp add: TritBuf_append_def foldl_push)

lemma filled_trits: "buf_trits E (TritBuf_filled E n t) = replicate n t"
proof -
  have "foldl (\<lambda>b _. buf_push E b t) z xs = foldl (buf_push E) z (replicate (length xs) t)"
    for z and xs :: "nat list"
    by (induction xs arbitrary: z) simp_all
  then have "TritBuf_filled E n t = TritBuf_from_iter E (replicate n t)"
    by (simp add: TritBuf_filled_def TritBuf_from_iter_def)
  then show ?thesis by (simp add: from_iter_trits)
qed

lemma pop_push:
  "buf_inv b \<Longrightarrow> fst (buf_pop E (buf_push E b t)) = Some t \<and>
     buf_trits E (snd (buf_pop E (buf_push E b t))) = buf_trits E b"
  by (simp add: pop_fst pop_trits push_inv push_trits)

lemma subslice_trits:
  assumes "slice_inv s"
  shows "Trits_subslice E s a b = None \<longleftrightarrow> \<not> (a \<le> b \<and> b \<le> length (Trits_iter E s))"
    and "Trits_subslice E s a b = Some s' \<Longrightarrow>
      slice_inv s' \<and> Trits_iter E s' = take (b - a) (drop a (Trits_iter E s))"
  using assms
  by (auto simp: Trits_subslice_def Trits_len_def slice_inv_slice slice_trits split: if_splits)

end

context raw_encoding
begin

lemma reencode:
  assumes "raw_encoding F slice_inv' buf_inv'"
  shows "Trits_iter E (buf_as_slice E (Trits_encode F E (buf_as_slice F (Trits_encode E F s)))) =
    Trits_iter E s"
  by (simp add: encode_trits raw_encoding.encode_trits [OF assms])

end

text \<open>Negation, for balanced trits.\<close>

locale balanced_encoding = raw_encoding E slice_inv buf_inv
  for E :: "('s, 'b, Btrit) encoding" and slice_inv and buf_inv
begin

lemma negate_from_trits:
  assumes "slice_inv s" and "i + n = enc_len E s"
  shows "slice_inv (negate_from E s i n) \<and>
    Trits_iter E (negate_from E s i n) =
      take i (Trits_iter E s) @ map Btrit_neg (drop i (Trits_iter E s))"
  using assms
proof (induction n arbitrary: s i)
  case 0
  then show ?case by simp
next
  case (Suc n)
  let ?t = "Btrit_neg (enc_get_unchecked E s i)"
  let ?s = "enc_set_unchecked E s i ?t"
  have i: "i < enc_len E s" using Suc.prems by simp
  have s: "slice_inv ?s" "Suc i + n = enc_len E ?s"
    using Suc.prems i by (simp_all add: set_inv set_len)
  have t: "take (Suc i) (Trits_iter E ?s) = take i (Trits_iter E s) @ [?t]"
    using Suc.prems i by (simp add: set_trits take_Suc_conv_app_nth)
  have d: "drop (Suc i) (Trits_iter E ?s) = drop (Suc i) (Trits_iter E s)"
    using Suc.prems i by (simp add: set_trits)
  have "drop i (Trits_iter E s) = enc_get_unchecked E s i # drop (Suc i) (Trits_iter E s)"
    using i by (simp add: Cons_nth_drop_Suc [symmetric])
  with Suc.IH [OF s] t d show ?case by simp
qed

lemma negate_trits:
  "slice_inv s \<Longrightarrow> Trits_iter E (Trits_negate E s) = map Btrit_neg (Trits_iter E s)"
  using negate_from_trits [of s 0 "enc_len E s"] by (simp add: Trits_negate_def Trits_len_def)

end

end
