(* ===== verification/Packed_Encodings.thy ===== *)
theory Packed_Encodings
  imports Trits "HOL-Library.Signed_Division"
begin

text \<open>
  The encodings of bee-ternary that put several balanced trits into a byte, T2B1, T3B1, T4B1 and
  T5B1 (t2b1.rs to t5b1.rs), and T1B1, a vector of trits (t1b1.rs).

  The four packed files differ in \<open>TRITS_PER_BYTE\<close>, in \<open>BALANCE_DIFF\<close>, in the number of bits of the
  slice length that hold the offset and in the integer type of \<open>extract\<close> and \<open>insert\<close> (\<open>i16\<close> for T5B1,
  \<open>i8\<close> elsewhere); the rest of their code is the same and is defined once, over these parameters.
  A slice is the bytes from its pointer on, together with the word in which the source keeps the
  length and the offset.
\<close>

unbundle bit_operations_syntax

section \<open>Bytes of trits\<close>

text \<open>\<open>/\<close> and \<open>%\<close> on signed integers truncate, as \<open>sdiv\<close> and \<open>smod\<close> do. The panic of
  \<open>Utrit::from_u8\<close> is the unspecified value of \<open>the\<close>; on valid bytes it does not occur.\<close>

definition T2B1_extract :: "i8 \<Rightarrow> nat \<Rightarrow> Btrit" where
  "T2B1_extract x elem = Utrit_shift (the (Utrit_from_u8 ((sint (x + 4) sdiv 3 ^ elem) smod 3)))"

definition T2B1_insert :: "i8 \<Rightarrow> nat \<Rightarrow> Btrit \<Rightarrow> i8" where
  "T2B1_insert x elem trit =
     (let utrit = Btrit_shift trit;
          ux = x + 4;
          ux = ux + word_of_int (Utrit_into_u8 utrit - (sint ux sdiv 3 ^ elem) smod 3) * 3 ^ elem
      in ux - 4)"

definition T3B1_extract :: "i8 \<Rightarrow> nat \<Rightarrow> Btrit" where
  "T3B1_extract x elem = Utrit_shift (the (Utrit_from_u8 ((sint (x + 13) sdiv 3 ^ elem) smod 3)))"

definition T3B1_insert :: "i8 \<Rightarrow> nat \<Rightarrow> Btrit \<Rightarrow> i8" where
  "T3B1_insert x elem trit =
     (let utrit = Btrit_shift trit;
          ux = x + 13;
          ux = ux + word_of_int (Utrit_into_u8 utrit - (sint ux sdiv 3 ^ elem) smod 3) * 3 ^ elem
      in ux - 13)"

definition T4B1_extract :: "i8 \<Rightarrow> nat \<Rightarrow> Btrit" where
  "T4B1_extract x elem = Utrit_shift (the (Utrit_from_u8 ((sint (x + 40) sdiv 3 ^ elem) smod 3)))"

definition T4B1_insert :: "i8 \<Rightarrow> nat \<Rightarrow> Btrit \<Rightarrow> i8" where
  "T4B1_insert x elem trit =
     (let utrit = Btrit_shift trit;
          ux = x + 40;
          ux = ux + word_of_int (Utrit_into_u8 utrit - (sint ux sdiv 3 ^ elem) smod 3) * 3 ^ elem
      in ux - 40)"

definition T5B1_extract :: "i8 \<Rightarrow> nat \<Rightarrow> Btrit" where
  "T5B1_extract x elem =
     Utrit_shift (the (Utrit_from_u8 (((sint x + 121) sdiv 3 ^ elem) smod 3)))"

definition T5B1_insert :: "i8 \<Rightarrow> nat \<Rightarrow> Btrit \<Rightarrow> i8" where
  "T5B1_insert x elem trit =
     (let utrit = Btrit_shift trit;
          ux = sint x + 121;
          ux = ux + (Utrit_into_u8 utrit - (ux sdiv 3 ^ elem) smod 3) * 3 ^ elem
      in word_of_int (ux - 121))"

definition packed_is_valid :: "int \<Rightarrow> i8 \<Rightarrow> bool" where
  "packed_is_valid balance_diff b \<longleftrightarrow> sint b \<ge> - balance_diff \<and> sint b \<le> balance_diff"

section \<open>Slices\<close>

record packed_slice =
  slice_ptr :: "i8 list"
  slice_raw :: nat

definition packed_make :: "nat \<Rightarrow> nat \<Rightarrow> i8 list \<Rightarrow> nat \<Rightarrow> nat \<Rightarrow> packed_slice" where
  "packed_make shift tpb ptr offset len =
     \<lparr>slice_ptr = drop (offset div tpb) ptr, slice_raw = push_bit shift len OR (offset mod tpb)\<rparr>"

definition packed_len_offset :: "nat \<Rightarrow> packed_slice \<Rightarrow> nat \<times> nat" where
  "packed_len_offset shift s = (drop_bit shift (slice_raw s), slice_raw s AND mask shift)"

definition packed_len :: "nat \<Rightarrow> packed_slice \<Rightarrow> nat" where
  "packed_len shift s = fst (packed_len_offset shift s)"

definition packed_ptr :: "nat \<Rightarrow> nat \<Rightarrow> packed_slice \<Rightarrow> nat \<Rightarrow> nat" where
  "packed_ptr shift tpb s index = (snd (packed_len_offset shift s) + index) div tpb"

definition packed_as_i8_slice :: "nat \<Rightarrow> nat \<Rightarrow> packed_slice \<Rightarrow> i8 list option" where
  "packed_as_i8_slice shift tpb s =
     (if snd (packed_len_offset shift s) = 0
      then Some (take ((packed_len shift s + tpb - 1) div tpb) (slice_ptr s))
      else None)"

definition packed_get_unchecked ::
  "nat \<Rightarrow> nat \<Rightarrow> (i8 \<Rightarrow> nat \<Rightarrow> Btrit) \<Rightarrow> packed_slice \<Rightarrow> nat \<Rightarrow> Btrit" where
  "packed_get_unchecked shift tpb extract s index =
     extract (slice_ptr s ! packed_ptr shift tpb s index)
       ((snd (packed_len_offset shift s) + index) mod tpb)"

definition packed_set_unchecked ::
  "nat \<Rightarrow> nat \<Rightarrow> (i8 \<Rightarrow> nat \<Rightarrow> Btrit \<Rightarrow> i8) \<Rightarrow> packed_slice \<Rightarrow> nat \<Rightarrow> Btrit \<Rightarrow> packed_slice" where
  "packed_set_unchecked shift tpb insert_trit s index trit =
     (let i = packed_ptr shift tpb s index;
          b = insert_trit (slice_ptr s ! i) ((snd (packed_len_offset shift s) + index) mod tpb) trit
      in s\<lparr>slice_ptr := (slice_ptr s)[i := b]\<rparr>)"

definition packed_slice_unchecked :: "nat \<Rightarrow> nat \<Rightarrow> packed_slice \<Rightarrow> nat \<Rightarrow> nat \<Rightarrow> packed_slice" where
  "packed_slice_unchecked shift tpb s start stop =
     packed_make shift tpb (drop (packed_ptr shift tpb s start) (slice_ptr s))
       ((snd (packed_len_offset shift s) + start) mod tpb) (stop - start)"

definition packed_from_raw_unchecked :: "nat \<Rightarrow> nat \<Rightarrow> i8 list \<Rightarrow> nat \<Rightarrow> packed_slice option" where
  "packed_from_raw_unchecked shift tpb b num_trits =
     (if num_trits \<le> length b * tpb then Some (packed_make shift tpb b 0 num_trits) else None)"

section \<open>Buffers\<close>

record packed_buf =
  buf_bytes :: "i8 list"
  buf_len :: nat

definition packed_buf_new :: packed_buf where
  "packed_buf_new = \<lparr>buf_bytes = [], buf_len = 0\<rparr>"

definition packed_buf_clear :: "packed_buf \<Rightarrow> packed_buf" where
  "packed_buf_clear b = b\<lparr>buf_bytes := [], buf_len := 0\<rparr>"

definition packed_buf_push ::
  "nat \<Rightarrow> (i8 \<Rightarrow> nat \<Rightarrow> Btrit \<Rightarrow> i8) \<Rightarrow> packed_buf \<Rightarrow> Btrit \<Rightarrow> packed_buf" where
  "packed_buf_push tpb insert_trit self trit =
     (if buf_len self mod tpb = 0
      then \<lparr>buf_bytes = buf_bytes self @ [insert_trit 0 0 trit], buf_len = buf_len self + 1\<rparr>
      else let last_index = length (buf_bytes self) - 1;
               b = insert_trit (buf_bytes self ! last_index) (buf_len self mod tpb) trit
           in \<lparr>buf_bytes = (buf_bytes self)[last_index := b], buf_len = buf_len self + 1\<rparr>)"

definition packed_buf_pop ::
  "nat \<Rightarrow> (i8 \<Rightarrow> nat \<Rightarrow> Btrit) \<Rightarrow> packed_buf \<Rightarrow> Btrit option \<times> packed_buf" where
  "packed_buf_pop tpb extract self =
     (if buf_len self = 0 then (None, self)
      else if buf_len self mod tpb = 1
      then (if buf_bytes self = [] then None else Some (extract (last (buf_bytes self)) 0),
            \<lparr>buf_bytes = butlast (buf_bytes self), buf_len = buf_len self - 1\<rparr>)
      else let last_index = length (buf_bytes self) - 1
           in (Some (extract (buf_bytes self ! last_index) ((buf_len self + tpb - 1) mod tpb)),
               self\<lparr>buf_len := buf_len self - 1\<rparr>))"

definition packed_buf_as_slice :: "nat \<Rightarrow> nat \<Rightarrow> packed_buf \<Rightarrow> packed_slice" where
  "packed_buf_as_slice shift tpb b = packed_make shift tpb (buf_bytes b) 0 (buf_len b)"

section \<open>The encodings\<close>

definition packed_encoding ::
  "nat \<Rightarrow> nat \<Rightarrow> int \<Rightarrow> (i8 \<Rightarrow> nat \<Rightarrow> Btrit) \<Rightarrow> (i8 \<Rightarrow> nat \<Rightarrow> Btrit \<Rightarrow> i8) \<Rightarrow>
     (packed_slice, packed_buf, Btrit) encoding" where
  "packed_encoding shift tpb balance_diff extract insert_trit = \<lparr>
     enc_len = packed_len shift,
     enc_as_i8_slice = packed_as_i8_slice shift tpb,
     enc_get_unchecked = packed_get_unchecked shift tpb extract,
     enc_set_unchecked = packed_set_unchecked shift tpb insert_trit,
     enc_slice_unchecked = packed_slice_unchecked shift tpb,
     enc_is_valid = packed_is_valid balance_diff,
     enc_from_raw_unchecked = packed_from_raw_unchecked shift tpb,
     buf_new = packed_buf_new,
     buf_clear = packed_buf_clear,
     buf_push = packed_buf_push tpb insert_trit,
     buf_pop = packed_buf_pop tpb extract,
     buf_as_slice = packed_buf_as_slice shift tpb\<rparr>"

definition T2B1 :: "(packed_slice, packed_buf, Btrit) encoding" where
  "T2B1 = packed_encoding 2 2 4 T2B1_extract T2B1_insert"

definition T3B1 :: "(packed_slice, packed_buf, Btrit) encoding" where
  "T3B1 = packed_encoding 2 3 13 T3B1_extract T3B1_insert"

definition T4B1 :: "(packed_slice, packed_buf, Btrit) encoding" where
  "T4B1 = packed_encoding 2 4 40 T4B1_extract T4B1_insert"

definition T5B1 :: "(packed_slice, packed_buf, Btrit) encoding" where
  "T5B1 = packed_encoding 3 5 121 T5B1_extract T5B1_insert"

text \<open>T1B1 keeps its trits one per byte: a slice and a buffer are the list of trits.\<close>

definition T1B1 :: "(Btrit list, Btrit list, Btrit) encoding" where
  "T1B1 = \<lparr>
     enc_len = length,
     enc_as_i8_slice = (\<lambda>s. Some (map (\<lambda>t. word_of_int (Btrit_into_i8 t)) s)),
     enc_get_unchecked = (\<lambda>s index. s ! index),
     enc_set_unchecked = (\<lambda>s index trit. s[index := trit]),
     enc_slice_unchecked = (\<lambda>s start stop. take (stop - start) (drop start s)),
     enc_is_valid = (\<lambda>b. Btrit_try_from (sint b) \<noteq> None),
     enc_from_raw_unchecked = (\<lambda>b num_trits.
       if num_trits \<le> length b
       then Some (map (\<lambda>x. the (Btrit_try_from (sint x))) (take num_trits b))
       else None),
     buf_new = [],
     buf_clear = (\<lambda>_. []),
     buf_push = (\<lambda>b trit. b @ [trit]),
     buf_pop = (\<lambda>b. if b = [] then (None, b) else (Some (last b), butlast b)),
     buf_as_slice = (\<lambda>b. b)\<rparr>"

interpretation T1B1: balanced_encoding T1B1 "\<lambda>_. True" "\<lambda>_. True"
  by unfold_locales (auto simp: T1B1_def Trits_iter_def map_nth nth_append intro: nth_equalityI)

end
