(* ===== verification/Packed_Laws.thy ===== *)
theory Packed_Laws
  imports Packed_Encodings
begin

text \<open>
  The packed encodings keep the contract of \<open>raw_encoding\<close>: digits in base three first, then slices
  and buffers over any byte coding that satisfies \<open>packed_bytes\<close>, then the four codings of the sources.
\<close>

section \<open>Digits in base three\<close>


lemma set_digit:
  fixes u d :: int and e n :: nat
  assumes "0 \<le> u" and "u < 3 ^ n" and "e < n" and "0 \<le> d" and "d < 3"
  defines "u' \<equiv> u + (d - u div 3 ^ e mod 3) * 3 ^ e"
  shows "0 \<le> u'" and "u' < 3 ^ n" and "u' div 3 ^ e mod 3 = d"
    and "j \<noteq> e \<Longrightarrow> u' div 3 ^ j mod 3 = u div 3 ^ j mod 3"
proof -
  define q r where "q = u div 3 ^ e" and "r = u mod 3 ^ e"
  have u: "u = q * 3 ^ e + r" unfolding q_def r_def by (simp only: div_mult_mod_eq)
  have r: "0 \<le> r" "r < 3 ^ e" and q: "0 \<le> q"
    using assms(1) by (simp_all add: q_def r_def pos_imp_zdiv_nonneg_iff)
  define q' where "q' = 3 * (q div 3) + d"
  have q'_eq: "q' = q + (d - q mod 3)" by (simp add: q'_def minus_mod_eq_mult_div [symmetric])
  have "u' = (q * 3 ^ e + r) + (d - q mod 3) * 3 ^ e"
    unfolding u'_def q_def [symmetric] by (simp add: u)
  then have u': "u' = q' * 3 ^ e + r"
    by (simp add: q'_eq algebra_simps)
  have q': "0 \<le> q'" using q assms(4) by (simp add: q'_def pos_imp_zdiv_nonneg_iff)
  have div_e: "u' div 3 ^ e = q'" using r by (simp add: u' div_add1_eq)
  have mod_e: "u' mod 3 ^ e = r" using r by (simp add: u')
  have above: "u' div 3 ^ (Suc e + k) = u div 3 ^ (Suc e + k)" for k
  proof -
    have "(3::int) ^ (Suc e + k) = 3 ^ e * 3 * 3 ^ k" by (simp add: power_add)
    then have "x div 3 ^ (Suc e + k) = x div 3 ^ e div 3 div 3 ^ k" for x :: int
      by (simp only: zdiv_zmult2_eq zero_le_power zero_le_numeral)
    moreover have "q' div 3 = q div 3" using assms(4,5) by (simp add: q'_def)
    ultimately show ?thesis by (simp add: div_e q_def [symmetric])
  qed
  show "0 \<le> u'" using u' q' r by simp
  obtain k where "n = Suc e + k" using assms(3) less_iff_Suc_add by auto
  then have "u' div 3 ^ n = 0" using above [of k] assms(1,2) by simp
  moreover have "(0::int) < 3 ^ n" by simp
  ultimately show "u' < 3 ^ n" using \<open>0 \<le> u'\<close> by (auto simp: zdiv_eq_0_iff)
  show "u' div 3 ^ e mod 3 = d" using assms(4,5) by (simp add: div_e q'_def)
  assume "j \<noteq> e"
  then consider k where "j = Suc e + k" | "Suc j \<le> e"
    by (metis Suc_leI less_iff_Suc_add linorder_neqE_nat add_Suc)
  then show "u' div 3 ^ j mod 3 = u div 3 ^ j mod 3"
  proof cases
    case 1
    then show ?thesis using above [of k] by simp
  next
    case 2
    have low: "x div 3 ^ j mod 3 = (x mod 3 ^ e) mod 3 ^ Suc j div 3 ^ j" for x :: int
    proof -
      have "x div 3 ^ j mod 3 = x mod 3 ^ Suc j div 3 ^ j"
        using zmod_zmult2_eq [of 3 x "3 ^ j"] by (simp add: mult.commute)
      moreover have "(3::int) ^ Suc j dvd 3 ^ e" using 2 by (rule le_imp_power_dvd)
      ultimately show ?thesis by (simp add: mod_mod_cancel)
    qed
    show ?thesis unfolding low [of u] low [of u'] mod_e r_def by simp
  qed
qed

section \<open>Bytes, slices and buffers\<close>

definition digit_trit :: "int \<Rightarrow> Btrit" where
  "digit_trit d = Utrit_shift (the (Utrit_from_u8 d))"

lemma digit_trit_into [simp]: "digit_trit (Utrit_into_u8 (Btrit_shift t)) = t"
  by (simp add: digit_trit_def)

lemma sdiv_smod_nonneg:
  "0 \<le> a \<Longrightarrow> 0 < b \<Longrightarrow> a sdiv b = a div b" "0 \<le> a \<Longrightarrow> 0 < b \<Longrightarrow> a smod b = a mod b" for a b :: int
  by (auto simp: signed_divide_int_def signed_modulo_int_def sgn_if)

lemma sint_i8_of_int: "- 128 \<le> k \<Longrightarrow> k < 128 \<Longrightarrow> sint (word_of_int k :: i8) = k"
  by (simp add: int_word_sint)

text \<open>What an encoding provides of its bytes: a trit that is inserted is extracted again, and the
  other trits of the byte stay.\<close>

definition packed_slice_inv :: "nat \<Rightarrow> nat \<Rightarrow> int \<Rightarrow> packed_slice \<Rightarrow> bool" where
  "packed_slice_inv shift tpb balance_diff s \<longleftrightarrow>
     list_all (packed_is_valid balance_diff) (slice_ptr s) \<and>
     (case packed_len_offset shift s of (n, off) \<Rightarrow> off < tpb \<and> off + n \<le> tpb * length (slice_ptr s))"

definition packed_buf_inv :: "nat \<Rightarrow> int \<Rightarrow> packed_buf \<Rightarrow> bool" where
  "packed_buf_inv tpb balance_diff b \<longleftrightarrow>
     list_all (packed_is_valid balance_diff) (buf_bytes b) \<and>
     length (buf_bytes b) = (buf_len b + tpb - 1) div tpb"

locale packed_bytes =
  fixes tpb :: nat and shift :: nat and balance_diff :: int
    and get_trit :: "i8 \<Rightarrow> nat \<Rightarrow> Btrit"
    and set_trit :: "i8 \<Rightarrow> nat \<Rightarrow> Btrit \<Rightarrow> i8"
  assumes tpb: "1 < tpb" "tpb \<le> 2 ^ shift"
    and diff: "2 * balance_diff + 1 = 3 ^ tpb"
    and get_trit: "packed_is_valid balance_diff x \<Longrightarrow> e < tpb \<Longrightarrow>
      get_trit x e = digit_trit ((sint x + balance_diff) div 3 ^ e mod 3)"
    and set_trit: "packed_is_valid balance_diff x \<Longrightarrow> e < tpb \<Longrightarrow>
      sint (set_trit x e t) + balance_diff = sint x + balance_diff +
        (Utrit_into_u8 (Btrit_shift t) - (sint x + balance_diff) div 3 ^ e mod 3) * 3 ^ e"
begin

abbreviation valid :: "i8 \<Rightarrow> bool" where
  "valid \<equiv> packed_is_valid balance_diff"

lemma tpb_pos [simp]: "0 < tpb" "tpb \<noteq> 0"
  using tpb by auto

lemma valid_zero: "valid 0"
proof -
  have "(0::int) < 3 ^ tpb" by simp
  with diff have "0 \<le> balance_diff" by linarith
  then show ?thesis by (simp add: packed_is_valid_def)
qed

lemma valid_digits: "valid x \<Longrightarrow> 0 \<le> sint x + balance_diff \<and> sint x + balance_diff < 3 ^ tpb"
  using diff by (simp add: packed_is_valid_def)

lemma insert_laws:
  assumes "valid x" and "e < tpb"
  shows "valid (set_trit x e t)" and "get_trit (set_trit x e t) e = t"
    and "j < tpb \<Longrightarrow> j \<noteq> e \<Longrightarrow> get_trit (set_trit x e t) j = get_trit x j"
proof -
  have d: "0 \<le> Utrit_into_u8 (Btrit_shift t)" "Utrit_into_u8 (Btrit_shift t) < 3"
    using Utrit_into_u8_range by auto
  note laws = set_digit [OF _ _ assms(2) d, of "sint x + balance_diff",
      folded set_trit [OF assms, of t]]
  have u: "0 \<le> sint x + balance_diff" "sint x + balance_diff < 3 ^ tpb"
    using valid_digits [OF assms(1)] by auto
  show v: "valid (set_trit x e t)"
    using laws(1,2) [OF u] diff by (simp add: packed_is_valid_def)
  show "get_trit (set_trit x e t) e = t"
    using laws(3) [OF u] by (simp add: get_trit [OF v assms(2)])
  show "get_trit (set_trit x e t) j = get_trit x j" if "j < tpb" and "j \<noteq> e"
    using laws(4) [OF u that(2)] by (simp add: get_trit [OF v that(1)] get_trit [OF assms(1) that(1)])
qed

lemma len_offset_make [simp]:
  "packed_len_offset shift (packed_make shift tpb p off n) = (n, off mod tpb)"
proof -
  have "off mod tpb < 2 ^ shift" using tpb by (meson less_le_trans mod_less_divisor zero_less_one less_trans)
  then have "drop_bit shift (off mod tpb) = 0" and "take_bit shift (off mod tpb) = off mod tpb"
    by (simp_all add: drop_bit_eq_div take_bit_nat_eq_self)
  moreover have "drop_bit shift (push_bit shift n) = n"
    by (simp add: drop_bit_eq_div push_bit_eq_mult)
  ultimately show ?thesis
    by (simp add: packed_len_offset_def packed_make_def take_bit_eq_mask [symmetric]
        take_bit_push_bit)
qed


abbreviation E :: "(packed_slice, packed_buf, Btrit) encoding" where
  "E \<equiv> packed_encoding shift tpb balance_diff get_trit set_trit"

lemma index_split: "(k + i) div tpb = k div tpb + (k mod tpb + i) div tpb"
  "(k mod tpb + i) mod tpb = (k + i) mod tpb" for k i :: nat
proof -
  have "k + i = (k mod tpb + i) + tpb * (k div tpb)" by simp
  then show "(k + i) div tpb = k div tpb + (k mod tpb + i) div tpb"
    using tpb by (metis add.commute div_mult_self2 not_one_less_zero)
qed (simp add: mod_add_left_eq)

lemma index_inj: "i div tpb = j div tpb \<Longrightarrow> i mod tpb = j mod tpb \<Longrightarrow> i = j" for i j :: nat
  by (metis div_mult_mod_eq)

lemma ceil_div: "(n + tpb - Suc 0) div tpb = n div tpb + of_bool (n mod tpb \<noteq> 0)"
proof -
  have "n + tpb - Suc 0 = (n mod tpb + tpb - Suc 0) + tpb * (n div tpb)" using tpb by simp
  then have "(n + tpb - Suc 0) div tpb = n div tpb + (n mod tpb + tpb - Suc 0) div tpb"
    using tpb by (metis add.commute div_mult_self2 not_one_less_zero)
  moreover have "(n mod tpb + tpb - Suc 0) div tpb = of_bool (n mod tpb \<noteq> 0)"
    using tpb mod_less_divisor [of tpb n] by (cases "n mod tpb") (auto simp: div_add_self2)
  ultimately show ?thesis by simp
qed

lemma set_slice:
  assumes "packed_slice_inv shift tpb balance_diff s" and "i < packed_len shift s"
  shows "packed_slice_inv shift tpb balance_diff (packed_set_unchecked shift tpb set_trit s i t)"
    and "packed_len shift (packed_set_unchecked shift tpb set_trit s i t) = packed_len shift s"
    and "j < packed_len shift s \<Longrightarrow>
      packed_get_unchecked shift tpb get_trit (packed_set_unchecked shift tpb set_trit s i t) j =
      (if i = j then t else packed_get_unchecked shift tpb get_trit s j)"
proof -
  obtain n off where lo: "packed_len_offset shift s = (n, off)" by fastforce
  have inv: "list_all valid (slice_ptr s)" "off < tpb" "off + n \<le> tpb * length (slice_ptr s)"
    and i: "i < n"
    using assms lo by (auto simp: packed_slice_inv_def packed_len_def)
  have lo': "packed_len_offset shift (packed_set_unchecked shift tpb set_trit s i t) = (n, off)"
    using lo by (simp add: packed_set_unchecked_def packed_len_offset_def Let_def)
  have bound: "(off + j) div tpb < length (slice_ptr s)" if "j < n" for j
    using inv(3) that by (simp add: less_mult_imp_div_less mult.commute)
  have byte: "valid (slice_ptr s ! ((off + j) div tpb))" if "j < n" for j
    using inv(1) bound [OF that] by (simp add: list_all_length)
  have e: "k mod tpb < tpb" for k using tpb by simp
  note laws = insert_laws [OF byte [OF i] e]
  show "packed_len shift (packed_set_unchecked shift tpb set_trit s i t) = packed_len shift s"
    by (simp add: packed_len_def lo lo')
  show "packed_slice_inv shift tpb balance_diff (packed_set_unchecked shift tpb set_trit s i t)"
    unfolding packed_slice_inv_def lo'
    using inv laws(1) bound [OF i] by (auto simp: packed_set_unchecked_def packed_ptr_def lo Let_def
        list_all_length nth_list_update)
  show "packed_get_unchecked shift tpb get_trit (packed_set_unchecked shift tpb set_trit s i t) j =
      (if i = j then t else packed_get_unchecked shift tpb get_trit s j)"
    if "j < packed_len shift s"
  proof -
    have j: "j < n" using that lo by (simp add: packed_len_def)
    have mods: "(off + j) mod tpb \<noteq> (off + i) mod tpb"
      if "i \<noteq> j" and "(off + i) div tpb = (off + j) div tpb"
      using that index_inj [of "off + i" "off + j"] by auto
    have ptr: "slice_ptr (packed_set_unchecked shift tpb set_trit s i t) =
        (slice_ptr s)[(off + i) div tpb :=
          set_trit (slice_ptr s ! ((off + i) div tpb)) ((off + i) mod tpb) t]"
      by (simp add: packed_set_unchecked_def packed_ptr_def lo Let_def)
    show ?thesis
      unfolding packed_get_unchecked_def packed_ptr_def lo lo' ptr
      using laws(2) laws(3) [OF e mods] bound [OF i]
      by (auto simp: nth_list_update)
  qed
qed

lemma sub_slice:
  assumes "packed_slice_inv shift tpb balance_diff s" and "p \<le> q" and "q \<le> packed_len shift s"
  shows "packed_slice_inv shift tpb balance_diff (packed_slice_unchecked shift tpb s p q)"
    and "packed_len shift (packed_slice_unchecked shift tpb s p q) = q - p"
    and "i < q - p \<Longrightarrow>
      packed_get_unchecked shift tpb get_trit (packed_slice_unchecked shift tpb s p q) i =
      packed_get_unchecked shift tpb get_trit s (p + i)"
proof -
  obtain n off where lo: "packed_len_offset shift s = (n, off)" by fastforce
  have inv: "list_all valid (slice_ptr s)" "off < tpb" "off + n \<le> tpb * length (slice_ptr s)"
    and q: "q \<le> n"
    using assms lo by (auto simp: packed_slice_inv_def packed_len_def)
  let ?s = "packed_slice_unchecked shift tpb s p q"
  have lo': "packed_len_offset shift ?s = (q - p, (off + p) mod tpb)"
    by (simp add: packed_slice_unchecked_def lo)
  have ptr: "slice_ptr ?s = drop ((off + p) div tpb) (slice_ptr s)"
    using tpb by (simp add: packed_slice_unchecked_def packed_make_def packed_ptr_def lo)
  show "packed_len shift ?s = q - p"
    by (simp add: packed_len_def lo')
  have "off + q \<le> tpb * length (slice_ptr s)" using inv(3) q by simp
  then have "(off + p) mod tpb + (q - p) \<le> tpb * (length (slice_ptr s) - (off + p) div tpb)"
    unfolding diff_mult_distrib2 using assms(2) mult_div_mod_eq [of tpb "off + p"] by linarith
  then show "packed_slice_inv shift tpb balance_diff ?s"
    using inv(1) tpb unfolding packed_slice_inv_def lo' ptr
    by (auto simp: list_all_iff dest: in_set_dropD)
  show "packed_get_unchecked shift tpb get_trit ?s i = packed_get_unchecked shift tpb get_trit s (p + i)"
    if "i < q - p"
  proof -
    have "off + p + i < tpb * length (slice_ptr s)" using that inv(3) q by simp
    then have "(off + p) div tpb + ((off + p) mod tpb + i) div tpb < length (slice_ptr s)"
      by (simp add: index_split(1) [symmetric] less_mult_imp_div_less mult.commute)
    then show ?thesis
      using index_split(1) [of "off + p" i]
      by (simp add: packed_get_unchecked_def packed_ptr_def lo lo' ptr index_split(2) add.assoc)
  qed
qed

lemma buf_slice_inv:
  assumes "packed_buf_inv tpb balance_diff b"
  shows "packed_slice_inv shift tpb balance_diff (packed_buf_as_slice shift tpb b)"
proof -
  have "buf_len b \<le> tpb * (buf_len b div tpb + of_bool (buf_len b mod tpb \<noteq> 0))"
    using tpb dividend_less_times_div [of tpb "buf_len b"]
    by (cases "buf_len b mod tpb = 0") auto
  with assms tpb show ?thesis
    by (simp add: packed_slice_inv_def packed_buf_as_slice_def packed_buf_inv_def ceil_div)
      (simp add: packed_make_def)
qed

lemma buf_trits_eq:
  "buf_trits E b = map (\<lambda>i. get_trit (buf_bytes b ! (i div tpb)) (i mod tpb)) [0..<buf_len b]"
  by (simp add: Trits_iter_def packed_encoding_def packed_buf_as_slice_def packed_len_def
      packed_get_unchecked_def packed_ptr_def) (simp add: packed_make_def)

lemma buf_push_laws:
  assumes "packed_buf_inv tpb balance_diff b"
  shows "packed_buf_inv tpb balance_diff (packed_buf_push tpb set_trit b t)"
    and "buf_trits E (packed_buf_push tpb set_trit b t) = buf_trits E b @ [t]"
proof -
  let ?n = "buf_len b" and ?bs = "buf_bytes b"
  have v: "list_all valid ?bs" and l: "length ?bs = ?n div tpb + of_bool (?n mod tpb \<noteq> 0)"
    using assms by (auto simp: packed_buf_inv_def ceil_div)
  have e: "k mod tpb < tpb" for k using tpb by simp
  define bs' where "bs' = buf_bytes (packed_buf_push tpb set_trit b t)"
  have len': "buf_len (packed_buf_push tpb set_trit b t) = Suc ?n"
    by (simp add: packed_buf_push_def Let_def)
  have last: "bs' ! (?n div tpb) = set_trit (if ?n mod tpb = 0 then 0 else ?bs ! (?n div tpb)) (?n mod tpb) t"
    and other: "j < ?n div tpb \<Longrightarrow> bs' ! j = ?bs ! j"
    and length': "length bs' = Suc (?n div tpb)" for j
    using l by (auto simp: bs'_def packed_buf_push_def Let_def nth_append)
  define x where "x = (if ?n mod tpb = 0 then 0 else ?bs ! (?n div tpb))"
  have x: "valid x" using v l valid_zero by (auto simp: x_def list_all_length)
  note laws = insert_laws [OF x e]
  have "valid (bs' ! j)" if "j < length bs'" for j
    using that length' v l laws(1) last other [of j]
    by (cases "j = ?n div tpb") (auto simp: x_def [symmetric] list_all_length less_Suc_eq split: if_splits)
  then show "packed_buf_inv tpb balance_diff (packed_buf_push tpb set_trit b t)"
    using length' len' tpb
    by (simp add: packed_buf_inv_def bs'_def [symmetric] list_all_length div_add_self2)
  have "get_trit (bs' ! (i div tpb)) (i mod tpb) = get_trit (?bs ! (i div tpb)) (i mod tpb)"
    if "i < ?n" for i
  proof (cases "i div tpb = ?n div tpb")
    case True
    then have "i mod tpb < ?n mod tpb"
      using that by (metis mult_div_mod_eq nat_add_left_cancel_less)
    then show ?thesis using True last laws(3) [OF e, of i ?n t] by (simp add: x_def)
  next
    case False
    then have "i div tpb < ?n div tpb" using that by (simp add: div_le_mono le_neq_implies_less)
    then show ?thesis by (simp add: other)
  qed
  then show "buf_trits E (packed_buf_push tpb set_trit b t) = buf_trits E b @ [t]"
    using laws(2) [of ?n t] last by (simp add: buf_trits_eq len' bs'_def [symmetric] x_def [symmetric])
qed


lemma buf_pop_laws:
  assumes "packed_buf_inv tpb balance_diff b"
  shows "packed_buf_inv tpb balance_diff (snd (packed_buf_pop tpb get_trit b))"
    and "fst (packed_buf_pop tpb get_trit b) =
      (if buf_trits E b = [] then None else Some (last (buf_trits E b)))"
    and "buf_trits E (snd (packed_buf_pop tpb get_trit b)) = butlast (buf_trits E b)"
proof -
  let ?bs = "buf_bytes b"
  have v: "list_all valid ?bs" and l: "length ?bs = (buf_len b + tpb - Suc 0) div tpb"
    using assms by (auto simp: packed_buf_inv_def)
  have "packed_buf_inv tpb balance_diff (snd (packed_buf_pop tpb get_trit b)) \<and>
    fst (packed_buf_pop tpb get_trit b) =
      (if buf_trits E b = [] then None else Some (last (buf_trits E b))) \<and>
    buf_trits E (snd (packed_buf_pop tpb get_trit b)) = butlast (buf_trits E b)"
  proof (cases "buf_len b")
    case 0
    with assms show ?thesis by (simp add: packed_buf_pop_def buf_trits_eq)
  next
    case (Suc n)
    have len: "length ?bs = Suc (n div tpb)" using l Suc by (simp add: div_add_self2)
    have ne: "?bs \<noteq> []" using len by auto
    then have last: "last ?bs = ?bs ! (n div tpb)" using len by (simp add: last_conv_nth)
    have trits: "buf_trits E b = map (\<lambda>i. get_trit (?bs ! (i div tpb)) (i mod tpb)) [0..<n] @
        [get_trit (?bs ! (n div tpb)) (n mod tpb)]"
      by (simp add: buf_trits_eq Suc)
    show ?thesis
    proof (cases "Suc n mod tpb = 1")
      case True
      then have n: "n mod tpb = 0"
        using tpb by (auto simp: mod_Suc split: if_splits)
      then have below: "i div tpb < n div tpb" if "i < n" for i
        using that by (metis add.right_neutral div_le_mono dvd_div_eq_mult le_neq_implies_less
            less_imp_le_nat mult.commute mult_div_mod_eq nat_add_left_cancel_less not_less_zero mod_eq_0_iff_dvd)
      have "list_all valid (butlast ?bs)" using v by (simp add: list_all_iff in_set_butlastD)
      with n below len last ne trits tpb show ?thesis
        by (auto simp: packed_buf_pop_def Suc True packed_buf_inv_def buf_trits_eq nth_butlast ceil_div)
    next
      case False
      then have "n mod tpb \<noteq> 0" using tpb by (auto simp: mod_Suc split: if_splits)
      then have "(n + tpb - Suc 0) div tpb = Suc (n div tpb)" by (simp add: ceil_div)
      moreover have "(Suc n + tpb - 1) mod tpb = n mod tpb" by simp
      ultimately show ?thesis
        using False len trits v
        by (simp add: packed_buf_pop_def Suc packed_buf_inv_def buf_trits_eq Let_def)
    qed
  qed
  then show "packed_buf_inv tpb balance_diff (snd (packed_buf_pop tpb get_trit b))"
    and "fst (packed_buf_pop tpb get_trit b) =
      (if buf_trits E b = [] then None else Some (last (buf_trits E b)))"
    and "buf_trits E (snd (packed_buf_pop tpb get_trit b)) = butlast (buf_trits E b)"
    by blast+
qed

lemma packed_balanced:
  "balanced_encoding E (packed_slice_inv shift tpb balance_diff) (packed_buf_inv tpb balance_diff)"
  using set_slice sub_slice buf_slice_inv buf_push_laws buf_pop_laws tpb
  by unfold_locales
    (simp_all add: packed_encoding_def packed_buf_new_def packed_buf_clear_def packed_buf_inv_def
      Trits_iter_def packed_buf_as_slice_def packed_len_def)


lemma from_raw_Some:
  assumes "list_all valid raw" and "n \<le> length raw * tpb"
  shows "packed_from_raw_unchecked shift tpb raw n = Some (packed_make shift tpb raw 0 n)"
    and "packed_slice_inv shift tpb balance_diff (packed_make shift tpb raw 0 n)"
  using assms unfolding packed_from_raw_unchecked_def packed_slice_inv_def
  by (simp_all add: mult.commute) (simp add: packed_make_def)

lemma as_i8_slice_buf:
  "packed_buf_inv tpb balance_diff b \<Longrightarrow>
     packed_as_i8_slice shift tpb (packed_buf_as_slice shift tpb b) = Some (buf_bytes b)"
  by (simp add: packed_as_i8_slice_def packed_buf_as_slice_def packed_len_def packed_buf_inv_def)
    (simp add: packed_make_def)

end

section \<open>The codings of the sources\<close>

lemma small_insert:
  fixes x :: i8
  assumes "packed_is_valid D x" and "0 < n" and "2 * D + 1 = 3 ^ n" and "D \<le> 40" and "e < n"
  shows "sint (x + word_of_int D) = sint x + D"
    and "sint (x + word_of_int D +
        word_of_int (Utrit_into_u8 u - (sint x + D) div 3 ^ e mod 3) * 3 ^ e - word_of_int D) =
      sint x + (Utrit_into_u8 u - (sint x + D) div 3 ^ e mod 3) * 3 ^ e"
proof -
  let ?u = "sint x + D"
  let ?v = "?u + (Utrit_into_u8 u - ?u div 3 ^ e mod 3) * 3 ^ e"
  have x: "x = word_of_int (sint x)" by simp
  have u: "0 \<le> ?u" "?u < 3 ^ n" using assms(1,3) by (auto simp: packed_is_valid_def)
  have d: "0 \<le> Utrit_into_u8 u" "Utrit_into_u8 u < 3" using Utrit_into_u8_range by auto
  from set_digit(1,2) [OF u assms(5) d] have v: "0 \<le> ?v" "?v < 3 ^ n" .
  have "x + word_of_int D = word_of_int ?u" by simp
  moreover have "sint (word_of_int ?u :: i8) = ?u"
    using u assms(3,4) by (intro sint_i8_of_int) linarith+
  ultimately show "sint (x + word_of_int D) = ?u" by (simp only:)
  have "x + word_of_int D + word_of_int (Utrit_into_u8 u - ?u div 3 ^ e mod 3) * 3 ^ e -
      word_of_int D = word_of_int (?v - D)"
    by simp
  moreover have "sint (word_of_int (?v - D) :: i8) = ?v - D"
    using v assms(3,4) by (intro sint_i8_of_int) linarith+
  ultimately show "sint (x + word_of_int D +
        word_of_int (Utrit_into_u8 u - (sint x + D) div 3 ^ e mod 3) * 3 ^ e - word_of_int D) =
      sint x + (Utrit_into_u8 u - (sint x + D) div 3 ^ e mod 3) * 3 ^ e"
    by (simp only:)
qed

interpretation t5: packed_bytes 5 3 121 T5B1_extract T5B1_insert
proof unfold_locales
  fix x :: i8 and e :: nat and t
  assume v: "packed_is_valid 121 x" and e: "e < 5"
  have u: "0 \<le> sint x + 121" "sint x + 121 < 3 ^ 5" using v by (auto simp: packed_is_valid_def)
  show "T5B1_extract x e = digit_trit ((sint x + 121) div 3 ^ e mod 3)"
    using u by (simp add: T5B1_extract_def digit_trit_def sdiv_smod_nonneg pos_imp_zdiv_nonneg_iff)
  have d: "0 \<le> Utrit_into_u8 (Btrit_shift t)" "Utrit_into_u8 (Btrit_shift t) < 3"
    using Utrit_into_u8_range by auto
  show "sint (T5B1_insert x e t) + 121 = sint x + 121 +
      (Utrit_into_u8 (Btrit_shift t) - (sint x + 121) div 3 ^ e mod 3) * 3 ^ e"
  proof -
    let ?v = "sint x + 121 + (Utrit_into_u8 (Btrit_shift t) - (sint x + 121) div 3 ^ e mod 3) * 3 ^ e"
    have "((sint x + 121) sdiv 3 ^ e) smod 3 = (sint x + 121) div 3 ^ e mod 3"
      using u by (simp add: sdiv_smod_nonneg pos_imp_zdiv_nonneg_iff)
    then have "T5B1_insert x e t = word_of_int (?v - 121)"
      by (simp only: T5B1_insert_def Let_def)
    moreover have "sint (word_of_int (?v - 121) :: i8) = ?v - 121"
      using set_digit(1,2) [OF u e d] by (intro sint_i8_of_int) simp_all
    ultimately show ?thesis by (simp only:)
  qed
qed simp_all

interpretation t4: packed_bytes 4 2 40 T4B1_extract T4B1_insert
proof unfold_locales
  fix x :: i8 and e :: nat and t
  assume v: "packed_is_valid 40 x" and e: "e < 4"
  have u: "0 \<le> sint x + 40" using v by (auto simp: packed_is_valid_def)
  note s = small_insert [OF v _ _ _ e, simplified]
  show "T4B1_extract x e = digit_trit ((sint x + 40) div 3 ^ e mod 3)"
    using u by (simp add: T4B1_extract_def digit_trit_def s sdiv_smod_nonneg pos_imp_zdiv_nonneg_iff)
  show "sint (T4B1_insert x e t) + 40 = sint x + 40 +
      (Utrit_into_u8 (Btrit_shift t) - (sint x + 40) div 3 ^ e mod 3) * 3 ^ e"
    using u s(2) [of "Btrit_shift t"]
    by (simp add: T4B1_insert_def Let_def s(1) sdiv_smod_nonneg pos_imp_zdiv_nonneg_iff)
qed simp_all

interpretation t3: packed_bytes 3 2 13 T3B1_extract T3B1_insert
proof unfold_locales
  fix x :: i8 and e :: nat and t
  assume v: "packed_is_valid 13 x" and e: "e < 3"
  have u: "0 \<le> sint x + 13" using v by (auto simp: packed_is_valid_def)
  note s = small_insert [OF v _ _ _ e, simplified]
  show "T3B1_extract x e = digit_trit ((sint x + 13) div 3 ^ e mod 3)"
    using u by (simp add: T3B1_extract_def digit_trit_def s sdiv_smod_nonneg pos_imp_zdiv_nonneg_iff)
  show "sint (T3B1_insert x e t) + 13 = sint x + 13 +
      (Utrit_into_u8 (Btrit_shift t) - (sint x + 13) div 3 ^ e mod 3) * 3 ^ e"
    using u s(2) [of "Btrit_shift t"]
    by (simp add: T3B1_insert_def Let_def s(1) sdiv_smod_nonneg pos_imp_zdiv_nonneg_iff)
qed simp_all

interpretation t2: packed_bytes 2 2 4 T2B1_extract T2B1_insert
proof unfold_locales
  fix x :: i8 and e :: nat and t
  assume v: "packed_is_valid 4 x" and e: "e < 2"
  have u: "0 \<le> sint x + 4" using v by (auto simp: packed_is_valid_def)
  note s = small_insert [OF v _ _ _ e, simplified]
  show "T2B1_extract x e = digit_trit ((sint x + 4) div 3 ^ e mod 3)"
    using u by (simp add: T2B1_extract_def digit_trit_def s sdiv_smod_nonneg pos_imp_zdiv_nonneg_iff)
  show "sint (T2B1_insert x e t) + 4 = sint x + 4 +
      (Utrit_into_u8 (Btrit_shift t) - (sint x + 4) div 3 ^ e mod 3) * 3 ^ e"
    using u s(2) [of "Btrit_shift t"]
    by (simp add: T2B1_insert_def Let_def s(1) sdiv_smod_nonneg pos_imp_zdiv_nonneg_iff)
qed simp_all

interpretation T2B1: balanced_encoding T2B1 "packed_slice_inv 2 2 4" "packed_buf_inv 2 4"
  unfolding T2B1_def by (rule t2.packed_balanced)

interpretation T3B1: balanced_encoding T3B1 "packed_slice_inv 2 3 13" "packed_buf_inv 3 13"
  unfolding T3B1_def by (rule t3.packed_balanced)

interpretation T4B1: balanced_encoding T4B1 "packed_slice_inv 2 4 40" "packed_buf_inv 4 40"
  unfolding T4B1_def by (rule t4.packed_balanced)

interpretation T5B1: balanced_encoding T5B1 "packed_slice_inv 3 5 121" "packed_buf_inv 5 121"
  unfolding T5B1_def by (rule t5.packed_balanced)

end
