(* ===== verification/Migrated_Funds.thy ===== *)
theory Migrated_Funds
  imports Outputs Packed_Laws
begin

text \<open>
  Tail transaction hashes of the legacy network (payload/receipt/tail_transaction_hash.rs) and
  migrated funds entries (payload/receipt/migrated_funds_entry.rs) of bee-message.

  A hash is a T5B1 buffer of 243 trits in 49 bytes. The cast between slices of \<open>u8\<close> and of \<open>i8\<close> is
  the identity on bytes. Of the five trits that the last byte holds, the buffer keeps three: unpacking
  drops the other two, so this type has a codec that is not canonical.
\<close>

definition TAIL_TRANSACTION_HASH_LEN :: nat where
  "TAIL_TRANSACTION_HASH_LEN = 49"

datatype TailTransactionHash = TailTransactionHash (TailTransactionHash_buf: packed_buf)

definition TailTransactionHash_new :: "byte list \<Rightarrow> Error + TailTransactionHash" where
  "TailTransactionHash_new bytes =
     (case the (Trits_try_from_raw T5B1 bytes 243) of
       Inl _ \<Rightarrow> Inl InvalidTailTransactionHash
     | Inr s \<Rightarrow> Inr (TailTransactionHash (Trits_to_buf T5B1 s)))"

definition TailTransactionHash_as_ref :: "TailTransactionHash \<Rightarrow> byte list" where
  "TailTransactionHash_as_ref x =
     the (enc_as_i8_slice T5B1 (buf_as_slice T5B1 (TailTransactionHash_buf x)))"

definition TailTransactionHash_packed_len :: "TailTransactionHash \<Rightarrow> nat" where
  "TailTransactionHash_packed_len x = TAIL_TRANSACTION_HASH_LEN"

definition TailTransactionHash_pack :: "TailTransactionHash \<Rightarrow> byte list" where
  "TailTransactionHash_pack x = TailTransactionHash_as_ref x"

definition TailTransactionHash_unpack :: "bool \<Rightarrow> (Error, TailTransactionHash) reader" where
  "TailTransactionHash_unpack check =
     bindP (array_read TAIL_TRANSACTION_HASH_LEN check) (\<lambda>bytes.
     liftP (TailTransactionHash_new bytes))"

definition TailTransactionHash_valid :: "TailTransactionHash \<Rightarrow> bool" where
  "TailTransactionHash_valid x \<longleftrightarrow>
     (let b = TailTransactionHash_buf x in
      packed_buf_inv 5 121 b \<and> buf_len b = 243 \<and> Trits_to_buf T5B1 (buf_as_slice T5B1 b) = b)"

lemma T5B1_enc_simps:
  "enc_is_valid T5B1 = packed_is_valid 121"
  "enc_from_raw_unchecked T5B1 = packed_from_raw_unchecked 3 5"
  "enc_as_i8_slice T5B1 = packed_as_i8_slice 3 5"
  "buf_as_slice T5B1 = packed_buf_as_slice 3 5"
  "enc_len T5B1 = packed_len 3"
  by (simp_all add: T5B1_def packed_encoding_def)

lemma TailTransactionHash_new_eq:
  assumes "length bytes = TAIL_TRANSACTION_HASH_LEN"
  shows "TailTransactionHash_new bytes =
    (if list_all (packed_is_valid 121) bytes
     then Inr (TailTransactionHash (Trits_to_buf T5B1 (packed_make 3 5 bytes 0 243)))
     else Inl InvalidTailTransactionHash)"
  using assms t5.from_raw_Some(1) [of bytes 243]
  by (simp add: TailTransactionHash_new_def Trits_try_from_raw_def T5B1_enc_simps
      TAIL_TRANSACTION_HASH_LEN_def)

lemma TailTransactionHash_as_ref_eq:
  "packed_buf_inv 5 121 (TailTransactionHash_buf x) \<Longrightarrow>
     TailTransactionHash_as_ref x = buf_bytes (TailTransactionHash_buf x)"
  by (simp add: TailTransactionHash_as_ref_def T5B1_enc_simps t5.as_i8_slice_buf)

lemma packed_len_as_slice: "packed_len 3 (packed_buf_as_slice 3 5 b) = buf_len b"
  by (simp add: packed_len_def packed_buf_as_slice_def)

lemma Trits_to_buf_valid:
  assumes "packed_len 3 s = 243"
  shows "TailTransactionHash_valid (TailTransactionHash (Trits_to_buf T5B1 s))"
proof -
  have "length (buf_trits T5B1 (Trits_to_buf T5B1 s)) = 243"
    using assms by (simp only: T5B1.to_buf_trits) (simp add: T5B1_enc_simps)
  then show ?thesis
    by (simp add: TailTransactionHash_valid_def Let_def T5B1_enc_simps packed_len_as_slice)
      (simp add: Trits_to_buf_def T5B1.from_iter_inv
        T5B1.from_iter_trits [unfolded T5B1_enc_simps])
qed

interpretation TailTransactionHash: codec TailTransactionHash_packed_len TailTransactionHash_pack
    TailTransactionHash_unpack TailTransactionHash_valid
proof unfold_locales
  fix x c rest
  let ?b = "TailTransactionHash_buf x"
  assume "TailTransactionHash_valid x"
  then have b: "packed_buf_inv 5 121 ?b" "buf_len ?b = 243"
    and canon: "Trits_to_buf T5B1 (packed_make 3 5 (buf_bytes ?b) 0 243) = ?b"
    by (auto simp: TailTransactionHash_valid_def Let_def T5B1_enc_simps packed_buf_as_slice_def)
  then have len: "length (buf_bytes ?b) = TAIL_TRANSACTION_HASH_LEN"
    and v: "list_all (packed_is_valid 121) (buf_bytes ?b)"
    by (auto simp: packed_buf_inv_def TAIL_TRANSACTION_HASH_LEN_def)
  then show "length (TailTransactionHash_pack x) = TailTransactionHash_packed_len x"
    using b by (simp add: TailTransactionHash_pack_def TailTransactionHash_as_ref_eq
        TailTransactionHash_packed_len_def)
  show "TailTransactionHash_unpack c (TailTransactionHash_pack x @ rest) = Inr (x, rest)"
    using b canon len v
    by (simp add: TailTransactionHash_pack_def TailTransactionHash_as_ref_eq
        TailTransactionHash_unpack_def bindP_Inr_iff array_read_Inr_iff TailTransactionHash_new_eq)
next
  fix bs x rest
  assume "TailTransactionHash_unpack True bs = Inr (x, rest)"
  then show "TailTransactionHash_valid x"
    by (auto simp: TailTransactionHash_unpack_def bindP_Inr_iff array_read_Inr_iff
        TailTransactionHash_new_eq packed_len_def split: if_splits intro!: Trits_to_buf_valid)
next
  fix bs x rest c
  assume "TailTransactionHash_unpack c bs = Inr (x, rest)"
  then show "TailTransactionHash_packed_len x \<le> length bs \<and>
      rest = drop (TailTransactionHash_packed_len x) bs"
    by (auto simp: TailTransactionHash_unpack_def TailTransactionHash_packed_len_def bindP_Inr_iff
        array_read_Inr_iff)
qed

section \<open>Migrated funds entries\<close>

definition VALID_MIGRATED_FUNDS_ENTRY_AMOUNTS :: "u64 \<Rightarrow> bool" where
  "VALID_MIGRATED_FUNDS_ENTRY_AMOUNTS amount \<longleftrightarrow> DUST_THRESHOLD \<le> amount \<and> amount \<le> IOTA_SUPPLY"

record MigratedFundsEntry =
  MigratedFundsEntry_tail_transaction_hash :: TailTransactionHash
  MigratedFundsEntry_output :: SignatureLockedSingleOutput

definition MigratedFundsEntry_new ::
  "TailTransactionHash \<Rightarrow> SignatureLockedSingleOutput \<Rightarrow> Error + MigratedFundsEntry" where
  "MigratedFundsEntry_new tail_transaction_hash output =
     bindR (requireR (VALID_MIGRATED_FUNDS_ENTRY_AMOUNTS (SignatureLockedSingleOutput_amount output))
       (InvalidMigratedFundsEntryAmount (SignatureLockedSingleOutput_amount output))) (\<lambda>_.
     Inr \<lparr>MigratedFundsEntry_tail_transaction_hash = tail_transaction_hash,
       MigratedFundsEntry_output = output\<rparr>)"

definition MigratedFundsEntry_packed_len :: "MigratedFundsEntry \<Rightarrow> nat" where
  "MigratedFundsEntry_packed_len x =
     TailTransactionHash_packed_len (MigratedFundsEntry_tail_transaction_hash x) +
     SignatureLockedSingleOutput_packed_len (MigratedFundsEntry_output x)"

definition MigratedFundsEntry_pack :: "MigratedFundsEntry \<Rightarrow> byte list" where
  "MigratedFundsEntry_pack x =
     TailTransactionHash_pack (MigratedFundsEntry_tail_transaction_hash x) @
     SignatureLockedSingleOutput_pack (MigratedFundsEntry_output x)"

definition MigratedFundsEntry_unpack :: "bool \<Rightarrow> (Error, MigratedFundsEntry) reader" where
  "MigratedFundsEntry_unpack check =
     bindP (TailTransactionHash_unpack check) (\<lambda>tail_transaction_hash.
     bindP (SignatureLockedSingleOutput_unpack check) (\<lambda>output.
     liftP (MigratedFundsEntry_new tail_transaction_hash output)))"

definition MigratedFundsEntry_valid :: "MigratedFundsEntry \<Rightarrow> bool" where
  "MigratedFundsEntry_valid x \<longleftrightarrow>
     TailTransactionHash_valid (MigratedFundsEntry_tail_transaction_hash x) \<and>
     SignatureLockedSingleOutput_valid (MigratedFundsEntry_output x) \<and>
     VALID_MIGRATED_FUNDS_ENTRY_AMOUNTS
       (SignatureLockedSingleOutput_amount (MigratedFundsEntry_output x))"

lemma MigratedFundsEntry_new_Inr_iff:
  "MigratedFundsEntry_new h out = Inr x \<longleftrightarrow>
     VALID_MIGRATED_FUNDS_ENTRY_AMOUNTS (SignatureLockedSingleOutput_amount out) \<and>
     x = \<lparr>MigratedFundsEntry_tail_transaction_hash = h, MigratedFundsEntry_output = out\<rparr>"
  by (auto simp: MigratedFundsEntry_new_def bindR_Inr_iff)

interpretation MigratedFundsEntry: codec MigratedFundsEntry_packed_len MigratedFundsEntry_pack
    MigratedFundsEntry_unpack MigratedFundsEntry_valid
  by (rule via_codec [OF seq_codec [OF TailTransactionHash.codec_axioms
        SignatureLockedSingleOutput.codec_axioms], where
        get = "\<lambda>x. (MigratedFundsEntry_tail_transaction_hash x, MigratedFundsEntry_output x)" and
        make = "\<lambda>(h, out). MigratedFundsEntry_new h out"])
    (auto simp: MigratedFundsEntry_packed_len_def MigratedFundsEntry_pack_def
      MigratedFundsEntry_unpack_def MigratedFundsEntry_valid_def MigratedFundsEntry_new_Inr_iff)

end
