(* ===== verification/Payload_Types.thy ===== *)
theory Payload_Types
  imports Unlock Parents_Model Indexation Treasury Migrated_Funds
begin

text \<open>
  The payload types of bee-message, which contain one another (payload/mod.rs and its submodules),
  their kinds, their packed lengths and their packed forms. A payload inside another one is packed
  behind its length, or as a zero length when it is absent (\<open>option_payload_pack\<close>).
\<close>

section \<open>Types\<close>

datatype (plugins only: code size) Payload =
    Payload_Transaction TransactionPayload
  | Payload_Milestone MilestonePayload
  | Payload_Indexation IndexationPayload
  | Payload_Receipt ReceiptPayload
  | Payload_TreasuryTransaction TreasuryTransactionPayload
and TransactionPayload = TransactionPayload
    (TransactionPayload_essence: Essence)
    (TransactionPayload_unlock_blocks: UnlockBlocks)
and Essence = Essence_Regular RegularEssence
and RegularEssence = RegularEssence
    (RegularEssence_inputs: "Input list")
    (RegularEssence_outputs: "Output list")
    (RegularEssence_payload: "Payload option")
and MilestonePayload = MilestonePayload
    (MilestonePayload_essence: MilestonePayloadEssence)
    (MilestonePayload_signatures: "byte list list")
and MilestonePayloadEssence = MilestonePayloadEssence
    (MilestonePayloadEssence_index: MilestoneIndex)
    (MilestonePayloadEssence_timestamp: u64)
    (MilestonePayloadEssence_parents: Parents)
    (MilestonePayloadEssence_merkle_proof: "byte list")
    (MilestonePayloadEssence_next_pow_score: u32)
    (MilestonePayloadEssence_next_pow_score_milestone_index: u32)
    (MilestonePayloadEssence_public_keys: "byte list list")
    (MilestonePayloadEssence_receipt: "Payload option")
and ReceiptPayload = ReceiptPayload
    (ReceiptPayload_migrated_at: MilestoneIndex)
    (ReceiptPayload_last: bool)
    (ReceiptPayload_funds: "MigratedFundsEntry list")
    (ReceiptPayload_transaction: Payload)

section \<open>Kinds and constants\<close>

definition TransactionPayload_KIND :: u32 where
  "TransactionPayload_KIND = 0"

definition MilestonePayload_KIND :: u32 where
  "MilestonePayload_KIND = 1"

definition ReceiptPayload_KIND :: u32 where
  "ReceiptPayload_KIND = 3"

definition RegularEssence_KIND :: u8 where
  "RegularEssence_KIND = 0"

lemmas Payload_KIND_defs = TransactionPayload_KIND_def MilestonePayload_KIND_def
  IndexationPayload_KIND_def ReceiptPayload_KIND_def TreasuryTransactionPayload_KIND_def

fun Payload_kind :: "Payload \<Rightarrow> u32" where
  "Payload_kind (Payload_Transaction _) = TransactionPayload_KIND"
| "Payload_kind (Payload_Milestone _) = MilestonePayload_KIND"
| "Payload_kind (Payload_Indexation _) = IndexationPayload_KIND"
| "Payload_kind (Payload_Receipt _) = ReceiptPayload_KIND"
| "Payload_kind (Payload_TreasuryTransaction _) = TreasuryTransactionPayload_KIND"

definition MILESTONE_SIGNATURE_COUNT_RANGE :: "nat \<Rightarrow> bool" where
  "MILESTONE_SIGNATURE_COUNT_RANGE n \<longleftrightarrow> 1 \<le> n \<and> n \<le> 255"

definition MILESTONE_SIGNATURE_LENGTH :: nat where
  "MILESTONE_SIGNATURE_LENGTH = 64"

definition MILESTONE_PUBLIC_KEY_COUNT_RANGE :: "nat \<Rightarrow> bool" where
  "MILESTONE_PUBLIC_KEY_COUNT_RANGE n \<longleftrightarrow> 1 \<le> n \<and> n \<le> 255"

definition MILESTONE_MERKLE_PROOF_LENGTH :: nat where
  "MILESTONE_MERKLE_PROOF_LENGTH = 32"

definition MILESTONE_PUBLIC_KEY_LENGTH :: nat where
  "MILESTONE_PUBLIC_KEY_LENGTH = 32"

definition MIGRATED_FUNDS_ENTRY_RANGE :: "nat \<Rightarrow> bool" where
  "MIGRATED_FUNDS_ENTRY_RANGE = INPUT_OUTPUT_COUNT_RANGE"

section \<open>Packed lengths\<close>

definition option_payload_packed_len :: "(Payload \<Rightarrow> nat) \<Rightarrow> Payload option \<Rightarrow> nat" where
  "option_payload_packed_len plen payload =
     num_packed_len (0 :: u32) + (case payload of None \<Rightarrow> 0 | Some p \<Rightarrow> plen p)"

lemma option_payload_packed_len_cong [fundef_cong]:
  "p = q \<Longrightarrow> (\<And>x. q = Some x \<Longrightarrow> f x = g x) \<Longrightarrow>
     option_payload_packed_len f p = option_payload_packed_len g q"
  by (auto simp: option_payload_packed_len_def split: option.splits)

fun Payload_packed_len :: "Payload \<Rightarrow> nat"
and TransactionPayload_packed_len :: "TransactionPayload \<Rightarrow> nat"
and Essence_packed_len :: "Essence \<Rightarrow> nat"
and RegularEssence_packed_len :: "RegularEssence \<Rightarrow> nat"
and MilestonePayload_packed_len :: "MilestonePayload \<Rightarrow> nat"
and MilestonePayloadEssence_packed_len :: "MilestonePayloadEssence \<Rightarrow> nat"
and ReceiptPayload_packed_len :: "ReceiptPayload \<Rightarrow> nat"
where
  "Payload_packed_len (Payload_Transaction payload) =
     num_packed_len TransactionPayload_KIND + TransactionPayload_packed_len payload"
| "Payload_packed_len (Payload_Milestone payload) =
     num_packed_len MilestonePayload_KIND + MilestonePayload_packed_len payload"
| "Payload_packed_len (Payload_Indexation payload) =
     num_packed_len IndexationPayload_KIND + IndexationPayload_packed_len payload"
| "Payload_packed_len (Payload_Receipt payload) =
     num_packed_len ReceiptPayload_KIND + ReceiptPayload_packed_len payload"
| "Payload_packed_len (Payload_TreasuryTransaction payload) =
     num_packed_len TreasuryTransactionPayload_KIND + TreasuryTransactionPayload_packed_len payload"
| "TransactionPayload_packed_len (TransactionPayload essence unlock_blocks) =
     Essence_packed_len essence + UnlockBlocks_packed_len unlock_blocks"
| "Essence_packed_len (Essence_Regular essence) =
     num_packed_len RegularEssence_KIND + RegularEssence_packed_len essence"
| "RegularEssence_packed_len (RegularEssence inputs outputs payload) =
     num_packed_len (0 :: u16) + sum_list (map Input_packed_len inputs) +
     num_packed_len (0 :: u16) + sum_list (map Output_packed_len outputs) +
     option_payload_packed_len Payload_packed_len payload"
| "MilestonePayload_packed_len (MilestonePayload essence signatures) =
     MilestonePayloadEssence_packed_len essence + num_packed_len (0 :: u8) +
     length signatures * MILESTONE_SIGNATURE_LENGTH"
| "MilestonePayloadEssence_packed_len (MilestonePayloadEssence index timestamp parents merkle_proof
       next_pow_score next_pow_score_milestone_index public_keys receipt) =
     MilestoneIndex_packed_len index + num_packed_len timestamp + Parents_packed_len parents +
     MILESTONE_MERKLE_PROOF_LENGTH + num_packed_len next_pow_score +
     num_packed_len next_pow_score_milestone_index + num_packed_len (0 :: u8) +
     length public_keys * MILESTONE_PUBLIC_KEY_LENGTH +
     option_payload_packed_len Payload_packed_len receipt"
| "ReceiptPayload_packed_len (ReceiptPayload migrated_at is_last funds transaction) =
     MilestoneIndex_packed_len migrated_at + bool_packed_len is_last + num_packed_len (0 :: u16) +
     sum_list (map MigratedFundsEntry_packed_len funds) +
     option_payload_packed_len Payload_packed_len (Some transaction)"

section \<open>Packed forms\<close>

definition option_payload_pack :: "(Payload \<Rightarrow> byte list) \<Rightarrow> Payload option \<Rightarrow> byte list" where
  "option_payload_pack pack payload =
     (case payload of
       Some p \<Rightarrow> num_pack (word_of_nat (Payload_packed_len p) :: u32) @ pack p
     | None \<Rightarrow> num_pack (0 :: u32))"

lemma option_payload_pack_cong [fundef_cong]:
  "p = q \<Longrightarrow> (\<And>x. q = Some x \<Longrightarrow> f x = g x) \<Longrightarrow> option_payload_pack f p = option_payload_pack g q"
  by (auto simp: option_payload_pack_def split: option.splits)

fun Payload_pack :: "Payload \<Rightarrow> byte list"
and TransactionPayload_pack :: "TransactionPayload \<Rightarrow> byte list"
and Essence_pack :: "Essence \<Rightarrow> byte list"
and RegularEssence_pack :: "RegularEssence \<Rightarrow> byte list"
and MilestonePayload_pack :: "MilestonePayload \<Rightarrow> byte list"
and MilestonePayloadEssence_pack :: "MilestonePayloadEssence \<Rightarrow> byte list"
and ReceiptPayload_pack :: "ReceiptPayload \<Rightarrow> byte list"
where
  "Payload_pack (Payload_Transaction payload) =
     num_pack TransactionPayload_KIND @ TransactionPayload_pack payload"
| "Payload_pack (Payload_Milestone payload) =
     num_pack MilestonePayload_KIND @ MilestonePayload_pack payload"
| "Payload_pack (Payload_Indexation payload) =
     num_pack IndexationPayload_KIND @ IndexationPayload_pack payload"
| "Payload_pack (Payload_Receipt payload) =
     num_pack ReceiptPayload_KIND @ ReceiptPayload_pack payload"
| "Payload_pack (Payload_TreasuryTransaction payload) =
     num_pack TreasuryTransactionPayload_KIND @ TreasuryTransactionPayload_pack payload"
| "TransactionPayload_pack (TransactionPayload essence unlock_blocks) =
     Essence_pack essence @ UnlockBlocks_pack unlock_blocks"
| "Essence_pack (Essence_Regular essence) = num_pack RegularEssence_KIND @ RegularEssence_pack essence"
| "RegularEssence_pack (RegularEssence inputs outputs payload) =
     num_pack (word_of_nat (length inputs) :: u16) @ concat (map Input_pack inputs) @
     num_pack (word_of_nat (length outputs) :: u16) @ concat (map Output_pack outputs) @
     option_payload_pack Payload_pack payload"
| "MilestonePayload_pack (MilestonePayload essence signatures) =
     MilestonePayloadEssence_pack essence @
     num_pack (word_of_nat (length signatures) :: u8) @ concat signatures"
| "MilestonePayloadEssence_pack (MilestonePayloadEssence index timestamp parents merkle_proof
       next_pow_score next_pow_score_milestone_index public_keys receipt) =
     MilestoneIndex_pack index @ num_pack timestamp @ Parents_pack parents @
     array_pack merkle_proof @ num_pack next_pow_score @ num_pack next_pow_score_milestone_index @
     num_pack (word_of_nat (length public_keys) :: u8) @ concat (map array_pack public_keys) @
     option_payload_pack Payload_pack receipt"
| "ReceiptPayload_pack (ReceiptPayload migrated_at is_last funds transaction) =
     MilestoneIndex_pack migrated_at @ bool_pack is_last @
     num_pack (word_of_nat (length funds) :: u16) @ concat (map MigratedFundsEntry_pack funds) @
     option_payload_pack Payload_pack (Some transaction)"

end
