(* ===== verification/Transaction.thy ===== *)
theory Transaction
  imports Payload_Types
begin

text \<open>
  The transaction payload of bee-message: the regular essence with the syntactic checks of its
  builder (payload/transaction/essence/regular.rs), the essence enum
  (payload/transaction/essence/mod.rs) and the payload with its builder
  (payload/transaction/mod.rs), and the reader of an optional payload (payload/mod.rs). The reader
  for payloads is a parameter of the readers below; \<open>Payload_Reader\<close> closes the recursion.
\<close>

section \<open>Optional payloads\<close>

definition option_payload_unpack ::
  "(bool \<Rightarrow> (Error, Payload) reader) \<Rightarrow> bool \<Rightarrow> (Error, nat \<times> Payload option) reader" where
  "option_payload_unpack payload_unpack check =
     bindP (num_read check) (\<lambda>payload_len :: u32.
       if unat payload_len > 0
       then bindP (payload_unpack check) (\<lambda>payload.
         if unat payload_len \<noteq> Payload_packed_len payload
         then failP (InvalidPayloadLength (unat payload_len) (Payload_packed_len payload))
         else returnP (unat payload_len, Some payload))
       else returnP (0, None))"

definition payload_len_of :: "Payload option \<Rightarrow> nat" where
  "payload_len_of p = (case p of None \<Rightarrow> 0 | Some q \<Rightarrow> Payload_packed_len q)"

definition option_payload_ok :: "(Payload \<Rightarrow> bool) \<Rightarrow> Payload option \<Rightarrow> bool" where
  "option_payload_ok v p =
     (case p of None \<Rightarrow> True | Some q \<Rightarrow> v q \<and> Payload_packed_len q < 2 ^ 32)"

lemma Payload_packed_len_pos: "0 < Payload_packed_len p"
  by (cases p) simp_all

lemma option_payload_unpack_Inr_iff:
  "option_payload_unpack u c bs = Inr ((n, p), rest) \<longleftrightarrow>
     (\<exists>len :: u32. \<exists>r. num_read c bs = Inr (len, r) \<and> n = unat len \<and>
       (len = 0 \<and> p = None \<and> rest = r \<or>
        len \<noteq> 0 \<and> (\<exists>q. p = Some q \<and> u c r = Inr (q, rest) \<and> unat len = Payload_packed_len q)))"
  by (cases "num_read c bs :: Error + u32 \<times> byte list")
    (auto simp: option_payload_unpack_def bindP_def unat_gt_0 split: if_splits sum.splits)

lemma option_payload_codec:
  assumes "codec Payload_packed_len Payload_pack u v"
  shows "codec (\<lambda>x. option_payload_packed_len Payload_packed_len (snd x))
    (\<lambda>x. option_payload_pack Payload_pack (snd x)) (option_payload_unpack u)
    (\<lambda>x. fst x = payload_len_of (snd x) \<and> option_payload_ok v (snd x))" (is "codec ?l ?p ?u ?v")
proof unfold_locales
  fix x c rest
  assume v: "?v x"
  have "length (?p x) = ?l x \<and> ?u c (?p x @ rest) = Inr (x, rest)"
  proof (cases "snd x")
    case None
    with v show ?thesis
      by (cases x) (simp add: option_payload_pack_def option_payload_packed_len_def payload_len_of_def
          option_payload_unpack_def codec_run codec_len)
  next
    case (Some q)
    with v have q: "v q" "Payload_packed_len q < 2 ^ 32" "fst x = Payload_packed_len q"
      by (auto simp: payload_len_of_def option_payload_ok_def)
    then have "unat (word_of_nat (Payload_packed_len q) :: u32) = Payload_packed_len q"
      by (simp add: unat_of_nat)
    with Some q show ?thesis
      using Payload_packed_len_pos [of q]
      by (cases x) (simp add: option_payload_pack_def option_payload_packed_len_def
          option_payload_unpack_def codec_run codec_len codec.length_pack [OF assms]
          codec.bind_unpack [OF assms])
  qed
  then show "length (?p x) = ?l x" and "?u c (?p x @ rest) = Inr (x, rest)" by auto
next
  fix bs x rest
  assume "?u True bs = Inr (x, rest)"
  then obtain len :: u32 and p r where x: "x = (unat len, p)"
    and p: "len = 0 \<and> p = None \<or>
      (\<exists>q. p = Some q \<and> u True r = Inr (q, rest) \<and> unat len = Payload_packed_len q)"
    by (cases x) (auto simp: option_payload_unpack_Inr_iff)
  from p show "?v x"
  proof (elim disjE exE conjE)
    fix q assume q: "p = Some q" "u True r = Inr (q, rest)" "unat len = Payload_packed_len q"
    then have "v q" using codec.unpack_valid [OF assms] by blast
    with q x unat_less_pow [of len] show ?thesis
      by (simp add: payload_len_of_def option_payload_ok_def)
  qed (simp add: x payload_len_of_def option_payload_ok_def)
next
  fix bs x rest c
  assume "?u c bs = Inr (x, rest)"
  then show "?l x \<le> length bs \<and> rest = drop (?l x) bs"
    by (cases x) (auto simp: option_payload_unpack_Inr_iff option_payload_packed_len_def add.commute
        split: if_splits dest!: codec.unpack_rest [OF assms] ru32.unpack_rest)
qed

section \<open>Regular essence\<close>

record RegularEssenceBuilder =
  RegularEssenceBuilder_inputs :: "Input list"
  RegularEssenceBuilder_outputs :: "Output list"
  RegularEssenceBuilder_payload :: "Payload option"

definition RegularEssenceBuilder_new :: RegularEssenceBuilder where
  "RegularEssenceBuilder_new = \<lparr>RegularEssenceBuilder_inputs = [], RegularEssenceBuilder_outputs = [],
     RegularEssenceBuilder_payload = None\<rparr>"

definition RegularEssenceBuilder_with_inputs ::
  "Input list \<Rightarrow> RegularEssenceBuilder \<Rightarrow> RegularEssenceBuilder" where
  "RegularEssenceBuilder_with_inputs inputs self = self\<lparr>RegularEssenceBuilder_inputs := inputs\<rparr>"

definition RegularEssenceBuilder_add_input ::
  "Input \<Rightarrow> RegularEssenceBuilder \<Rightarrow> RegularEssenceBuilder" where
  "RegularEssenceBuilder_add_input input self =
     self\<lparr>RegularEssenceBuilder_inputs := RegularEssenceBuilder_inputs self @ [input]\<rparr>"

definition RegularEssenceBuilder_with_outputs ::
  "Output list \<Rightarrow> RegularEssenceBuilder \<Rightarrow> RegularEssenceBuilder" where
  "RegularEssenceBuilder_with_outputs outputs self = self\<lparr>RegularEssenceBuilder_outputs := outputs\<rparr>"

definition RegularEssenceBuilder_add_output ::
  "Output \<Rightarrow> RegularEssenceBuilder \<Rightarrow> RegularEssenceBuilder" where
  "RegularEssenceBuilder_add_output output self =
     self\<lparr>RegularEssenceBuilder_outputs := RegularEssenceBuilder_outputs self @ [output]\<rparr>"

definition RegularEssenceBuilder_with_payload ::
  "Payload \<Rightarrow> RegularEssenceBuilder \<Rightarrow> RegularEssenceBuilder" where
  "RegularEssenceBuilder_with_payload payload self = self\<lparr>RegularEssenceBuilder_payload := Some payload\<rparr>"

text \<open>The two loops of \<open>finish\<close>, over all inputs and over all outputs of the builder.\<close>

fun check_inputs :: "Input list \<Rightarrow> Input list \<Rightarrow> Error + unit" where
  "check_inputs inputs [] = Inr ()"
| "check_inputs inputs (input # rest) =
     (case input of
       Input_Utxo u \<Rightarrow>
         bindR (requireR (\<not> length (filter (\<lambda>i. i = input) inputs) > 1) (DuplicateUtxo u)) (\<lambda>_.
         check_inputs inputs rest)
     | _ \<Rightarrow> Inl (InvalidInputKind (Input_kind input)))"

fun single_at :: "Address \<Rightarrow> Output \<Rightarrow> bool" where
  "single_at a (Output_SignatureLockedSingle s) = (SignatureLockedSingleOutput_address s = a)"
| "single_at a _ = False"

fun dust_allowance_at :: "Address \<Rightarrow> Output \<Rightarrow> bool" where
  "dust_allowance_at a (Output_SignatureLockedDustAllowance s) =
     (SignatureLockedDustAllowanceOutput_address s = a)"
| "dust_allowance_at a _ = False"

definition check_supply :: "u64 \<Rightarrow> Error + unit" where
  "check_supply tot = requireR (\<not> tot > IOTA_SUPPLY) (InvalidAccumulatedOutput (unat tot))"

fun check_outputs :: "Output list \<Rightarrow> u64 \<Rightarrow> Output list \<Rightarrow> Error + u64" where
  "check_outputs outputs tot [] = Inr tot"
| "check_outputs outputs tot (output # rest) =
     bindR
       (case output of
         Output_SignatureLockedSingle single \<Rightarrow>
           bindR (requireR
             (\<not> length (filter (single_at (SignatureLockedSingleOutput_address single)) outputs) > 1)
             (DuplicateAddress (SignatureLockedSingleOutput_address single))) (\<lambda>_.
           ok_or (InvalidAccumulatedOutput (unat (tot + SignatureLockedSingleOutput_amount single)))
             (checked_add_u64 tot (SignatureLockedSingleOutput_amount single)))
       | Output_SignatureLockedDustAllowance dust_allowance \<Rightarrow>
           bindR (requireR
             (\<not> length (filter
               (dust_allowance_at (SignatureLockedDustAllowanceOutput_address dust_allowance)) outputs) > 1)
             (DuplicateAddress (SignatureLockedDustAllowanceOutput_address dust_allowance))) (\<lambda>_.
           ok_or (InvalidAccumulatedOutput
               (unat tot + unat (SignatureLockedDustAllowanceOutput_amount dust_allowance)))
             (checked_add_u64 tot (SignatureLockedDustAllowanceOutput_amount dust_allowance)))
       | _ \<Rightarrow> Inl (InvalidOutputKind (Output_kind output)))
       (\<lambda>tot. bindR (check_supply tot) (\<lambda>_. check_outputs outputs tot rest))"

fun essence_payload_ok :: "Payload option \<Rightarrow> bool" where
  "essence_payload_ok None = True"
| "essence_payload_ok (Some (Payload_Indexation _)) = True"
| "essence_payload_ok _ = False"

definition RegularEssenceBuilder_finish ::
  "deps \<Rightarrow> RegularEssenceBuilder \<Rightarrow> Error + RegularEssence" where
  "RegularEssenceBuilder_finish d self =
     (let inputs = RegularEssenceBuilder_inputs self;
          outputs = RegularEssenceBuilder_outputs self;
          payload = RegularEssenceBuilder_payload self
      in
      bindR (requireR (INPUT_OUTPUT_COUNT_RANGE (length inputs))
        (InvalidInputOutputCount (length inputs))) (\<lambda>_.
      bindR (requireR (INPUT_OUTPUT_COUNT_RANGE (length outputs))
        (InvalidInputOutputCount (length outputs))) (\<lambda>_.
      bindR (requireR (essence_payload_ok payload) (InvalidPayloadKind (Payload_kind (the payload)))) (\<lambda>_.
      bindR (check_inputs inputs inputs) (\<lambda>_.
      bindR (requireR (is_sorted d (map Input_pack inputs)) TransactionInputsNotSorted) (\<lambda>_.
      bindR (check_outputs outputs 0 outputs) (\<lambda>tot.
      bindR (requireR (is_sorted d (map Output_pack outputs)) TransactionOutputsNotSorted) (\<lambda>_.
      Inr (RegularEssence inputs outputs payload)))))))))"

definition RegularEssence_unpack ::
  "deps \<Rightarrow> (bool \<Rightarrow> (Error, Payload) reader) \<Rightarrow> bool \<Rightarrow> (Error, RegularEssence) reader" where
  "RegularEssence_unpack d payload_unpack check =
     bindP (num_read check) (\<lambda>inputs_len :: u16.
     bindP (requireP (check \<longrightarrow> INPUT_OUTPUT_COUNT_RANGE (unat inputs_len))
       (InvalidInputOutputCount (unat inputs_len))) (\<lambda>_.
     bindP (repeatP (unat inputs_len) (Input_unpack check)) (\<lambda>inputs.
     bindP (num_read check) (\<lambda>outputs_len :: u16.
     bindP (requireP (check \<longrightarrow> INPUT_OUTPUT_COUNT_RANGE (unat outputs_len))
       (InvalidInputOutputCount (unat outputs_len))) (\<lambda>_.
     bindP (repeatP (unat outputs_len) (Output_unpack check)) (\<lambda>outputs.
     let builder = RegularEssenceBuilder_with_outputs outputs
       (RegularEssenceBuilder_with_inputs inputs RegularEssenceBuilder_new)
     in bindP (option_payload_unpack payload_unpack check) (\<lambda>(_, p).
     let builder = (case p of
       Some payload \<Rightarrow> RegularEssenceBuilder_with_payload payload builder
     | None \<Rightarrow> builder)
     in liftP (RegularEssenceBuilder_finish d builder))))))))"

section \<open>What the builder accepts\<close>

definition is_utxo_input :: "Input \<Rightarrow> bool" where
  "is_utxo_input x = (case x of Input_Utxo _ \<Rightarrow> True | _ \<Rightarrow> False)"

fun Output_amount :: "Output \<Rightarrow> u64" where
  "Output_amount (Output_SignatureLockedSingle x) = SignatureLockedSingleOutput_amount x"
| "Output_amount (Output_SignatureLockedDustAllowance x) = SignatureLockedDustAllowanceOutput_amount x"
| "Output_amount (Output_Treasury x) = TreasuryOutput_amount x"

fun single_address :: "Output \<Rightarrow> Address option" where
  "single_address (Output_SignatureLockedSingle x) = Some (SignatureLockedSingleOutput_address x)"
| "single_address _ = None"

fun dust_allowance_address :: "Output \<Rightarrow> Address option" where
  "dust_allowance_address (Output_SignatureLockedDustAllowance x) =
     Some (SignatureLockedDustAllowanceOutput_address x)"
| "dust_allowance_address _ = None"

definition outputs_total :: "Output list \<Rightarrow> nat" where
  "outputs_total outputs = sum_list (map (\<lambda>x. unat (Output_amount x)) outputs)"

text \<open>A syntactically valid essence, stated without the loops.\<close>

definition RegularEssence_wf :: "deps \<Rightarrow> Input list \<Rightarrow> Output list \<Rightarrow> Payload option \<Rightarrow> bool" where
  "RegularEssence_wf d inputs outputs payload \<longleftrightarrow>
     INPUT_OUTPUT_COUNT_RANGE (length inputs) \<and> INPUT_OUTPUT_COUNT_RANGE (length outputs) \<and>
     essence_payload_ok payload \<and>
     list_all is_utxo_input inputs \<and> distinct inputs \<and> is_sorted d (map Input_pack inputs) \<and>
     list_all (\<lambda>x. \<not> is_treasury_output x) outputs \<and>
     distinct (List.map_filter single_address outputs) \<and>
     distinct (List.map_filter dust_allowance_address outputs) \<and>
     outputs_total outputs \<le> unat IOTA_SUPPLY \<and> is_sorted d (map Output_pack outputs)"

lemma single_at_eq: "single_at a = (\<lambda>x. single_address x = Some a)"
proof
  show "single_at a x = (single_address x = Some a)" for x by (cases x) auto
qed

lemma dust_allowance_at_eq: "dust_allowance_at a = (\<lambda>x. dust_allowance_address x = Some a)"
proof
  show "dust_allowance_at a x = (dust_allowance_address x = Some a)" for x by (cases x) auto
qed

lemma check_inputs_Inr_iff:
  "check_inputs inputs xs = Inr u \<longleftrightarrow>
     (\<forall>x\<in>set xs. is_utxo_input x \<and> length (filter (\<lambda>i. i = x) inputs) \<le> 1)"
  by (induction xs) (auto simp: is_utxo_input_def bindR_Inr_iff split: Input.splits)

definition output_ok :: "Output list \<Rightarrow> Output \<Rightarrow> bool" where
  "output_ok outputs x \<longleftrightarrow> \<not> is_treasury_output x \<and>
     (\<forall>a. single_address x = Some a \<longrightarrow>
        length (filter (\<lambda>y. single_address y = Some a) outputs) \<le> 1) \<and>
     (\<forall>a. dust_allowance_address x = Some a \<longrightarrow>
        length (filter (\<lambda>y. dust_allowance_address y = Some a) outputs) \<le> 1)"

text \<open>One round of the loop over the outputs: the total stays a sum of amounts below the supply.\<close>

lemma supply_step:
  assumes "unat tot \<le> unat IOTA_SUPPLY"
  shows "bindR (ok_or e (checked_add_u64 tot a)) (\<lambda>t. bindR (check_supply t) (\<lambda>_. f t)) = Inr r \<longleftrightarrow>
    unat tot + unat a \<le> unat IOTA_SUPPLY \<and> f (tot + a) = Inr r"
proof (cases "unat tot + unat a < 2 ^ 64")
  case True
  then have "unat (tot + a) = unat tot + unat a"
    by (simp add: unat_word_ariths)
  with True show ?thesis
    by (simp add: checked_add_u64_def check_supply_def bindR_Inr_iff not_less word_le_nat_alt)
next
  case False
  then show ?thesis by (simp add: checked_add_u64_def IOTA_SUPPLY_def)
qed

lemma bindR_requireR: "bindR (requireR b e) f = (if b then f () else Inl e)"
  by (simp add: requireR_def)

lemma check_outputs_Cons:
  assumes "unat tot \<le> unat IOTA_SUPPLY"
  shows "check_outputs outputs tot (x # xs) = Inr t \<longleftrightarrow>
    output_ok outputs x \<and> unat tot + unat (Output_amount x) \<le> unat IOTA_SUPPLY \<and>
    check_outputs outputs (tot + Output_amount x) xs = Inr t"
  by (cases x) (auto simp: output_ok_def is_treasury_output_def single_at_eq dust_allowance_at_eq
      supply_step [OF assms] bindR_requireR not_less)

lemma check_outputs_Inr_iff:
  assumes "unat tot \<le> unat IOTA_SUPPLY"
  shows "(\<exists>t. check_outputs outputs tot xs = Inr t) \<longleftrightarrow>
    list_all (output_ok outputs) xs \<and> unat tot + outputs_total xs \<le> unat IOTA_SUPPLY"
  using assms
proof (induction xs arbitrary: tot)
  case Nil
  then show ?case by (simp add: outputs_total_def)
next
  case (Cons x xs)
  show ?case
  proof (cases "unat tot + unat (Output_amount x) \<le> unat IOTA_SUPPLY")
    case True
    then have "unat (tot + Output_amount x) = unat tot + unat (Output_amount x)"
      by (simp add: unat_word_ariths IOTA_SUPPLY_def)
    with True Cons.IH [of "tot + Output_amount x"] show ?thesis
      by (auto simp: check_outputs_Cons [OF Cons.prems] outputs_total_def
          simp del: check_outputs.simps(2))
  next
    case False
    then show ?thesis
      by (auto simp: check_outputs_Cons [OF Cons.prems] outputs_total_def
          simp del: check_outputs.simps(2))
  qed
qed

lemma list_all_output_ok:
  "list_all (output_ok xs) xs \<longleftrightarrow>
     list_all (\<lambda>x. \<not> is_treasury_output x) xs \<and>
     distinct (List.map_filter single_address xs) \<and>
     distinct (List.map_filter dust_allowance_address xs)"
  by (auto simp: output_ok_def list_all_iff distinct_map_filter_iff)

text \<open>\<open>finish\<close> accepts exactly the well-formed essences.\<close>

lemma RegularEssenceBuilder_finish_Inr_iff:
  "RegularEssenceBuilder_finish d b = Inr e \<longleftrightarrow>
     RegularEssence_wf d (RegularEssenceBuilder_inputs b) (RegularEssenceBuilder_outputs b)
       (RegularEssenceBuilder_payload b) \<and>
     e = RegularEssence (RegularEssenceBuilder_inputs b) (RegularEssenceBuilder_outputs b)
       (RegularEssenceBuilder_payload b)"
proof -
  let ?i = "RegularEssenceBuilder_inputs b" and ?o = "RegularEssenceBuilder_outputs b"
  have "check_inputs ?i ?i = Inr () \<longleftrightarrow> list_all is_utxo_input ?i \<and> distinct ?i"
    by (auto simp: check_inputs_Inr_iff distinct_filter_iff list_all_iff)
  moreover have "(\<exists>t. check_outputs ?o 0 ?o = Inr t) \<longleftrightarrow>
      list_all (\<lambda>x. \<not> is_treasury_output x) ?o \<and> distinct (List.map_filter single_address ?o) \<and>
      distinct (List.map_filter dust_allowance_address ?o) \<and> outputs_total ?o \<le> unat IOTA_SUPPLY"
    using check_outputs_Inr_iff [of 0 ?o ?o] by (simp add: list_all_output_ok)
  ultimately show ?thesis
    by (auto simp: RegularEssenceBuilder_finish_def RegularEssence_wf_def bindR_Inr_iff Let_def)
qed

definition RegularEssence_valid :: "deps \<Rightarrow> (Payload \<Rightarrow> bool) \<Rightarrow> RegularEssence \<Rightarrow> bool" where
  "RegularEssence_valid d v e \<longleftrightarrow>
     list_all Input_valid (RegularEssence_inputs e) \<and> list_all Output_valid (RegularEssence_outputs e) \<and>
     option_payload_ok v (RegularEssence_payload e) \<and>
     RegularEssence_wf d (RegularEssence_inputs e) (RegularEssence_outputs e) (RegularEssence_payload e)"

definition RegularEssence_make ::
  "deps \<Rightarrow> Input list \<times> Output list \<times> nat \<times> Payload option \<Rightarrow> Error + RegularEssence" where
  "RegularEssence_make d = (\<lambda>(inputs, outputs, _, payload).
     RegularEssenceBuilder_finish d \<lparr>RegularEssenceBuilder_inputs = inputs,
       RegularEssenceBuilder_outputs = outputs, RegularEssenceBuilder_payload = payload\<rparr>)"

lemma RegularEssence_make_Inr_iff:
  "RegularEssence_make d y = Inr e \<longleftrightarrow>
     RegularEssence_wf d (fst y) (fst (snd y)) (snd (snd (snd y))) \<and>
     e = RegularEssence (fst y) (fst (snd y)) (snd (snd (snd y)))"
  by (simp add: RegularEssence_make_def RegularEssenceBuilder_finish_Inr_iff split: prod.split)

lemma RegularEssence_builder_eq:
  "(case p of
      None \<Rightarrow> RegularEssenceBuilder_with_outputs outs
        (RegularEssenceBuilder_with_inputs ins RegularEssenceBuilder_new)
    | Some payload \<Rightarrow> RegularEssenceBuilder_with_payload payload
        (RegularEssenceBuilder_with_outputs outs
          (RegularEssenceBuilder_with_inputs ins RegularEssenceBuilder_new))) =
   \<lparr>RegularEssenceBuilder_inputs = ins, RegularEssenceBuilder_outputs = outs,
     RegularEssenceBuilder_payload = p\<rparr>"
  by (simp add: RegularEssenceBuilder_new_def RegularEssenceBuilder_with_inputs_def
      RegularEssenceBuilder_with_outputs_def RegularEssenceBuilder_with_payload_def split: option.split)

lemma RegularEssence_codec:
  assumes "codec Payload_packed_len Payload_pack u v"
  shows "codec RegularEssence_packed_len RegularEssence_pack (RegularEssence_unpack d u)
    (RegularEssence_valid d v)"
proof (rule via_codec [OF seq_codec [OF
      counted_codec [OF ru16.canonical_codec_axioms Input.codec_axioms, where
        ok = INPUT_OUTPUT_COUNT_RANGE and e = InvalidInputOutputCount]
      seq_codec [OF counted_codec [OF ru16.canonical_codec_axioms Output.codec_axioms, where
        ok = INPUT_OUTPUT_COUNT_RANGE and e = InvalidInputOutputCount]
        option_payload_codec [OF assms]]], where make = "RegularEssence_make d" and
      get = "\<lambda>e. (RegularEssence_inputs e, RegularEssence_outputs e,
        payload_len_of (RegularEssence_payload e), RegularEssence_payload e)"], goal_cases)
  case (3 c bs)
  show ?case
    by (simp add: RegularEssence_unpack_def countedP_def RegularEssence_make_def
        RegularEssence_builder_eq case_prod_unfold)
qed (auto simp: RegularEssence_make_Inr_iff RegularEssence_valid_def RegularEssence_wf_def
    INPUT_OUTPUT_COUNT_RANGE_def INPUT_OUTPUT_COUNT_MAX_def)

section \<open>Essence\<close>

fun Essence_kind :: "Essence \<Rightarrow> u8" where
  "Essence_kind (Essence_Regular _) = RegularEssence_KIND"

definition Essence_hash :: "deps \<Rightarrow> Essence \<Rightarrow> byte list" where
  "Essence_hash d self = blake2b256 d (Essence_pack self)"

definition Essence_unpack ::
  "deps \<Rightarrow> (bool \<Rightarrow> (Error, Payload) reader) \<Rightarrow> bool \<Rightarrow> (Error, Essence) reader" where
  "Essence_unpack d payload_unpack check =
     bindP (num_read check) (\<lambda>k.
       if k = RegularEssence_KIND
       then bindP (RegularEssence_unpack d payload_unpack check) (\<lambda>e. returnP (Essence_Regular e))
       else failP (InvalidEssenceKind k))"

fun Essence_valid :: "deps \<Rightarrow> (Payload \<Rightarrow> bool) \<Rightarrow> Essence \<Rightarrow> bool" where
  "Essence_valid d v (Essence_Regular e) = RegularEssence_valid d v e"

lemma Essence_codec:
  assumes "codec Payload_packed_len Payload_pack u v"
  shows "codec Essence_packed_len Essence_pack (Essence_unpack d u) (Essence_valid d v)"
proof -
  note c = RegularEssence_codec [OF assms, of d]
  show ?thesis
    by unfold_locales
      ((auto simp: Essence_unpack_def codec_run codec_len codec.length_pack [OF c]
          codec.bind_unpack [OF c] elim!: Essence_valid.elims)[2],
        auto simp: Essence_unpack_def bindP_Inr_iff add.commute split: if_splits
          dest!: codec.unpack_drop [OF c] ru8.unpack_dest)
qed

section \<open>Transaction payload\<close>

record TransactionPayloadBuilder =
  TransactionPayloadBuilder_essence :: "Essence option"
  TransactionPayloadBuilder_unlock_blocks :: "UnlockBlocks option"

definition TransactionPayloadBuilder_new :: TransactionPayloadBuilder where
  "TransactionPayloadBuilder_new =
     \<lparr>TransactionPayloadBuilder_essence = None, TransactionPayloadBuilder_unlock_blocks = None\<rparr>"

definition TransactionPayloadBuilder_with_essence ::
  "Essence \<Rightarrow> TransactionPayloadBuilder \<Rightarrow> TransactionPayloadBuilder" where
  "TransactionPayloadBuilder_with_essence essence self =
     self\<lparr>TransactionPayloadBuilder_essence := Some essence\<rparr>"

definition TransactionPayloadBuilder_with_unlock_blocks ::
  "UnlockBlocks \<Rightarrow> TransactionPayloadBuilder \<Rightarrow> TransactionPayloadBuilder" where
  "TransactionPayloadBuilder_with_unlock_blocks unlock_blocks self =
     self\<lparr>TransactionPayloadBuilder_unlock_blocks := Some unlock_blocks\<rparr>"

definition TransactionPayloadBuilder_finish ::
  "TransactionPayloadBuilder \<Rightarrow> Error + TransactionPayload" where
  "TransactionPayloadBuilder_finish self =
     bindR (ok_or (MissingField ''essence'') (TransactionPayloadBuilder_essence self)) (\<lambda>essence.
     bindR (ok_or (MissingField ''unlock_blocks'') (TransactionPayloadBuilder_unlock_blocks self))
       (\<lambda>unlock_blocks.
     case essence of Essence_Regular e \<Rightarrow>
       if length (RegularEssence_inputs e) \<noteq> length (UnlockBlocks_blocks unlock_blocks)
       then Inl (InputUnlockBlockCountMismatch (length (RegularEssence_inputs e))
         (length (UnlockBlocks_blocks unlock_blocks)))
       else Inr (TransactionPayload essence unlock_blocks)))"

definition TransactionPayload_id :: "deps \<Rightarrow> TransactionPayload \<Rightarrow> TransactionId" where
  "TransactionPayload_id d self = TransactionId_new
     (blake2b256 d (to_le_bytes TransactionPayload_KIND @ TransactionPayload_pack self))"

definition TransactionPayload_unpack ::
  "deps \<Rightarrow> (bool \<Rightarrow> (Error, Payload) reader) \<Rightarrow> bool \<Rightarrow> (Error, TransactionPayload) reader" where
  "TransactionPayload_unpack d payload_unpack check =
     bindP (Essence_unpack d payload_unpack check) (\<lambda>essence.
     bindP (UnlockBlocks_unpack check) (\<lambda>unlock_blocks.
     liftP (TransactionPayloadBuilder_finish
       (TransactionPayloadBuilder_with_unlock_blocks unlock_blocks
         (TransactionPayloadBuilder_with_essence essence TransactionPayloadBuilder_new)))))"

fun Essence_inputs :: "Essence \<Rightarrow> Input list" where
  "Essence_inputs (Essence_Regular e) = RegularEssence_inputs e"

definition TransactionPayload_valid :: "deps \<Rightarrow> (Payload \<Rightarrow> bool) \<Rightarrow> TransactionPayload \<Rightarrow> bool" where
  "TransactionPayload_valid d v t \<longleftrightarrow>
     Essence_valid d v (TransactionPayload_essence t) \<and>
     UnlockBlocks_valid (TransactionPayload_unlock_blocks t) \<and>
     length (Essence_inputs (TransactionPayload_essence t)) =
       length (UnlockBlocks_blocks (TransactionPayload_unlock_blocks t))"

lemma TransactionPayloadBuilder_finish_Inr_iff:
  "TransactionPayloadBuilder_finish b = Inr t \<longleftrightarrow>
     (\<exists>e ub. TransactionPayloadBuilder_essence b = Some e \<and>
       TransactionPayloadBuilder_unlock_blocks b = Some ub \<and>
       length (Essence_inputs e) = length (UnlockBlocks_blocks ub) \<and> t = TransactionPayload e ub)"
  by (cases "TransactionPayloadBuilder_essence b"; cases "the (TransactionPayloadBuilder_essence b)";
      cases "TransactionPayloadBuilder_unlock_blocks b")
    (auto simp: TransactionPayloadBuilder_finish_def)

lemma TransactionPayload_codec:
  assumes "codec Payload_packed_len Payload_pack u v"
  shows "codec TransactionPayload_packed_len TransactionPayload_pack (TransactionPayload_unpack d u)
    (TransactionPayload_valid d v)"
proof (rule via_codec [OF seq_codec [OF Essence_codec [OF assms, of d] UnlockBlocks.codec_axioms], where
      make = "\<lambda>(e, ub). TransactionPayloadBuilder_finish
        (TransactionPayloadBuilder_with_unlock_blocks ub
          (TransactionPayloadBuilder_with_essence e TransactionPayloadBuilder_new))" and
      get = "\<lambda>t. (TransactionPayload_essence t, TransactionPayload_unlock_blocks t)"])
qed (auto simp: TransactionPayload_unpack_def TransactionPayloadBuilder_finish_Inr_iff
    TransactionPayloadBuilder_with_unlock_blocks_def TransactionPayloadBuilder_with_essence_def
    TransactionPayload_valid_def)

end
