(* ===== verification/Receipt.thy ===== *)
theory Receipt
  imports Transaction
begin

text \<open>
  The receipt payload of bee-message (payload/receipt/mod.rs): the funds that a milestone migrates
  from the legacy network, and the treasury transaction that pays for them.
\<close>

section \<open>Construction\<close>

definition is_treasury_transaction :: "Payload \<Rightarrow> bool" where
  "is_treasury_transaction p = (case p of Payload_TreasuryTransaction _ \<Rightarrow> True | _ \<Rightarrow> False)"

text \<open>The loop over the funds: the hash map takes the bytes of a tail transaction hash to the
  index of the entry that holds it.\<close>

fun check_tail_transaction_hashes ::
  "(byte list \<rightharpoonup> nat) \<Rightarrow> nat \<Rightarrow> MigratedFundsEntry list \<Rightarrow> Error + unit" where
  "check_tail_transaction_hashes m index [] = Inr ()"
| "check_tail_transaction_hashes m index (funds # rest) =
     (let key = TailTransactionHash_as_ref (MigratedFundsEntry_tail_transaction_hash funds) in
      case m key of
        Some previous \<Rightarrow> Inl (TailTransactionHashNotUnique previous index)
      | None \<Rightarrow> check_tail_transaction_hashes (m(key \<mapsto> index)) (Suc index) rest)"

definition ReceiptPayload_new ::
  "deps \<Rightarrow> MilestoneIndex \<Rightarrow> bool \<Rightarrow> MigratedFundsEntry list \<Rightarrow> Payload \<Rightarrow> Error + ReceiptPayload" where
  "ReceiptPayload_new d migrated_at is_last funds transaction =
     bindR (requireR (MIGRATED_FUNDS_ENTRY_RANGE (length funds))
       (InvalidReceiptFundsCount (length funds))) (\<lambda>_.
     bindR (requireR (is_treasury_transaction transaction)
       (InvalidPayloadKind (Payload_kind transaction))) (\<lambda>_.
     bindR (requireR (is_unique_sorted d (map MigratedFundsEntry_pack funds))
       TransactionOutputsNotSorted) (\<lambda>_.
     bindR (check_tail_transaction_hashes Map.empty 0 funds) (\<lambda>_.
     Inr (ReceiptPayload migrated_at is_last funds transaction)))))"

definition ReceiptPayload_amount :: "ReceiptPayload \<Rightarrow> u64" where
  "ReceiptPayload_amount self =
     foldl (\<lambda>acc funds. acc + SignatureLockedSingleOutput_amount (MigratedFundsEntry_output funds)) 0
       (ReceiptPayload_funds self)"

definition ReceiptPayload_unpack ::
  "deps \<Rightarrow> (bool \<Rightarrow> (Error, Payload) reader) \<Rightarrow> bool \<Rightarrow> (Error, ReceiptPayload) reader" where
  "ReceiptPayload_unpack d payload_unpack check =
     bindP (MilestoneIndex_read check) (\<lambda>migrated_at.
     bindP (map_errP Io (bool_unpack check)) (\<lambda>is_last.
     bindP (num_read check) (\<lambda>funds_len :: u16.
     bindP (repeatP (unat funds_len) (MigratedFundsEntry_unpack check)) (\<lambda>funds.
     bindP (option_payload_unpack payload_unpack check) (\<lambda>(_, p).
     bindP (liftP (ok_or MissingPayload p)) (\<lambda>transaction.
     liftP (ReceiptPayload_new d migrated_at is_last funds transaction)))))))"

section \<open>What is accepted\<close>

definition funds_hashes :: "MigratedFundsEntry list \<Rightarrow> byte list list" where
  "funds_hashes funds =
     map (\<lambda>f. TailTransactionHash_as_ref (MigratedFundsEntry_tail_transaction_hash f)) funds"

definition ReceiptPayload_wf :: "deps \<Rightarrow> MigratedFundsEntry list \<Rightarrow> Payload \<Rightarrow> bool" where
  "ReceiptPayload_wf d funds transaction \<longleftrightarrow>
     MIGRATED_FUNDS_ENTRY_RANGE (length funds) \<and> is_treasury_transaction transaction \<and>
     is_unique_sorted d (map MigratedFundsEntry_pack funds) \<and> distinct (funds_hashes funds)"

definition ReceiptPayload_valid :: "deps \<Rightarrow> (Payload \<Rightarrow> bool) \<Rightarrow> ReceiptPayload \<Rightarrow> bool" where
  "ReceiptPayload_valid d v r \<longleftrightarrow>
     list_all MigratedFundsEntry_valid (ReceiptPayload_funds r) \<and>
     option_payload_ok v (Some (ReceiptPayload_transaction r)) \<and>
     ReceiptPayload_wf d (ReceiptPayload_funds r) (ReceiptPayload_transaction r)"

lemma check_tail_transaction_hashes_Inr_iff:
  "check_tail_transaction_hashes m index funds = Inr u \<longleftrightarrow>
     distinct (funds_hashes funds) \<and> set (funds_hashes funds) \<inter> dom m = {}"
  by (induction funds arbitrary: m index)
    (auto simp: funds_hashes_def Let_def split: option.splits)

lemma ReceiptPayload_new_Inr_iff:
  "ReceiptPayload_new d m l funds t = Inr r \<longleftrightarrow>
     ReceiptPayload_wf d funds t \<and> r = ReceiptPayload m l funds t"
  by (auto simp: ReceiptPayload_new_def ReceiptPayload_wf_def bindR_Inr_iff
      check_tail_transaction_hashes_Inr_iff)

text \<open>An error about a repeated hash names two entries that hold it, the earlier one first.\<close>

lemma check_tail_transaction_hashes_error:
  assumes "check_tail_transaction_hashes m (length pre) rest = Inl e"
    and "\<And>k i. m k = Some i \<Longrightarrow> i < length pre \<and> funds_hashes pre ! i = k"
  shows "\<exists>i j. e = TailTransactionHashNotUnique i j \<and> i < j \<and> j < length (pre @ rest) \<and>
    funds_hashes (pre @ rest) ! i = funds_hashes (pre @ rest) ! j"
  using assms
proof (induction rest arbitrary: pre m)
  case Nil
  then show ?case by simp
next
  case (Cons f rest)
  let ?k = "TailTransactionHash_as_ref (MigratedFundsEntry_tail_transaction_hash f)"
  have k: "funds_hashes (pre @ f # rest) ! length pre = ?k"
    by (simp add: funds_hashes_def nth_append)
  show ?case
  proof (cases "m ?k")
    case None
    then have step: "check_tail_transaction_hashes (m(?k \<mapsto> length pre)) (length (pre @ [f])) rest = Inl e"
      using Cons.prems(1) by simp
    have "i < length (pre @ [f]) \<and> funds_hashes (pre @ [f]) ! i = k"
      if "(m(?k \<mapsto> length pre)) k = Some i" for k i
      using that Cons.prems(2) [of k i]
      by (auto simp: funds_hashes_def nth_append split: if_splits)
    from Cons.IH [OF step this] show ?thesis by simp
  next
    case (Some i)
    with Cons.prems(2) [OF Some] have "i < length pre" "funds_hashes (pre @ f # rest) ! i = ?k"
      by (simp_all add: funds_hashes_def nth_append)
    with Some Cons.prems(1) k show ?thesis by auto
  qed
qed

lemma ReceiptPayload_codec:
  assumes "codec Payload_packed_len Payload_pack u v"
  shows "codec ReceiptPayload_packed_len ReceiptPayload_pack (ReceiptPayload_unpack d u)
    (ReceiptPayload_valid d v)"
proof (rule via_codec [OF seq_codec [OF rMilestoneIndex.codec_axioms seq_codec [OF rbool.codec_axioms
      seq_codec [OF counted_codec [OF ru16.canonical_codec_axioms MigratedFundsEntry.codec_axioms, where
        ok = "\<lambda>n. n < 2 ^ 16" and e = InvalidReceiptFundsCount] option_payload_codec [OF assms]]]], where
      make = "\<lambda>(m, l, funds, _, p). bindR (ok_or MissingPayload p) (ReceiptPayload_new d m l funds)" and
      get = "\<lambda>r. (ReceiptPayload_migrated_at r, ReceiptPayload_last r, ReceiptPayload_funds r,
        payload_len_of (Some (ReceiptPayload_transaction r)), Some (ReceiptPayload_transaction r))"],
      goal_cases)
  case (2 c bs)
  show ?case
    by (simp add: ReceiptPayload_unpack_def case_prod_unfold liftP_bindR
        countedP_unchecked [where 'n = 16, simplified] cong: sum.case_cong)
qed (auto simp: bindR_Inr_iff ReceiptPayload_new_Inr_iff ReceiptPayload_valid_def ReceiptPayload_wf_def
    MIGRATED_FUNDS_ENTRY_RANGE_def INPUT_OUTPUT_COUNT_RANGE_def INPUT_OUTPUT_COUNT_MAX_def)

section \<open>The amount\<close>

text \<open>The sum of at most 127 amounts below the supply does not wrap around.\<close>

lemma foldl_amount:
  assumes "unat acc + (\<Sum>x\<leftarrow>xs. unat (f x)) < 2 ^ 64"
  shows "unat (foldl (\<lambda>acc x. acc + f x) (acc :: u64) xs) = unat acc + (\<Sum>x\<leftarrow>xs. unat (f x))"
  using assms
proof (induction xs arbitrary: acc)
  case (Cons x xs)
  then have "unat (acc + f x) = unat acc + unat (f x)"
    by (simp add: unat_word_ariths)
  with Cons show ?case by simp
qed simp

lemma ReceiptPayload_amount_exact:
  assumes "ReceiptPayload_valid d v r"
  shows "unat (ReceiptPayload_amount r) =
    (\<Sum>f\<leftarrow>ReceiptPayload_funds r. unat (SignatureLockedSingleOutput_amount (MigratedFundsEntry_output f)))"
proof -
  let ?f = "\<lambda>f. SignatureLockedSingleOutput_amount (MigratedFundsEntry_output f)"
  have "unat (?f x) \<le> unat IOTA_SUPPLY" if "x \<in> set (ReceiptPayload_funds r)" for x
    using that assms by (auto simp: ReceiptPayload_valid_def list_all_iff MigratedFundsEntry_valid_def
        SignatureLockedSingleOutput_valid_def SIGNATURE_LOCKED_SINGLE_OUTPUT_AMOUNT_def word_le_nat_alt)
  then have "(\<Sum>x\<leftarrow>ReceiptPayload_funds r. unat (?f x)) \<le>
      (\<Sum>x\<leftarrow>ReceiptPayload_funds r. unat IOTA_SUPPLY)"
    by (intro sum_list_mono) auto
  also have "\<dots> \<le> 127 * unat IOTA_SUPPLY"
    using assms by (simp add: sum_list_triv ReceiptPayload_valid_def ReceiptPayload_wf_def
        MIGRATED_FUNDS_ENTRY_RANGE_def INPUT_OUTPUT_COUNT_RANGE_def INPUT_OUTPUT_COUNT_MAX_def)
  also have "\<dots> < 2 ^ 64" by (simp add: IOTA_SUPPLY_def)
  finally show ?thesis
    using foldl_amount [of 0 ?f "ReceiptPayload_funds r"] by (simp add: ReceiptPayload_amount_def)
qed

end
