(* ===== verification/Milestone_Payload.thy ===== *)
theory Milestone_Payload
  imports Receipt
begin

text \<open>
  The milestone payload of bee-message: its essence (payload/milestone/essence.rs) and the payload
  with its signatures and their validation (payload/milestone/mod.rs).
\<close>

section \<open>Essence\<close>

fun milestone_receipt_ok :: "Payload option \<Rightarrow> bool" where
  "milestone_receipt_ok None = True"
| "milestone_receipt_ok (Some (Payload_Receipt _)) = True"
| "milestone_receipt_ok _ = False"

definition MilestonePayloadEssence_new ::
  "deps \<Rightarrow> MilestoneIndex \<Rightarrow> u64 \<Rightarrow> Parents \<Rightarrow> byte list \<Rightarrow> u32 \<Rightarrow> u32 \<Rightarrow> byte list list \<Rightarrow>
     Payload option \<Rightarrow> Error + MilestonePayloadEssence" where
  "MilestonePayloadEssence_new d index timestamp parents merkle_proof next_pow_score
       next_pow_score_milestone_index public_keys receipt =
     bindR (requireR
       (\<not> (next_pow_score = 0 \<and> next_pow_score_milestone_index \<noteq> 0
         \<or> next_pow_score \<noteq> 0 \<and> next_pow_score_milestone_index \<le> MilestoneIndex_value index))
       (InvalidPowScoreValues next_pow_score next_pow_score_milestone_index)) (\<lambda>_.
     bindR (requireR (MILESTONE_PUBLIC_KEY_COUNT_RANGE (length public_keys))
       (MilestoneInvalidPublicKeyCount (length public_keys))) (\<lambda>_.
     bindR (requireR (is_unique_sorted d public_keys) MilestonePublicKeysNotUniqueSorted) (\<lambda>_.
     bindR (requireR (milestone_receipt_ok receipt)
       (InvalidPayloadKind (Payload_kind (the receipt)))) (\<lambda>_.
     Inr (MilestonePayloadEssence index timestamp parents merkle_proof next_pow_score
       next_pow_score_milestone_index public_keys receipt)))))"

definition MilestonePayloadEssence_hash :: "deps \<Rightarrow> MilestonePayloadEssence \<Rightarrow> byte list" where
  "MilestonePayloadEssence_hash d self = blake2b256 d (MilestonePayloadEssence_pack self)"

definition MilestonePayloadEssence_unpack ::
  "deps \<Rightarrow> (bool \<Rightarrow> (Error, Payload) reader) \<Rightarrow> bool \<Rightarrow> (Error, MilestonePayloadEssence) reader" where
  "MilestonePayloadEssence_unpack d payload_unpack check =
     bindP (MilestoneIndex_read check) (\<lambda>index.
     bindP (num_read check) (\<lambda>timestamp.
     bindP (Parents_unpack d check) (\<lambda>parents.
     bindP (array_read MILESTONE_MERKLE_PROOF_LENGTH check) (\<lambda>merkle_proof.
     bindP (num_read check) (\<lambda>next_pow_score.
     bindP (num_read check) (\<lambda>next_pow_score_milestone_index.
     bindP (num_read check) (\<lambda>public_keys_len :: u8.
     bindP (repeatP (unat public_keys_len) (array_read MILESTONE_PUBLIC_KEY_LENGTH check)) (\<lambda>public_keys.
     bindP (option_payload_unpack payload_unpack check) (\<lambda>(_, receipt).
     liftP (MilestonePayloadEssence_new d index timestamp parents merkle_proof next_pow_score
       next_pow_score_milestone_index public_keys receipt))))))))))"

definition MilestonePayloadEssence_wf ::
  "deps \<Rightarrow> MilestoneIndex \<Rightarrow> u32 \<Rightarrow> u32 \<Rightarrow> byte list list \<Rightarrow> Payload option \<Rightarrow> bool" where
  "MilestonePayloadEssence_wf d index next_pow_score next_pow_score_milestone_index public_keys receipt \<longleftrightarrow>
     (if next_pow_score = 0 then next_pow_score_milestone_index = 0
      else MilestoneIndex_value index < next_pow_score_milestone_index) \<and>
     MILESTONE_PUBLIC_KEY_COUNT_RANGE (length public_keys) \<and> is_unique_sorted d public_keys \<and>
     milestone_receipt_ok receipt"

definition MilestonePayloadEssence_valid ::
  "deps \<Rightarrow> (Payload \<Rightarrow> bool) \<Rightarrow> MilestonePayloadEssence \<Rightarrow> bool" where
  "MilestonePayloadEssence_valid d v e \<longleftrightarrow>
     Parents_valid d (MilestonePayloadEssence_parents e) \<and>
     length (MilestonePayloadEssence_merkle_proof e) = MILESTONE_MERKLE_PROOF_LENGTH \<and>
     list_all (\<lambda>k. length k = MILESTONE_PUBLIC_KEY_LENGTH) (MilestonePayloadEssence_public_keys e) \<and>
     option_payload_ok v (MilestonePayloadEssence_receipt e) \<and>
     MilestonePayloadEssence_wf d (MilestonePayloadEssence_index e)
       (MilestonePayloadEssence_next_pow_score e)
       (MilestonePayloadEssence_next_pow_score_milestone_index e)
       (MilestonePayloadEssence_public_keys e) (MilestonePayloadEssence_receipt e)"

lemma MilestonePayloadEssence_new_Inr_iff:
  "MilestonePayloadEssence_new d i t p m s si ks r = Inr e \<longleftrightarrow>
     MilestonePayloadEssence_wf d i s si ks r \<and> e = MilestonePayloadEssence i t p m s si ks r"
  by (auto simp: MilestonePayloadEssence_new_def MilestonePayloadEssence_wf_def bindR_Inr_iff not_le)

lemma sum_array_packed_len: "sum_list (map (array_packed_len n) xs) = length xs * n"
  by (induction xs) (simp_all add: array_packed_len_def)

lemma MilestonePayloadEssence_codec:
  assumes "codec Payload_packed_len Payload_pack u v"
  shows "codec MilestonePayloadEssence_packed_len MilestonePayloadEssence_pack
    (MilestonePayloadEssence_unpack d u) (MilestonePayloadEssence_valid d v)"
proof (rule via_codec [OF seq_codec [OF rMilestoneIndex.codec_axioms seq_codec [OF ru64.codec_axioms
      seq_codec [OF Parents.codec_axioms [of d] seq_codec [OF rarray.codec_axioms [of MILESTONE_MERKLE_PROOF_LENGTH]
      seq_codec [OF ru32.codec_axioms seq_codec [OF ru32.codec_axioms
      seq_codec [OF counted_codec [OF ru8.canonical_codec_axioms
        rarray.codec_axioms [of MILESTONE_PUBLIC_KEY_LENGTH], where
        ok = "\<lambda>n. n < 2 ^ 8" and e = MilestoneInvalidPublicKeyCount]
      option_payload_codec [OF assms]]]]]]]], where
      make = "\<lambda>(i, t, p, m, s, si, ks, _, r). MilestonePayloadEssence_new d i t p m s si ks r" and
      get = "\<lambda>e. (MilestonePayloadEssence_index e, MilestonePayloadEssence_timestamp e,
        MilestonePayloadEssence_parents e, MilestonePayloadEssence_merkle_proof e,
        MilestonePayloadEssence_next_pow_score e,
        MilestonePayloadEssence_next_pow_score_milestone_index e,
        MilestonePayloadEssence_public_keys e, payload_len_of (MilestonePayloadEssence_receipt e),
        MilestonePayloadEssence_receipt e)"], goal_cases)
  case (2 c bs)
  show ?case
    by (simp add: MilestonePayloadEssence_unpack_def case_prod_unfold
        countedP_unchecked [where 'n = 8, simplified])
qed (auto simp: MilestonePayloadEssence_new_Inr_iff MilestonePayloadEssence_valid_def
    MilestonePayloadEssence_wf_def MILESTONE_PUBLIC_KEY_COUNT_RANGE_def sum_array_packed_len
    array_packed_len_def)

section \<open>Payload\<close>

definition MilestonePayload_new ::
  "MilestonePayloadEssence \<Rightarrow> byte list list \<Rightarrow> Error + MilestonePayload" where
  "MilestonePayload_new essence signatures =
     bindR (requireR (MILESTONE_SIGNATURE_COUNT_RANGE (length signatures))
       (MilestoneInvalidSignatureCount (length signatures))) (\<lambda>_.
     bindR (requireR (length (MilestonePayloadEssence_public_keys essence) = length signatures)
       (MilestonePublicKeysSignaturesCountMismatch
         (length (MilestonePayloadEssence_public_keys essence)) (length signatures))) (\<lambda>_.
     Inr (MilestonePayload essence signatures)))"

definition MilestonePayload_id :: "deps \<Rightarrow> MilestonePayload \<Rightarrow> MilestoneId" where
  "MilestonePayload_id d self = MilestoneId_new
     (blake2b256 d (to_le_bytes MilestonePayload_KIND @ MilestonePayload_pack self))"

definition MilestonePayload_unpack ::
  "deps \<Rightarrow> (bool \<Rightarrow> (Error, Payload) reader) \<Rightarrow> bool \<Rightarrow> (Error, MilestonePayload) reader" where
  "MilestonePayload_unpack d payload_unpack check =
     bindP (MilestonePayloadEssence_unpack d payload_unpack check) (\<lambda>essence.
     bindP (num_read check) (\<lambda>signatures_len :: u8.
     bindP (repeatP (unat signatures_len) (array_read MILESTONE_SIGNATURE_LENGTH check)) (\<lambda>signatures.
     liftP (MilestonePayload_new essence signatures))))"

definition MilestonePayload_valid :: "deps \<Rightarrow> (Payload \<Rightarrow> bool) \<Rightarrow> MilestonePayload \<Rightarrow> bool" where
  "MilestonePayload_valid d v m \<longleftrightarrow>
     MilestonePayloadEssence_valid d v (MilestonePayload_essence m) \<and>
     list_all (\<lambda>s. length s = MILESTONE_SIGNATURE_LENGTH) (MilestonePayload_signatures m) \<and>
     MILESTONE_SIGNATURE_COUNT_RANGE (length (MilestonePayload_signatures m)) \<and>
     length (MilestonePayloadEssence_public_keys (MilestonePayload_essence m)) =
       length (MilestonePayload_signatures m)"

lemma MilestonePayload_new_Inr_iff:
  "MilestonePayload_new e ss = Inr m \<longleftrightarrow>
     MILESTONE_SIGNATURE_COUNT_RANGE (length ss) \<and>
     length (MilestonePayloadEssence_public_keys e) = length ss \<and> m = MilestonePayload e ss"
  by (auto simp: MilestonePayload_new_def bindR_Inr_iff)

lemma MilestonePayload_codec:
  assumes "codec Payload_packed_len Payload_pack u v"
  shows "codec MilestonePayload_packed_len MilestonePayload_pack (MilestonePayload_unpack d u)
    (MilestonePayload_valid d v)"
proof (rule via_codec [OF seq_codec [OF MilestonePayloadEssence_codec [OF assms, of d]
      counted_codec [OF ru8.canonical_codec_axioms
        rarray.codec_axioms [of MILESTONE_SIGNATURE_LENGTH], where
        ok = "\<lambda>n. n < 2 ^ 8" and e = MilestoneInvalidSignatureCount]], where
      make = "\<lambda>(e, ss). MilestonePayload_new e ss" and
      get = "\<lambda>m. (MilestonePayload_essence m, MilestonePayload_signatures m)"], goal_cases)
  case (2 c bs)
  show ?case
    by (simp add: MilestonePayload_unpack_def countedP_unchecked [where 'n = 8, simplified])
qed (auto simp: MilestonePayload_new_Inr_iff MilestonePayload_valid_def sum_array_packed_len
    MILESTONE_SIGNATURE_COUNT_RANGE_def array_pack_def [abs_def])

section \<open>Validation\<close>

datatype MilestoneValidationError =
    InvalidMinThreshold
  | TooFewSignatures nat nat
  | InsufficientApplicablePublicKeys nat nat
  | UnapplicablePublicKey string
  | MilestoneInvalidSignature nat string
  | Crypto CryptoError

text \<open>The loop over the public keys and their signatures.\<close>

fun validate_signatures ::
  "deps \<Rightarrow> string list \<Rightarrow> byte list \<Rightarrow> nat \<Rightarrow> (byte list \<times> byte list) list \<Rightarrow>
     MilestoneValidationError + unit" where
  "validate_signatures d applicable_public_keys essence_hash index [] = Inr ()"
| "validate_signatures d applicable_public_keys essence_hash index ((public_key, signature) # rest) =
     bindR (requireR (hex_encode d public_key \<in> set applicable_public_keys)
       (UnapplicablePublicKey (hex_encode d public_key))) (\<lambda>_.
     bindR (map_errR Crypto (public_key_try_from_bytes d public_key)) (\<lambda>ed25519_public_key.
     bindR (requireR (public_key_verify d ed25519_public_key signature essence_hash)
       (MilestoneInvalidSignature index (hex_encode d public_key))) (\<lambda>_.
     validate_signatures d applicable_public_keys essence_hash (Suc index) rest)))"

definition MilestonePayload_validate ::
  "deps \<Rightarrow> string list \<Rightarrow> nat \<Rightarrow> MilestonePayload \<Rightarrow> MilestoneValidationError + unit" where
  "MilestonePayload_validate d applicable_public_keys min_threshold self =
     bindR (requireR (min_threshold \<noteq> 0) InvalidMinThreshold) (\<lambda>_.
     bindR (requireR (\<not> length applicable_public_keys < min_threshold)
       (InsufficientApplicablePublicKeys (length applicable_public_keys) min_threshold)) (\<lambda>_.
     bindR (requireR (\<not> length (MilestonePayload_signatures self) < min_threshold)
       (TooFewSignatures min_threshold (length (MilestonePayload_signatures self)))) (\<lambda>_.
     validate_signatures d applicable_public_keys
       (MilestonePayloadEssence_hash d (MilestonePayload_essence self)) 0
       (zip (MilestonePayloadEssence_public_keys (MilestonePayload_essence self))
         (MilestonePayload_signatures self)))))"

definition signature_verifies :: "deps \<Rightarrow> byte list \<Rightarrow> byte list \<Rightarrow> byte list \<Rightarrow> bool" where
  "signature_verifies d public_key signature msg =
     (case public_key_try_from_bytes d public_key of
       Inl _ \<Rightarrow> False
     | Inr k \<Rightarrow> public_key_verify d k signature msg)"

lemma validate_signatures_Inr_iff:
  "validate_signatures d keys h i ps = Inr u \<longleftrightarrow>
     (\<forall>(k, s) \<in> set ps. hex_encode d k \<in> set keys \<and> signature_verifies d k s h)"
proof (induction ps arbitrary: i)
  case (Cons p ps)
  then show ?case
    by (cases p; cases "public_key_try_from_bytes d (fst p)")
      (auto simp: bindR_Inr_iff signature_verifies_def)
qed simp

lemma MilestonePayload_validate_Inr_iff:
  "MilestonePayload_validate d keys n m = Inr u \<longleftrightarrow>
     0 < n \<and> n \<le> length keys \<and> n \<le> length (MilestonePayload_signatures m) \<and>
     (\<forall>(k, s) \<in> set (zip (MilestonePayloadEssence_public_keys (MilestonePayload_essence m))
         (MilestonePayload_signatures m)).
       hex_encode d k \<in> set keys \<and>
       signature_verifies d k s (MilestonePayloadEssence_hash d (MilestonePayload_essence m)))"
  by (auto simp: MilestonePayload_validate_def bindR_Inr_iff validate_signatures_Inr_iff not_less)

text \<open>The public keys of a valid milestone are pairwise different, so at least as many different
  applicable keys as the threshold asks for have signed the essence.\<close>

lemma MilestonePayload_validate_threshold:
  assumes "iterator_sorted_spec d" and "MilestonePayload_valid d v m"
    and "MilestonePayload_validate d keys n m = Inr ()"
  shows "\<exists>K. n \<le> card K \<and> (\<forall>k\<in>K. hex_encode d k \<in> set keys \<and>
    (\<exists>s\<in>set (MilestonePayload_signatures m).
       signature_verifies d k s (MilestonePayloadEssence_hash d (MilestonePayload_essence m))))"
proof (intro exI conjI)
  let ?ks = "MilestonePayloadEssence_public_keys (MilestonePayload_essence m)"
  let ?ss = "MilestonePayload_signatures m"
  have "sorted_wrt (<) ?ks" and len: "length ?ks = length ?ss"
    using assms(1,2) by (auto simp: MilestonePayload_valid_def MilestonePayloadEssence_valid_def
        MilestonePayloadEssence_wf_def is_unique_sorted_eq)
  then have "card (set ?ks) = length ?ss"
    by (simp add: strict_sorted_iff distinct_card)
  with assms(3) show "n \<le> card (set ?ks)"
    by (simp add: MilestonePayload_validate_Inr_iff)
  show "\<forall>k\<in>set ?ks. hex_encode d k \<in> set keys \<and>
    (\<exists>s\<in>set ?ss. signature_verifies d k s (MilestonePayloadEssence_hash d (MilestonePayload_essence m)))"
  proof
    fix k assume "k \<in> set ?ks"
    then obtain i where "i < length ?ks" "?ks ! i = k" by (auto simp: in_set_conv_nth)
    with len have "(k, ?ss ! i) \<in> set (zip ?ks ?ss)" "?ss ! i \<in> set ?ss"
      by (auto simp: set_zip)
    with assms(3) show "hex_encode d k \<in> set keys \<and>
      (\<exists>s\<in>set ?ss. signature_verifies d k s (MilestonePayloadEssence_hash d (MilestonePayload_essence m)))"
      by (auto simp: MilestonePayload_validate_Inr_iff)
  qed
qed

end
