(* ===== verification/Payload_Reader.thy ===== *)
theory Payload_Reader
  imports Milestone_Payload
begin

text \<open>
  The reader of payloads (payload/mod.rs). In the sources \<open>Payload::unpack_inner\<close> calls itself through
  the readers of transactions, milestones and receipts, which contain payloads. Here
  \<open>Payload_step\<close> is its body over the reader for the payloads inside, and \<open>Payload_unpack\<close> runs it
  with as much fuel as there are bytes: each level reads the four bytes of its kind, so
  that this is enough, and \<open>Payload_unpack\<close> satisfies the recursion equation of the sources.
\<close>

section \<open>The reader\<close>

definition Payload_step ::
  "deps \<Rightarrow> (bool \<Rightarrow> (Error, Payload) reader) \<Rightarrow> bool \<Rightarrow> (Error, Payload) reader" where
  "Payload_step d payload_unpack check =
     bindP (num_read check) (\<lambda>k.
       if k = TransactionPayload_KIND
       then bindP (TransactionPayload_unpack d payload_unpack check) (\<lambda>p. returnP (Payload_Transaction p))
       else if k = MilestonePayload_KIND
       then bindP (MilestonePayload_unpack d payload_unpack check) (\<lambda>p. returnP (Payload_Milestone p))
       else if k = IndexationPayload_KIND
       then bindP (IndexationPayload_unpack check) (\<lambda>p. returnP (Payload_Indexation p))
       else if k = ReceiptPayload_KIND
       then bindP (ReceiptPayload_unpack d payload_unpack check) (\<lambda>p. returnP (Payload_Receipt p))
       else if k = TreasuryTransactionPayload_KIND
       then bindP (TreasuryTransactionPayload_unpack check) (\<lambda>p. returnP (Payload_TreasuryTransaction p))
       else failP (InvalidPayloadKind k))"

fun Payload_unpack_fuel :: "nat \<Rightarrow> deps \<Rightarrow> bool \<Rightarrow> (Error, Payload) reader" where
  "Payload_unpack_fuel 0 d check = failP (Io UnexpectedEof)"
| "Payload_unpack_fuel (Suc n) d check = Payload_step d (Payload_unpack_fuel n d) check"

definition Payload_unpack :: "deps \<Rightarrow> bool \<Rightarrow> (Error, Payload) reader" where
  "Payload_unpack d check bs = Payload_unpack_fuel (Suc (length bs)) d check bs"

section \<open>The fuel is enough\<close>

text \<open>Two readers agree on inputs of bounded length.\<close>

definition agree :: "nat \<Rightarrow> ('e, 'a) reader \<Rightarrow> ('e, 'a) reader \<Rightarrow> bool" where
  "agree n p q \<longleftrightarrow> (\<forall>bs. length bs \<le> n \<longrightarrow> p bs = q bs)"

definition shrinks :: "('e, 'a) reader \<Rightarrow> bool" where
  "shrinks p \<longleftrightarrow> (\<forall>bs x rest. p bs = Inr (x, rest) \<longrightarrow> length rest \<le> length bs)"

lemma agree_refl: "agree n p p"
  by (simp add: agree_def)

lemma agree_bind:
  "shrinks p \<Longrightarrow> (\<And>x. agree n (f x) (g x)) \<Longrightarrow> agree n (bindP p f) (bindP p g)"
  unfolding agree_def shrinks_def
proof (intro allI impI)
  fix bs :: "byte list"
  assume *: "\<forall>bs x rest. p bs = Inr (x, rest) \<longrightarrow> length rest \<le> length bs"
    and f: "\<And>x. \<forall>bs. length bs \<le> n \<longrightarrow> f x bs = g x bs" and n: "length bs \<le> n"
  show "bindP p f bs = bindP p g bs"
  proof (rule bindP_cong [OF refl])
    fix x rest assume "p bs = Inr (x, rest)"
    with * n have "length rest \<le> n" by (metis order_trans)
    with f show "f x rest = g x rest" by blast
  qed
qed

lemma agree_bind_left: "agree n p q \<Longrightarrow> agree n (bindP p f) (bindP q f)"
  by (auto simp: agree_def intro: bindP_cong)

lemma agree_if: "agree n p q \<Longrightarrow> agree n p' q' \<Longrightarrow> agree n (if b then p else p') (if b then q else q')"
  by simp

lemma codec_shrinks: "codec l p u v \<Longrightarrow> shrinks (u c)"
  by (auto simp: shrinks_def dest!: codec.unpack_rest)

lemma codec_repeat_shrinks: "codec l p u v \<Longrightarrow> shrinks (repeatP n (u c))"
  by (auto simp: shrinks_def dest!: codec.repeat_rest)

lemma requireP_shrinks: "shrinks (requireP b e)"
  by (auto simp: shrinks_def)

lemmas agree_rules = agree_refl agree_if agree_bind requireP_shrinks

lemmas reader_shrinks = codec_shrinks [OF ru8.codec_axioms] codec_shrinks [OF ru16.codec_axioms]
  codec_shrinks [OF ru32.codec_axioms] codec_shrinks [OF ru64.codec_axioms]
  codec_shrinks [OF rMilestoneIndex.codec_axioms] codec_shrinks [OF rbool.codec_axioms]
  codec_shrinks [OF Parents.codec_axioms] codec_shrinks [OF rarray.codec_axioms]
  codec_repeat_shrinks [OF Input.codec_axioms] codec_repeat_shrinks [OF Output.codec_axioms]
  codec_repeat_shrinks [OF MigratedFundsEntry.codec_axioms] codec_repeat_shrinks [OF rarray.codec_axioms]

lemma option_payload_agree:
  assumes "agree n (u c) (u' c)"
  shows "agree n (option_payload_unpack u c) (option_payload_unpack u' c)"
  unfolding option_payload_unpack_def
  by (rule agree_bind, rule reader_shrinks, rule agree_if, rule agree_bind_left, rule assms,
      rule agree_refl)

lemma TransactionPayload_agree:
  assumes "agree n (u c) (u' c)"
  shows "agree n (TransactionPayload_unpack d u c) (TransactionPayload_unpack d u' c)"
  unfolding TransactionPayload_unpack_def Essence_unpack_def RegularEssence_unpack_def Let_def
  by (rule agree_bind_left, rule agree_bind, rule reader_shrinks, rule agree_if, rule agree_bind_left,
      (rule agree_bind, rule reader_shrinks requireP_shrinks)+, rule agree_bind_left,
      rule option_payload_agree, rule assms, rule agree_refl)

lemma MilestonePayload_agree:
  assumes "agree n (u c) (u' c)"
  shows "agree n (MilestonePayload_unpack d u c) (MilestonePayload_unpack d u' c)"
  unfolding MilestonePayload_unpack_def MilestonePayloadEssence_unpack_def
  by (rule agree_bind_left, (rule agree_bind, rule reader_shrinks)+,
      rule agree_bind_left, rule option_payload_agree, rule assms)

lemma ReceiptPayload_agree:
  assumes "agree n (u c) (u' c)"
  shows "agree n (ReceiptPayload_unpack d u c) (ReceiptPayload_unpack d u' c)"
  unfolding ReceiptPayload_unpack_def
  by ((rule agree_bind, rule reader_shrinks)+,
      rule agree_bind_left, rule option_payload_agree, rule assms)

lemma Payload_step_cong:
  assumes "\<And>r. length r < length bs \<Longrightarrow> u c r = u' c r"
  shows "Payload_step d u c bs = Payload_step d u' c bs"
  unfolding Payload_step_def
proof (rule bindP_cong [OF refl], goal_cases)
  case (1 k rest)
  then have "length rest < length bs" by (auto dest!: ru32.unpack_rest)
  with assms have *: "agree (length rest) (u c) (u' c)" by (simp add: agree_def)
  have "bindP (TransactionPayload_unpack d u c) f rest = bindP (TransactionPayload_unpack d u' c) f rest"
    and "bindP (MilestonePayload_unpack d u c) g rest = bindP (MilestonePayload_unpack d u' c) g rest"
    and "bindP (ReceiptPayload_unpack d u c) h rest = bindP (ReceiptPayload_unpack d u' c) h rest"
    for f :: "_ \<Rightarrow> (Error, Payload) reader" and g :: "_ \<Rightarrow> (Error, Payload) reader"
      and h :: "_ \<Rightarrow> (Error, Payload) reader"
    using agree_bind_left [OF TransactionPayload_agree [where u = u and u' = u' and c = c, OF *, of d], of f]
      agree_bind_left [OF MilestonePayload_agree [where u = u and u' = u' and c = c, OF *, of d], of g]
      agree_bind_left [OF ReceiptPayload_agree [where u = u and u' = u' and c = c, OF *, of d], of h]
    by (simp_all add: agree_def)
  then show ?case by simp
qed

lemma Payload_unpack_fuel_enough:
  "length bs < n \<Longrightarrow> length bs < m \<Longrightarrow> Payload_unpack_fuel n d c bs = Payload_unpack_fuel m d c bs"
proof (induction "length bs" arbitrary: bs n m rule: less_induct)
  case less
  from less.prems obtain n' m' where nm: "n = Suc n'" "m = Suc m'" by (cases n; cases m) auto
  have "Payload_unpack_fuel n' d c r = Payload_unpack_fuel m' d c r" if "length r < length bs" for r
    using that less.prems nm by (intro less.hyps) simp_all
  then show ?case
    unfolding nm Payload_unpack_fuel.simps
    by (rule Payload_step_cong [where u = "Payload_unpack_fuel n' d" and u' = "Payload_unpack_fuel m' d"])
qed

lemma Payload_unpack_fuel_eq: "length bs < n \<Longrightarrow> Payload_unpack_fuel n d c bs = Payload_unpack d c bs"
  unfolding Payload_unpack_def by (rule Payload_unpack_fuel_enough) auto

lemma Payload_unpack_unfold: "Payload_unpack d c bs = Payload_step d (Payload_unpack d) c bs"
proof -
  have "Payload_unpack d c bs = Payload_step d (Payload_unpack_fuel (length bs) d) c bs"
    by (simp add: Payload_unpack_def)
  also have "\<dots> = Payload_step d (Payload_unpack d) c bs"
    by (rule Payload_step_cong [where u = "Payload_unpack_fuel (length bs) d"])
      (rule Payload_unpack_fuel_eq)
  finally show ?thesis .
qed

section \<open>Valid payloads\<close>

fun Payload_valid_step :: "deps \<Rightarrow> (Payload \<Rightarrow> bool) \<Rightarrow> Payload \<Rightarrow> bool" where
  "Payload_valid_step d v (Payload_Transaction p) = TransactionPayload_valid d v p"
| "Payload_valid_step d v (Payload_Milestone p) = MilestonePayload_valid d v p"
| "Payload_valid_step d v (Payload_Indexation p) = IndexationPayload_valid p"
| "Payload_valid_step d v (Payload_Receipt p) = ReceiptPayload_valid d v p"
| "Payload_valid_step d v (Payload_TreasuryTransaction p) = TreasuryTransactionPayload_valid p"

fun Payload_valid_fuel :: "nat \<Rightarrow> deps \<Rightarrow> Payload \<Rightarrow> bool" where
  "Payload_valid_fuel 0 d p = False"
| "Payload_valid_fuel (Suc n) d p = Payload_valid_step d (Payload_valid_fuel n d) p"

text \<open>A milestone may hold a receipt, which holds a treasury transaction: payloads nest three deep.\<close>

definition Payload_valid :: "deps \<Rightarrow> Payload \<Rightarrow> bool" where
  "Payload_valid d = Payload_valid_fuel 3 d"

lemma Payload_step_codec:
  assumes "codec Payload_packed_len Payload_pack u v"
  shows "codec Payload_packed_len Payload_pack (Payload_step d u) (Payload_valid_step d v)"
proof -
  note t = TransactionPayload_codec [OF assms, of d]
    and m = MilestonePayload_codec [OF assms, of d] and r = ReceiptPayload_codec [OF assms, of d]
  show ?thesis
  proof unfold_locales
    fix x c rest
    assume "Payload_valid_step d v x"
    then have "length (Payload_pack x) = Payload_packed_len x \<and>
      Payload_step d u c (Payload_pack x @ rest) = Inr (x, rest)"
      by (cases x) (auto simp: Payload_step_def Payload_KIND_defs codec_run codec_len
          codec.length_pack [OF t] codec.bind_unpack [OF t] codec.length_pack [OF m]
          codec.bind_unpack [OF m] codec.length_pack [OF r] codec.bind_unpack [OF r])
    then show "length (Payload_pack x) = Payload_packed_len x"
      and "Payload_step d u c (Payload_pack x @ rest) = Inr (x, rest)" by auto
  qed (auto simp: Payload_step_def bindP_Inr_iff add.commute split: if_splits
      dest!: codec_drop codec.unpack_drop [OF t] codec.unpack_drop [OF m] codec.unpack_drop [OF r])
qed

lemma Payload_fuel_codec:
  "codec Payload_packed_len Payload_pack (Payload_unpack_fuel n d) (Payload_valid_fuel n d)"
proof (induction n)
  case 0
  show ?case by unfold_locales simp_all
next
  case (Suc n)
  have "Payload_unpack_fuel (Suc n) d = Payload_step d (Payload_unpack_fuel n d)"
    and "Payload_valid_fuel (Suc n) d = Payload_valid_step d (Payload_valid_fuel n d)"
    by (auto simp: fun_eq_iff)
  with Payload_step_codec [OF Suc] show ?case by metis
qed

text \<open>Deeper nesting is never valid, so that the fuel of the predicate is enough.\<close>

lemma Payload_valid_base:
  "Payload_valid_fuel (Suc n) d (Payload_Indexation i) = IndexationPayload_valid i"
  "Payload_valid_fuel (Suc n) d (Payload_TreasuryTransaction t) = TreasuryTransactionPayload_valid t"
  by simp_all

lemma option_payload_ok_mono:
  "option_payload_ok v p \<Longrightarrow> (\<And>q. p = Some q \<Longrightarrow> v q \<Longrightarrow> w q) \<Longrightarrow> option_payload_ok w p"
  by (auto simp: option_payload_ok_def split: option.splits)

lemma TransactionPayload_valid_fuel:
  assumes "TransactionPayload_valid d (Payload_valid_fuel n d) t"
  shows "TransactionPayload_valid d (Payload_valid_fuel (Suc m) d) t"
proof (cases t)
  case (TransactionPayload e ub)
  moreover obtain r where e: "e = Essence_Regular r" by (cases e)
  moreover have "option_payload_ok (Payload_valid_fuel (Suc m) d) (RegularEssence_payload r)"
    if "option_payload_ok (Payload_valid_fuel n d) (RegularEssence_payload r)"
      and "essence_payload_ok (RegularEssence_payload r)"
    using that(1)
  proof (rule option_payload_ok_mono)
    fix q assume q: "RegularEssence_payload r = Some q" "Payload_valid_fuel n d q"
    with that(2) obtain i where "q = Payload_Indexation i" by (cases q) auto
    with q(2) show "Payload_valid_fuel (Suc m) d q" by (cases n) auto
  qed
  ultimately show ?thesis
    using assms by (auto simp: TransactionPayload_valid_def RegularEssence_valid_def RegularEssence_wf_def
        simp del: Payload_valid_fuel.simps)
qed

lemma ReceiptPayload_valid_fuel:
  assumes "ReceiptPayload_valid d (Payload_valid_fuel n d) r"
  shows "ReceiptPayload_valid d (Payload_valid_fuel (Suc m) d) r"
proof -
  have "option_payload_ok (Payload_valid_fuel (Suc m) d) (Some (ReceiptPayload_transaction r))"
  proof (rule option_payload_ok_mono)
    show "option_payload_ok (Payload_valid_fuel n d) (Some (ReceiptPayload_transaction r))"
      using assms by (simp add: ReceiptPayload_valid_def)
    fix q assume q: "Some (ReceiptPayload_transaction r) = Some q" "Payload_valid_fuel n d q"
    with assms obtain t where "q = Payload_TreasuryTransaction t"
      by (cases q) (auto simp: ReceiptPayload_valid_def ReceiptPayload_wf_def is_treasury_transaction_def)
    with q(2) show "Payload_valid_fuel (Suc m) d q" by (cases n) auto
  qed
  with assms show ?thesis by (simp add: ReceiptPayload_valid_def)
qed

lemma MilestonePayload_valid_fuel:
  assumes "MilestonePayload_valid d (Payload_valid_fuel n d) p"
  shows "MilestonePayload_valid d (Payload_valid_fuel (Suc (Suc m)) d) p"
proof -
  let ?r = "MilestonePayloadEssence_receipt (MilestonePayload_essence p)"
  have "option_payload_ok (Payload_valid_fuel (Suc (Suc m)) d) ?r"
  proof (rule option_payload_ok_mono)
    show "option_payload_ok (Payload_valid_fuel n d) ?r"
      using assms by (simp add: MilestonePayload_valid_def MilestonePayloadEssence_valid_def)
    fix q assume q: "?r = Some q" "Payload_valid_fuel n d q"
    with assms obtain r where r: "q = Payload_Receipt r"
      by (cases q) (auto simp: MilestonePayload_valid_def MilestonePayloadEssence_valid_def
          MilestonePayloadEssence_wf_def)
    with q(2) obtain k where "ReceiptPayload_valid d (Payload_valid_fuel k d) r" by (cases n) auto
    with r show "Payload_valid_fuel (Suc (Suc m)) d q" by (simp add: ReceiptPayload_valid_fuel)
  qed
  with assms show ?thesis by (simp add: MilestonePayload_valid_def MilestonePayloadEssence_valid_def)
qed

lemma Payload_valid_fuel_3:
  assumes "Payload_valid_fuel n d p"
  shows "Payload_valid_fuel (Suc (Suc (Suc m))) d p"
proof (cases n)
  case (Suc k)
  with assms show ?thesis
    by (cases p) (auto simp del: Payload_valid_fuel.simps simp: Payload_valid_fuel.simps(2) [of k]
        Payload_valid_fuel.simps(2) [of "Suc (Suc m)"] intro: TransactionPayload_valid_fuel
        ReceiptPayload_valid_fuel MilestonePayload_valid_fuel)
qed (use assms in simp)

lemma Payload_validI: "Payload_valid_fuel n d p \<Longrightarrow> Payload_valid d p"
  using Payload_valid_fuel_3 [of n d p 0] by (simp add: Payload_valid_def numeral_3_eq_3)

lemma Payload_valid_fuelI:
  assumes "Payload_valid d p" and "3 \<le> n"
  shows "Payload_valid_fuel n d p"
proof -
  have "Suc (Suc (Suc (n - 3))) = n" using assms(2) by simp
  with Payload_valid_fuel_3 [of 3 d p "n - 3"] assms(1) show ?thesis
    unfolding Payload_valid_def by (simp del: Payload_valid_fuel.simps)
qed

lemma Payload_valid_unfold: "Payload_valid d p = Payload_valid_step d (Payload_valid d) p"
proof -
  have "Payload_valid d = Payload_valid_fuel n d" if "3 \<le> n" for n
    using that Payload_validI Payload_valid_fuelI by blast
  then have "Payload_valid d = Payload_valid_fuel 3 d" and "Payload_valid d = Payload_valid_fuel (Suc 3) d"
    by simp_all
  then show ?thesis by (metis Payload_valid_fuel.simps(2))
qed

interpretation Payload: codec Payload_packed_len Payload_pack "Payload_unpack d" "Payload_valid d" for d
proof unfold_locales
  fix x c rest
  assume v: "Payload_valid d x"
  let ?bs = "Payload_pack x @ rest"
  have x: "Payload_valid_fuel n d x" if "3 \<le> n" for n
    using v that by (rule Payload_valid_fuelI)
  then show len: "length (Payload_pack x) = Payload_packed_len x"
    using codec.length_pack [OF Payload_fuel_codec] by blast
  then have "3 \<le> Suc (length ?bs)"
    by (cases x) auto
  from codec.unpack_pack [OF Payload_fuel_codec x [OF this]]
  show "Payload_unpack d c ?bs = Inr (x, rest)"
    by (simp add: Payload_unpack_def del: Payload_unpack_fuel.simps)
next
  fix bs x rest
  assume "Payload_unpack d True bs = Inr (x, rest)"
  then show "Payload_valid d x"
    unfolding Payload_unpack_def using codec.unpack_valid [OF Payload_fuel_codec] Payload_validI by blast
next
  fix c bs x rest
  assume "Payload_unpack d c bs = Inr (x, rest)"
  then show "Payload_packed_len x \<le> length bs \<and> rest = drop (Payload_packed_len x) bs"
    unfolding Payload_unpack_def using codec.unpack_rest [OF Payload_fuel_codec] by blast
qed

interpretation option_payload: codec
  "\<lambda>x. option_payload_packed_len Payload_packed_len (snd x)"
  "\<lambda>x. option_payload_pack Payload_pack (snd x)" "option_payload_unpack (Payload_unpack d)"
  "\<lambda>x. fst x = payload_len_of (snd x) \<and> option_payload_ok (Payload_valid d) (snd x)" for d
  by (rule option_payload_codec) (rule Payload.codec_axioms)

end
