(* ===== verification/Message_Model.thy ===== *)
theory Message_Model
  imports Payload_Reader Complex_Main
begin

text \<open>
  Messages, the objects that nodes gossip (message.rs of bee-message): identifier, packed form, reader
  and builder. The proof of work provider of the builder is a parameter, the method \<open>nonce\<close> of the
  trait \<open>NonceProvider\<close>; the target score is handed to it unchanged.
\<close>

type_synonym f64 = real

section \<open>Messages\<close>

record Message =
  Message_network_id :: u64
  Message_parents :: Parents
  Message_payload :: "Payload option"
  Message_nonce :: u64

definition Message_packed_len :: "Message \<Rightarrow> nat" where
  "Message_packed_len self =
     num_packed_len (Message_network_id self) + Parents_packed_len (Message_parents self) +
     option_payload_packed_len Payload_packed_len (Message_payload self) +
     num_packed_len (Message_nonce self)"

definition Message_pack :: "Message \<Rightarrow> byte list" where
  "Message_pack self =
     num_pack (Message_network_id self) @ Parents_pack (Message_parents self) @
     option_payload_pack Payload_pack (Message_payload self) @ num_pack (Message_nonce self)"

definition Message_id :: "deps \<Rightarrow> Message \<Rightarrow> MessageId \<times> byte list" where
  "Message_id d self =
     (let bytes = Message_pack self in (MessageId_new (blake2b256 d bytes), bytes))"

fun message_payload_ok :: "Payload option \<Rightarrow> bool" where
  "message_payload_ok None = True"
| "message_payload_ok (Some (Payload_Transaction _)) = True"
| "message_payload_ok (Some (Payload_Milestone _)) = True"
| "message_payload_ok (Some (Payload_Indexation _)) = True"
| "message_payload_ok _ = False"

text \<open>\<open>reader.bytes().next().is_some()\<close>: is there another byte.\<close>

definition no_more_bytes :: "(Error, unit) reader" where
  "no_more_bytes bs = (if bs = [] then Inr ((), bs) else Inl RemainingBytesAfterMessage)"

definition Message_unpack :: "deps \<Rightarrow> bool \<Rightarrow> (Error, Message) reader" where
  "Message_unpack d check =
     bindP (num_read check) (\<lambda>network_id.
     bindP (Parents_unpack d check) (\<lambda>parents.
     bindP (option_payload_unpack (Payload_unpack d) check) (\<lambda>(payload_len, payload).
     bindP (requireP (check \<longrightarrow> message_payload_ok payload)
       (InvalidPayloadKind (Payload_kind (the payload)))) (\<lambda>_.
     bindP (num_read check) (\<lambda>nonce.
     let message_len = num_packed_len network_id + Parents_packed_len parents + payload_len +
       num_packed_len nonce
     in
     bindP (requireP (check \<longrightarrow> \<not> message_len > MESSAGE_LENGTH_MAX) (InvalidMessageLength message_len))
       (\<lambda>_.
     bindP (if check then no_more_bytes else returnP ()) (\<lambda>_.
     returnP \<lparr>Message_network_id = network_id, Message_parents = parents, Message_payload = payload,
       Message_nonce = nonce\<rparr>)))))))"

section \<open>Builder\<close>

definition DEFAULT_POW_SCORE :: f64 where
  "DEFAULT_POW_SCORE = 4000"

definition DEFAULT_NONCE :: u64 where
  "DEFAULT_NONCE = 0"

record 'p MessageBuilder =
  MessageBuilder_network_id :: "u64 option"
  MessageBuilder_parents :: "Parents option"
  MessageBuilder_payload :: "Payload option"
  MessageBuilder_nonce_provider :: "('p \<times> f64) option"

definition MessageBuilder_new :: "'p MessageBuilder" where
  "MessageBuilder_new = \<lparr>MessageBuilder_network_id = None, MessageBuilder_parents = None,
     MessageBuilder_payload = None, MessageBuilder_nonce_provider = None\<rparr>"

definition MessageBuilder_with_network_id :: "u64 \<Rightarrow> 'p MessageBuilder \<Rightarrow> 'p MessageBuilder" where
  "MessageBuilder_with_network_id network_id self = self\<lparr>MessageBuilder_network_id := Some network_id\<rparr>"

definition MessageBuilder_with_parents :: "Parents \<Rightarrow> 'p MessageBuilder \<Rightarrow> 'p MessageBuilder" where
  "MessageBuilder_with_parents parents self = self\<lparr>MessageBuilder_parents := Some parents\<rparr>"

definition MessageBuilder_with_payload :: "Payload \<Rightarrow> 'p MessageBuilder \<Rightarrow> 'p MessageBuilder" where
  "MessageBuilder_with_payload payload self = self\<lparr>MessageBuilder_payload := Some payload\<rparr>"

definition MessageBuilder_with_nonce_provider ::
  "'p \<Rightarrow> f64 \<Rightarrow> 'p MessageBuilder \<Rightarrow> 'p MessageBuilder" where
  "MessageBuilder_with_nonce_provider nonce_provider target_score self =
     self\<lparr>MessageBuilder_nonce_provider := Some (nonce_provider, target_score)\<rparr>"

text \<open>\<open>nonce_of\<close> is \<open>NonceProvider::nonce\<close> (\<open>None\<close> for its error) and \<open>default_provider\<close> is
  \<open>P::Builder::new().finish()\<close>.\<close>

definition MessageBuilder_finish ::
  "('p \<Rightarrow> byte list \<Rightarrow> f64 \<Rightarrow> u64 option) \<Rightarrow> 'p \<Rightarrow> 'p MessageBuilder \<Rightarrow> Error + Message" where
  "MessageBuilder_finish nonce_of default_provider self =
     bindR (ok_or (MissingField ''network_id'') (MessageBuilder_network_id self)) (\<lambda>network_id.
     bindR (ok_or (MissingField ''parents'') (MessageBuilder_parents self)) (\<lambda>parents.
     bindR (requireR (message_payload_ok (MessageBuilder_payload self))
       (InvalidPayloadKind (Payload_kind (the (MessageBuilder_payload self))))) (\<lambda>_.
     let message = \<lparr>Message_network_id = network_id, Message_parents = parents,
           Message_payload = MessageBuilder_payload self, Message_nonce = 0\<rparr>;
         message_bytes = Message_pack message
     in
     bindR (requireR (\<not> length message_bytes > MESSAGE_LENGTH_MAX)
       (InvalidMessageLength (length message_bytes))) (\<lambda>_.
     let (nonce_provider, target_score) =
           (case MessageBuilder_nonce_provider self of
             Some x \<Rightarrow> x
           | None \<Rightarrow> (default_provider, DEFAULT_POW_SCORE))
     in Inr (message\<lparr>Message_nonce :=
       (case nonce_of nonce_provider (take (length message_bytes - 8) message_bytes) target_score of
         Some nonce \<Rightarrow> nonce
       | None \<Rightarrow> DEFAULT_NONCE)\<rparr>)))))"

section \<open>Valid messages\<close>

text \<open>The length that the reader checks leaves out the four bytes of the payload length.\<close>

definition Message_parts_valid :: "deps \<Rightarrow> Message \<Rightarrow> bool" where
  "Message_parts_valid d m \<longleftrightarrow>
     Parents_valid d (Message_parents m) \<and> option_payload_ok (Payload_valid d) (Message_payload m) \<and>
     message_payload_ok (Message_payload m)"

definition Message_valid :: "deps \<Rightarrow> Message \<Rightarrow> bool" where
  "Message_valid d m \<longleftrightarrow>
     Message_parts_valid d m \<and> Message_packed_len m \<le> MESSAGE_LENGTH_MAX + 4"

lemma option_payload_packed_len_eq:
  "option_payload_packed_len Payload_packed_len p = 4 + payload_len_of p"
  by (simp add: option_payload_packed_len_def payload_len_of_def split: option.split)

lemma Message_packed_len_eq:
  "Message_packed_len m =
     20 + Parents_packed_len (Message_parents m) + payload_len_of (Message_payload m)"
  by (simp add: Message_packed_len_def option_payload_packed_len_eq)

lemma Message_pack_length: "Message_parts_valid d m \<Longrightarrow> length (Message_pack m) = Message_packed_len m"
  using option_payload.length_pack [of "(payload_len_of (Message_payload m), Message_payload m)" d]
    Parents.length_pack [of d "Message_parents m"]
  by (simp add: Message_parts_valid_def Message_pack_def Message_packed_len_def codec_len)

lemma bind_no_more_bytes [simp]: "bindP no_more_bytes f [] = f () []"
  by (simp add: bindP_def no_more_bytes_def)

lemma Message_unpack_pack:
  assumes "Message_valid d m"
  shows "Message_unpack d c (Message_pack m) = Inr (m, [])"
proof -
  let ?p = "(payload_len_of (Message_payload m), Message_payload m)"
  have p: "fst ?p = payload_len_of (snd ?p) \<and> option_payload_ok (Payload_valid d) (snd ?p)"
    using assms by (simp add: Message_valid_def Message_parts_valid_def)
  have "bindP (option_payload_unpack (Payload_unpack d) c) f
      (option_payload_pack Payload_pack (Message_payload m) @ rest) = f ?p rest"
    for f :: "_ \<Rightarrow> (Error, Message) reader" and rest
    using option_payload.bind_unpack [OF p] by simp
  with assms show ?thesis
    by (simp add: Message_unpack_def Message_pack_def codec_run Message_valid_def Message_parts_valid_def
        Message_packed_len_eq)
qed

lemma no_more_bytes_Inr_iff [simp]: "no_more_bytes bs = Inr (u, rest) \<longleftrightarrow> bs = [] \<and> rest = []"
  by (auto simp: no_more_bytes_def)

lemma Message_unpack_True:
  assumes "Message_unpack d True bs = Inr (m, rest)"
  shows "Message_valid d m \<and> rest = [] \<and> length bs = Message_packed_len m"
proof -
  from assms obtain network_id parents payload_len payload nonce r1 r2 r3 where
    1: "num_read True bs = Inr (network_id :: u64, r1)" and
    2: "Parents_unpack d True r1 = Inr (parents, r2)" and
    3: "option_payload_unpack (Payload_unpack d) True r2 = Inr ((payload_len, payload), r3)" and
    4: "num_read True r3 = Inr (nonce :: u64, [])" and
    ok: "message_payload_ok payload" "16 + Parents_packed_len parents + payload_len \<le> MESSAGE_LENGTH_MAX"
      "rest = []" and
    m: "m = \<lparr>Message_network_id = network_id, Message_parents = parents, Message_payload = payload,
       Message_nonce = nonce\<rparr>"
    by (auto simp: Message_unpack_def bindP_Inr_iff Let_def split: if_splits)
  from option_payload.unpack_drop [OF 3]
  have p: "payload_len = payload_len_of payload" "option_payload_ok (Payload_valid d) payload"
    "option_payload_packed_len Payload_packed_len payload \<le> length r2"
    "r3 = drop (option_payload_packed_len Payload_packed_len payload) r2"
    by simp_all
  from ru64.unpack_drop [OF 1] Parents.unpack_drop [OF 2] ru64.unpack_drop [OF 4] p m ok show ?thesis
    by (auto simp: Message_valid_def Message_parts_valid_def Message_packed_len_eq
        option_payload_packed_len_eq)
qed

text \<open>Every valid message has at least the length of one without payload and with one parent.\<close>

lemma Message_length_min:
  assumes "Message_parts_valid d m"
  shows "MESSAGE_LENGTH_MIN \<le> Message_packed_len m"
proof -
  have "1 \<le> Parents_len (Message_parents m)"
    using assms by (simp add: Message_parts_valid_def Parents_valid_def MESSAGE_PARENTS_RANGE_def
        Parents_len_def)
  then have "33 \<le> Parents_packed_len (Message_parents m)"
    by (simp add: Parents_packed_len_def MESSAGE_ID_LENGTH_def)
  then show ?thesis
    by (simp add: Message_packed_len_eq MESSAGE_LENGTH_MIN_def)
qed

section \<open>What the builder delivers\<close>

lemma MessageBuilder_finish_Inr:
  assumes "MessageBuilder_finish nonce_of dp b = Inr m"
  shows "MessageBuilder_network_id b = Some (Message_network_id m)"
    and "MessageBuilder_parents b = Some (Message_parents m)"
    and "MessageBuilder_payload b = Message_payload m"
    and "message_payload_ok (Message_payload m)"
    and "length (Message_pack m) \<le> MESSAGE_LENGTH_MAX"
    and "\<exists>p s. (case MessageBuilder_nonce_provider b of
           Some x \<Rightarrow> (p, s) = x | None \<Rightarrow> p = dp \<and> s = DEFAULT_POW_SCORE) \<and>
         Message_nonce m = (case nonce_of p (take (length (Message_pack m) - 8) (Message_pack m)) s of
           Some n \<Rightarrow> n | None \<Rightarrow> DEFAULT_NONCE)"
proof -
  obtain n ps where b: "MessageBuilder_network_id b = Some n" "MessageBuilder_parents b = Some ps"
    using assms by (auto simp: MessageBuilder_finish_def bindR_Inr_iff)
  let ?m = "\<lambda>k. \<lparr>Message_network_id = n, Message_parents = ps,
    Message_payload = MessageBuilder_payload b, Message_nonce = k\<rparr>"
  let ?provider = "case MessageBuilder_nonce_provider b of
    Some x \<Rightarrow> x | None \<Rightarrow> (dp, DEFAULT_POW_SCORE)"
  have len: "length (Message_pack (?m k)) = length (Message_pack (?m 0))"
    and pre: "take (length (Message_pack (?m k)) - 8) (Message_pack (?m k)) =
      take (length (Message_pack (?m 0)) - 8) (Message_pack (?m 0))" for k
    by (simp_all add: Message_pack_def codec_len)
  from assms b have ok: "message_payload_ok (MessageBuilder_payload b)"
    "length (Message_pack (?m 0)) \<le> MESSAGE_LENGTH_MAX"
    and "m = ?m (case nonce_of (fst ?provider)
        (take (length (Message_pack (?m 0)) - 8) (Message_pack (?m 0))) (snd ?provider) of
      Some n \<Rightarrow> n | None \<Rightarrow> DEFAULT_NONCE)"
    by (auto simp: MessageBuilder_finish_def bindR_Inr_iff Let_def case_prod_unfold)
  then obtain k where m: "m = ?m k" and k: "k = (case nonce_of (fst ?provider)
        (take (length (Message_pack (?m 0)) - 8) (Message_pack (?m 0))) (snd ?provider) of
      Some n \<Rightarrow> n | None \<Rightarrow> DEFAULT_NONCE)"
    by blast
  from b m ok len [of k] show "MessageBuilder_network_id b = Some (Message_network_id m)"
    and "MessageBuilder_parents b = Some (Message_parents m)"
    and "MessageBuilder_payload b = Message_payload m"
    and "message_payload_ok (Message_payload m)"
    and "length (Message_pack m) \<le> MESSAGE_LENGTH_MAX"
    by simp_all
  show "\<exists>p s. (case MessageBuilder_nonce_provider b of
           Some x \<Rightarrow> (p, s) = x | None \<Rightarrow> p = dp \<and> s = DEFAULT_POW_SCORE) \<and>
         Message_nonce m = (case nonce_of p (take (length (Message_pack m) - 8) (Message_pack m)) s of
           Some n \<Rightarrow> n | None \<Rightarrow> DEFAULT_NONCE)"
    by (rule exI [of _ "fst ?provider"], rule exI [of _ "snd ?provider"])
      (simp add: m pre [of k] k [symmetric] split: option.split)
qed

lemma MessageBuilder_finish_valid:
  assumes "MessageBuilder_finish nonce_of dp b = Inr m"
    and "Parents_valid d (Message_parents m)"
    and "\<And>p. Message_payload m = Some p \<Longrightarrow> Payload_valid d p"
  shows "Message_valid d m" and "Message_packed_len m \<le> MESSAGE_LENGTH_MAX"
proof -
  note m = MessageBuilder_finish_Inr [OF assms(1)]
  have "Payload_packed_len p < 2 ^ 32" if "Message_payload m = Some p" for p
    using m(5) that assms(3) [OF that] Payload.length_pack [of d p]
    by (simp add: Message_pack_def option_payload_pack_def MESSAGE_LENGTH_MAX_def)
  with m(4) assms(2,3) have parts: "Message_parts_valid d m"
    by (auto simp: Message_parts_valid_def option_payload_ok_def split: option.split)
  with m(5) show "Message_packed_len m \<le> MESSAGE_LENGTH_MAX"
    by (simp add: Message_pack_length)
  with parts show "Message_valid d m" by (simp add: Message_valid_def)
qed

section \<open>Properties\<close>

definition sample_message :: "Payload option \<Rightarrow> Message" where
  "sample_message p = \<lparr>Message_network_id = 1, Message_parents = Parents [MessageId (replicate 32 7)],
     Message_payload = p, Message_nonce = 5\<rparr>"

definition sample_indexation :: "nat \<Rightarrow> Payload" where
  "sample_indexation n =
     Payload_Indexation \<lparr>IndexationPayload_index = [1], IndexationPayload_data = replicate n 0\<rparr>"

lemma sample_parents_valid: "Parents_valid sample_deps (Parents [MessageId (replicate 32 7)])"
  by (simp add: Parents_valid_def MessageId_valid_def MESSAGE_ID_LENGTH_def MESSAGE_PARENTS_RANGE_def
      sample_deps_def)

lemma sample_indexation_valid:
  assumes "n \<le> MESSAGE_LENGTH_MAX"
  shows "Payload_valid d (sample_indexation n)" and "Payload_packed_len (sample_indexation n) = 11 + n"
  using assms
  by (simp_all add: Payload_valid_unfold sample_indexation_def IndexationPayload_valid_def
      INDEXATION_INDEX_LENGTH_RANGE_def INDEXATION_PADDED_INDEX_LENGTH_def IndexationPayload_packed_len_def)

lemma sample_message_valid:
  assumes "n \<le> 32708"
  shows "Message_valid sample_deps (sample_message (Some (sample_indexation n)))"
    and "Message_packed_len (sample_message (Some (sample_indexation n))) = 64 + n"
  using assms sample_parents_valid sample_indexation_valid(1) [of n sample_deps]
    sample_indexation_valid(2) [of n]
  by (simp_all add: Message_valid_def Message_parts_valid_def sample_message_def option_payload_ok_def
      Message_packed_len_eq payload_len_of_def Parents_packed_len_def Parents_len_def
      MESSAGE_ID_LENGTH_def MESSAGE_LENGTH_MAX_def) (simp_all add: sample_indexation_def)

text \<open>C5. Packing a valid message and reading the bytes gives the message back and leaves no byte
  over, whether or not the reader applies its checks; the bytes are as many as \<open>packed_len\<close> says.\<close>

theorem message_roundtrip:
  assumes "Message_valid d m"
  shows "Message_unpack d check (Message_pack m) = Inr (m, []) \<and>
    length (Message_pack m) = Message_packed_len m"
  using assms Message_unpack_pack [of d m check] Message_pack_length [of d m]
  by (simp add: Message_valid_def)

theorem message_roundtrip_witness:
  "Message_unpack sample_deps True (Message_pack (sample_message (Some (sample_indexation 3)))) =
     Inr (sample_message (Some (sample_indexation 3)), [])"
  using message_roundtrip [OF sample_message_valid(1) [of 3], of True] by simp

text \<open>C14. What the checking reader accepts is a valid message that takes up the whole input, and the
  input is not shorter than the minimum and at most four bytes longer than the maximum length
  of a message.\<close>

theorem message_unpack_sound:
  assumes "Message_unpack d True bs = Inr (m, rest)"
  shows "Message_valid d m \<and> rest = [] \<and> length bs = Message_packed_len m \<and>
    MESSAGE_LENGTH_MIN \<le> length bs \<and> length bs \<le> MESSAGE_LENGTH_MAX + 4"
  using Message_unpack_True [OF assms] Message_length_min [of d m] by (auto simp: Message_valid_def)

theorem message_unpack_sound_witness:
  "length (Message_pack (sample_message (Some (sample_indexation 3)))) \<le> MESSAGE_LENGTH_MAX + 4"
  using message_unpack_sound [OF Message_unpack_pack [OF sample_message_valid(1) [of 3]]] by simp

text \<open>C15. The bound on the length is attained: the checking reader accepts a message four bytes longer
  than \<open>MESSAGE_LENGTH_MAX\<close>, while the builder refuses the same parts because of their length. The
  length that the reader computes leaves out the length field of the payload.\<close>

theorem message_reader_exceeds_maximum:
  "\<exists>bs m. Message_unpack sample_deps True bs = Inr (m, []) \<and> length bs = MESSAGE_LENGTH_MAX + 4 \<and>
     MessageBuilder_finish nonce_of provider
       \<lparr>MessageBuilder_network_id = Some (Message_network_id m),
        MessageBuilder_parents = Some (Message_parents m), MessageBuilder_payload = Message_payload m,
        MessageBuilder_nonce_provider = np\<rparr> = Inl (InvalidMessageLength (MESSAGE_LENGTH_MAX + 4))"
proof (intro exI conjI)
  let ?m = "sample_message (Some (sample_indexation 32708))"
  note v = sample_message_valid [of 32708]
  show "Message_unpack sample_deps True (Message_pack ?m) = Inr (?m, [])"
    using v by (simp add: Message_unpack_pack)
  have len: "length (Message_pack ?m) = 32772"
    using v Message_pack_length [of sample_deps ?m] by (simp add: Message_valid_def)
  then show "length (Message_pack ?m) = MESSAGE_LENGTH_MAX + 4"
    by (simp add: MESSAGE_LENGTH_MAX_def)
  have "length (Message_pack (?m\<lparr>Message_nonce := 0\<rparr>)) = length (Message_pack ?m)"
    by (simp add: Message_pack_def codec_len)
  with len show "MessageBuilder_finish nonce_of provider
       \<lparr>MessageBuilder_network_id = Some (Message_network_id ?m),
        MessageBuilder_parents = Some (Message_parents ?m), MessageBuilder_payload = Message_payload ?m,
        MessageBuilder_nonce_provider = np\<rparr> = Inl (InvalidMessageLength (MESSAGE_LENGTH_MAX + 4))"
    by (simp add: MessageBuilder_finish_def sample_message_def sample_indexation_def
        MESSAGE_LENGTH_MAX_def)
qed

text \<open>C16. A message that the builder delivers from valid parents and a valid payload is not longer than
  \<open>MESSAGE_LENGTH_MAX\<close>, is read back by the checking reader, carries the parts it was built
  from, and has the nonce that the provider found for exactly its bytes without the nonce.\<close>

theorem message_builder_sound:
  assumes "MessageBuilder_finish nonce_of provider
      \<lparr>MessageBuilder_network_id = Some n, MessageBuilder_parents = Some ps,
       MessageBuilder_payload = payload, MessageBuilder_nonce_provider = Some (p, score)\<rparr> = Inr m"
    and "Parents_valid d ps" and "\<forall>q. payload = Some q \<longrightarrow> Payload_valid d q"
  shows "Message_unpack d True (Message_pack m) = Inr (m, []) \<and>
    length (Message_pack m) \<le> MESSAGE_LENGTH_MAX \<and>
    Message_network_id m = n \<and> Message_parents m = ps \<and> Message_payload m = payload \<and>
    Message_nonce m = (case nonce_of p (take (length (Message_pack m) - 8) (Message_pack m)) score of
      Some k \<Rightarrow> k | None \<Rightarrow> DEFAULT_NONCE)"
proof -
  note m = MessageBuilder_finish_Inr [OF assms(1), simplified]
  from MessageBuilder_finish_valid(1) [OF assms(1), of d] m assms(2,3)
  have "Message_valid d m" by auto
  with m show ?thesis by (simp add: Message_unpack_pack)
qed

theorem message_builder_sound_witness:
  "\<exists>m. MessageBuilder_finish (\<lambda>_ _ _. Some 9) ()
      \<lparr>MessageBuilder_network_id = Some 1,
       MessageBuilder_parents = Some (Parents [MessageId (replicate 32 7)]),
       MessageBuilder_payload = None, MessageBuilder_nonce_provider = Some ((), 4000)\<rparr> = Inr m \<and>
     Message_unpack sample_deps True (Message_pack m) = Inr (m, []) \<and> Message_nonce m = 9"
proof -
  let ?m = "sample_message None\<lparr>Message_nonce := 9\<rparr>"
  have "length (Message_pack (sample_message None\<lparr>Message_nonce := 0\<rparr>)) \<le> MESSAGE_LENGTH_MAX"
    by (simp add: sample_message_def Message_pack_def Parents_pack_def MessageId_pack_def
        option_payload_pack_def codec_len Parents_len_def MESSAGE_LENGTH_MAX_def array_pack_def)
  then have *: "MessageBuilder_finish (\<lambda>_ _ _. Some 9) ()
      \<lparr>MessageBuilder_network_id = Some 1,
       MessageBuilder_parents = Some (Parents [MessageId (replicate 32 7)]),
       MessageBuilder_payload = None, MessageBuilder_nonce_provider = Some ((), 4000)\<rparr> = Inr ?m"
    by (simp add: MessageBuilder_finish_def sample_message_def not_less)
  with message_builder_sound [OF this sample_parents_valid] show ?thesis by auto
qed

end
