(* ===== verification/Tangle_Types.thy ===== *)
theory Tangle_Types
  imports Message_Model
begin

text \<open>
  The records bee-tangle keeps about messages: conflict reasons (conflict.rs), flags (flags.rs),
  metadata with cone root indices (metadata.rs), solid entry points (solid_entry_point.rs) and
  unreferenced messages (unreferenced_message.rs), with their packed forms. The operations of the
  bitflags crate on flags are those of the record of external functions; the system time is an
  argument.
\<close>

section \<open>Conflict reasons\<close>

datatype ConflictError = ConflictError_Io io_error | InvalidConflict u8

datatype ConflictReason =
    ConflictReason_None
  | InputUtxoAlreadySpent
  | InputUtxoAlreadySpentInThisMilestone
  | InputUtxoNotFound
  | InputOutputSumMismatch
  | InvalidSignature
  | InvalidDustAllowance
  | SemanticValidationFailed

fun ConflictReason_u8 :: "ConflictReason \<Rightarrow> u8" where
  "ConflictReason_u8 ConflictReason_None = 0"
| "ConflictReason_u8 InputUtxoAlreadySpent = 1"
| "ConflictReason_u8 InputUtxoAlreadySpentInThisMilestone = 2"
| "ConflictReason_u8 InputUtxoNotFound = 3"
| "ConflictReason_u8 InputOutputSumMismatch = 4"
| "ConflictReason_u8 InvalidSignature = 5"
| "ConflictReason_u8 InvalidDustAllowance = 6"
| "ConflictReason_u8 SemanticValidationFailed = 255"

definition ConflictReason_try_from :: "u8 \<Rightarrow> ConflictError + ConflictReason" where
  "ConflictReason_try_from c =
     (if c = 0 then Inr ConflictReason_None
      else if c = 1 then Inr InputUtxoAlreadySpent
      else if c = 2 then Inr InputUtxoAlreadySpentInThisMilestone
      else if c = 3 then Inr InputUtxoNotFound
      else if c = 4 then Inr InputOutputSumMismatch
      else if c = 5 then Inr InvalidSignature
      else if c = 6 then Inr InvalidDustAllowance
      else if c = 255 then Inr SemanticValidationFailed
      else Inl (InvalidConflict c))"

definition ConflictReason_packed_len :: "ConflictReason \<Rightarrow> nat" where
  "ConflictReason_packed_len self = num_packed_len (ConflictReason_u8 self)"

definition ConflictReason_pack :: "ConflictReason \<Rightarrow> byte list" where
  "ConflictReason_pack self = num_pack (ConflictReason_u8 self)"

definition ConflictReason_unpack :: "bool \<Rightarrow> (ConflictError, ConflictReason) reader" where
  "ConflictReason_unpack check =
     bindP (map_errP ConflictError_Io (num_unpack check)) (\<lambda>c. liftP (ConflictReason_try_from c))"

lemma ConflictReason_try_from_iff:
  "ConflictReason_try_from c = Inr r \<longleftrightarrow> ConflictReason_u8 r = c"
  by (cases r) (auto simp: ConflictReason_try_from_def)

interpretation ConflictReason: canonical_codec ConflictReason_packed_len ConflictReason_pack
    ConflictReason_unpack "\<lambda>_. True"
  by (rule via_canonical [OF u8.map_err_canonical [of ConflictError_Io], where
        get = ConflictReason_u8 and make = ConflictReason_try_from])
    (auto simp: ConflictReason_packed_len_def ConflictReason_pack_def ConflictReason_unpack_def
      ConflictReason_try_from_iff)

section \<open>Flags\<close>

datatype Flags = Flags (Flags_bits: u8)

definition Flags_default :: Flags where
  "Flags_default = Flags 0"

definition SOLID :: u8 where
  "SOLID = 0b00000001"

definition MILESTONE :: u8 where
  "MILESTONE = 0b00000010"

definition REFERENCED :: u8 where
  "REFERENCED = 0b00000100"

definition VALID :: u8 where
  "VALID = 0b00001000"

definition REQUESTED :: u8 where
  "REQUESTED = 0b00010000"

definition Flags_is_solid :: "deps \<Rightarrow> Flags \<Rightarrow> bool" where
  "Flags_is_solid d self = flags_contains d (Flags_bits self) SOLID"

definition Flags_set_solid :: "deps \<Rightarrow> bool \<Rightarrow> Flags \<Rightarrow> Flags" where
  "Flags_set_solid d is_solid self = Flags (flags_set d (Flags_bits self) SOLID is_solid)"

definition Flags_is_milestone :: "deps \<Rightarrow> Flags \<Rightarrow> bool" where
  "Flags_is_milestone d self = flags_contains d (Flags_bits self) MILESTONE"

definition Flags_set_milestone :: "deps \<Rightarrow> bool \<Rightarrow> Flags \<Rightarrow> Flags" where
  "Flags_set_milestone d is_milestone self = Flags (flags_set d (Flags_bits self) MILESTONE is_milestone)"

definition Flags_is_referenced :: "deps \<Rightarrow> Flags \<Rightarrow> bool" where
  "Flags_is_referenced d self = flags_contains d (Flags_bits self) REFERENCED"

definition Flags_set_referenced :: "deps \<Rightarrow> bool \<Rightarrow> Flags \<Rightarrow> Flags" where
  "Flags_set_referenced d is_referenced self =
     Flags (flags_set d (Flags_bits self) REFERENCED is_referenced)"

definition Flags_is_valid :: "deps \<Rightarrow> Flags \<Rightarrow> bool" where
  "Flags_is_valid d self = flags_contains d (Flags_bits self) VALID"

definition Flags_set_valid :: "deps \<Rightarrow> bool \<Rightarrow> Flags \<Rightarrow> Flags" where
  "Flags_set_valid d is_valid self = Flags (flags_set d (Flags_bits self) VALID is_valid)"

definition Flags_was_requested :: "deps \<Rightarrow> Flags \<Rightarrow> bool" where
  "Flags_was_requested d self = flags_contains d (Flags_bits self) REQUESTED"

definition Flags_set_requested :: "deps \<Rightarrow> bool \<Rightarrow> Flags \<Rightarrow> Flags" where
  "Flags_set_requested d was_requested self =
     Flags (flags_set d (Flags_bits self) REQUESTED was_requested)"

definition Flags_packed_len :: "Flags \<Rightarrow> nat" where
  "Flags_packed_len self = num_packed_len (Flags_bits self)"

definition Flags_pack :: "Flags \<Rightarrow> byte list" where
  "Flags_pack self = num_pack (Flags_bits self)"

definition Flags_unpack :: "bool \<Rightarrow> (io_error, Flags) reader" where
  "Flags_unpack check = bindP (num_unpack check) (\<lambda>bits. returnP (Flags bits))"

interpretation Flags: canonical_codec Flags_packed_len Flags_pack Flags_unpack "\<lambda>_. True"
  by (rule via_canonical [OF u8.canonical_codec_axioms, where get = Flags_bits and make = "Inr \<circ> Flags"])
    (auto simp: Flags_packed_len_def Flags_pack_def Flags_unpack_def)

text \<open>A flag that is set is read back, and the other flags keep their values.\<close>

lemmas Flags_getters = Flags_is_solid_def Flags_is_milestone_def Flags_is_referenced_def
  Flags_is_valid_def Flags_was_requested_def

lemmas Flags_setters = Flags_set_solid_def Flags_set_milestone_def Flags_set_referenced_def
  Flags_set_valid_def Flags_set_requested_def

definition Flags_view :: "deps \<Rightarrow> Flags \<Rightarrow> bool list" where
  "Flags_view d f = [Flags_is_solid d f, Flags_is_milestone d f, Flags_is_referenced d f,
     Flags_is_valid d f, Flags_was_requested d f]"

definition flag :: "nat \<Rightarrow> u8" where
  "flag n = push_bit n 1"

lemma bit_flag: "bit (flag n) m \<longleftrightarrow> m = n \<and> n < 8"
  by (auto simp: flag_def bit_simps)

lemma flags_contains_bit:
  assumes "bitflags_spec d" and "n < 8"
  shows "flags_contains d bits (flag n) \<longleftrightarrow> bit bits n"
proof -
  have "bits AND flag n = flag n \<longleftrightarrow> bit bits n"
    using assms(2) by (auto simp: bit_and_iff bit_flag intro!: bit_word_eqI dest: arg_cong [where f = "\<lambda>w. bit w n"])
  with assms show ?thesis by (simp add: bitflags_spec_def)
qed

lemma flags_set_bit:
  assumes "bitflags_spec d"
  shows "bit (flags_set d bits (flag n) on) m \<longleftrightarrow> (if m = n \<and> n < 8 then on else bit bits m)"
  using assms by (auto simp: bitflags_spec_def bit_simps bit_flag dest: bit_imp_le_length)

lemma Flags_names:
  "SOLID = flag 0" "MILESTONE = flag 1" "REFERENCED = flag 2" "VALID = flag 3" "REQUESTED = flag 4"
  by (simp_all add: SOLID_def MILESTONE_def REFERENCED_def VALID_def REQUESTED_def flag_def
      push_bit_eq_mult)

lemma Flags_view_set:
  assumes "bitflags_spec d"
  shows "Flags_view d (Flags_set_solid d b f) = (Flags_view d f)[0 := b]"
    and "Flags_view d (Flags_set_milestone d b f) = (Flags_view d f)[1 := b]"
    and "Flags_view d (Flags_set_referenced d b f) = (Flags_view d f)[2 := b]"
    and "Flags_view d (Flags_set_valid d b f) = (Flags_view d f)[3 := b]"
    and "Flags_view d (Flags_set_requested d b f) = (Flags_view d f)[4 := b]"
  by (simp_all add: Flags_view_def Flags_getters Flags_setters Flags_names
      flags_contains_bit [OF assms] flags_set_bit [OF assms])

section \<open>Metadata\<close>

datatype IndexIdError = IndexIdError_Io io_error | IndexIdError_MessageId Error

datatype IndexId = IndexId (IndexId_index: MilestoneIndex) (IndexId_id: MessageId)

definition IndexId_cmp :: "IndexId \<Rightarrow> IndexId \<Rightarrow> Ordering" where
  "IndexId_cmp self other =
     (let a = MilestoneIndex_value (IndexId_index self); b = MilestoneIndex_value (IndexId_index other)
      in if a < b then Less else if a = b then Equal else Greater)"

definition IndexId_eq :: "IndexId \<Rightarrow> IndexId \<Rightarrow> bool" where
  "IndexId_eq self other \<longleftrightarrow> IndexId_index self = IndexId_index other"

definition IndexId_packed_len :: "IndexId \<Rightarrow> nat" where
  "IndexId_packed_len self =
     MilestoneIndex_packed_len (IndexId_index self) + MessageId_packed_len (IndexId_id self)"

definition IndexId_pack :: "IndexId \<Rightarrow> byte list" where
  "IndexId_pack self = MilestoneIndex_pack (IndexId_index self) @ MessageId_pack (IndexId_id self)"

definition IndexId_unpack :: "bool \<Rightarrow> (IndexIdError, IndexId) reader" where
  "IndexId_unpack check =
     bindP (map_errP IndexIdError_Io (MilestoneIndex_unpack check)) (\<lambda>index.
     bindP (map_errP IndexIdError_MessageId (MessageId_unpack check)) (\<lambda>message_id.
     returnP (IndexId index message_id)))"

interpretation IndexId: canonical_codec IndexId_packed_len IndexId_pack IndexId_unpack
    "\<lambda>x. MessageId_valid (IndexId_id x)"
  by (rule via_canonical [OF seq_canonical [OF MilestoneIndex.map_err_canonical [of IndexIdError_Io]
        MessageId.map_err_canonical [of IndexIdError_MessageId]], where
        get = "\<lambda>x. (IndexId_index x, IndexId_id x)" and make = "\<lambda>(i, m). Inr (IndexId i m)"])
    (auto simp: IndexId_packed_len_def IndexId_pack_def IndexId_unpack_def)

text \<open>\<open>Ord\<close> and \<open>PartialEq\<close> agree: both look at the index only.\<close>

lemma IndexId_cmp_Equal: "IndexId_cmp x y = Equal \<longleftrightarrow> IndexId_eq x y"
  by (auto simp: IndexId_cmp_def IndexId_eq_def Let_def MilestoneIndex.expand)

datatype MessageMetadataError =
    MessageMetadataError_Io io_error
  | OptionIndex "io_error OptionError"
  | OptionIndexId "IndexIdError OptionError"
  | MessageMetadataError_Conflict ConflictError

record MessageMetadata =
  MessageMetadata_flags :: Flags
  MessageMetadata_milestone_index :: "MilestoneIndex option"
  MessageMetadata_arrival_timestamp :: u64
  MessageMetadata_solidification_timestamp :: u64
  MessageMetadata_reference_timestamp :: u64
  MessageMetadata_omrsi :: "IndexId option"
  MessageMetadata_ymrsi :: "IndexId option"
  MessageMetadata_conflict :: ConflictReason

definition MessageMetadata_default :: MessageMetadata where
  "MessageMetadata_default =
     \<lparr>MessageMetadata_flags = Flags_default, MessageMetadata_milestone_index = None,
      MessageMetadata_arrival_timestamp = 0, MessageMetadata_solidification_timestamp = 0,
      MessageMetadata_reference_timestamp = 0, MessageMetadata_omrsi = None,
      MessageMetadata_ymrsi = None, MessageMetadata_conflict = ConflictReason_None\<rparr>"

definition MessageMetadata_arrived :: "u64 \<Rightarrow> MessageMetadata" where
  "MessageMetadata_arrived now = MessageMetadata_default\<lparr>MessageMetadata_arrival_timestamp := now\<rparr>"

definition MessageMetadata_mark_solid :: "deps \<Rightarrow> u64 \<Rightarrow> MessageMetadata \<Rightarrow> MessageMetadata" where
  "MessageMetadata_mark_solid d now self =
     self\<lparr>MessageMetadata_flags := Flags_set_solid d True (MessageMetadata_flags self),
       MessageMetadata_solidification_timestamp := now\<rparr>"

definition MessageMetadata_reference :: "deps \<Rightarrow> u64 \<Rightarrow> MessageMetadata \<Rightarrow> MessageMetadata" where
  "MessageMetadata_reference d timestamp self =
     self\<lparr>MessageMetadata_flags := Flags_set_referenced d True (MessageMetadata_flags self),
       MessageMetadata_reference_timestamp := timestamp\<rparr>"

definition MessageMetadata_set_conflict :: "ConflictReason \<Rightarrow> MessageMetadata \<Rightarrow> MessageMetadata" where
  "MessageMetadata_set_conflict conflict self = self\<lparr>MessageMetadata_conflict := conflict\<rparr>"

definition MessageMetadata_packed_len :: "MessageMetadata \<Rightarrow> nat" where
  "MessageMetadata_packed_len self =
     Flags_packed_len (MessageMetadata_flags self) +
     option_packed_len MilestoneIndex_packed_len (MessageMetadata_milestone_index self) +
     num_packed_len (MessageMetadata_arrival_timestamp self) +
     num_packed_len (MessageMetadata_solidification_timestamp self) +
     num_packed_len (MessageMetadata_reference_timestamp self) +
     option_packed_len IndexId_packed_len (MessageMetadata_omrsi self) +
     option_packed_len IndexId_packed_len (MessageMetadata_ymrsi self) +
     ConflictReason_packed_len (MessageMetadata_conflict self)"

definition MessageMetadata_pack :: "MessageMetadata \<Rightarrow> byte list" where
  "MessageMetadata_pack self =
     Flags_pack (MessageMetadata_flags self) @
     option_pack MilestoneIndex_pack (MessageMetadata_milestone_index self) @
     num_pack (MessageMetadata_arrival_timestamp self) @
     num_pack (MessageMetadata_solidification_timestamp self) @
     num_pack (MessageMetadata_reference_timestamp self) @
     option_pack IndexId_pack (MessageMetadata_omrsi self) @
     option_pack IndexId_pack (MessageMetadata_ymrsi self) @
     ConflictReason_pack (MessageMetadata_conflict self)"

definition MessageMetadata_unpack :: "bool \<Rightarrow> (MessageMetadataError, MessageMetadata) reader" where
  "MessageMetadata_unpack check =
     bindP (map_errP MessageMetadataError_Io (Flags_unpack check)) (\<lambda>flags.
     bindP (map_errP OptionIndex (option_unpack MilestoneIndex_unpack check)) (\<lambda>milestone_index.
     bindP (map_errP MessageMetadataError_Io (num_unpack check)) (\<lambda>arrival_timestamp.
     bindP (map_errP MessageMetadataError_Io (num_unpack check)) (\<lambda>solidification_timestamp.
     bindP (map_errP MessageMetadataError_Io (num_unpack check)) (\<lambda>reference_timestamp.
     bindP (map_errP OptionIndexId (option_unpack IndexId_unpack check)) (\<lambda>omrsi.
     bindP (map_errP OptionIndexId (option_unpack IndexId_unpack check)) (\<lambda>ymrsi.
     bindP (map_errP MessageMetadataError_Conflict (ConflictReason_unpack check)) (\<lambda>conflict.
     returnP \<lparr>MessageMetadata_flags = flags, MessageMetadata_milestone_index = milestone_index,
       MessageMetadata_arrival_timestamp = arrival_timestamp,
       MessageMetadata_solidification_timestamp = solidification_timestamp,
       MessageMetadata_reference_timestamp = reference_timestamp, MessageMetadata_omrsi = omrsi,
       MessageMetadata_ymrsi = ymrsi, MessageMetadata_conflict = conflict\<rparr>))))))))"

definition IndexId_option_valid :: "IndexId option \<Rightarrow> bool" where
  "IndexId_option_valid x = (case x of None \<Rightarrow> True | Some i \<Rightarrow> MessageId_valid (IndexId_id i))"

definition MessageMetadata_valid :: "MessageMetadata \<Rightarrow> bool" where
  "MessageMetadata_valid self \<longleftrightarrow>
     IndexId_option_valid (MessageMetadata_omrsi self) \<and> IndexId_option_valid (MessageMetadata_ymrsi self)"

interpretation option_index: codec "option_packed_len MilestoneIndex_packed_len"
    "option_pack MilestoneIndex_pack" "option_unpack MilestoneIndex_unpack" "\<lambda>_. True"
  using MilestoneIndex.option_codec by (simp add: option.case_eq_if)

interpretation option_index_id: codec "option_packed_len IndexId_packed_len"
    "option_pack IndexId_pack" "option_unpack IndexId_unpack" IndexId_option_valid
  using IndexId.option_codec by (simp add: IndexId_option_valid_def [abs_def])

lemmas metadata_u64 = u64.map_err_codec [of MessageMetadataError_Io]

interpretation MessageMetadata: codec MessageMetadata_packed_len MessageMetadata_pack
    MessageMetadata_unpack MessageMetadata_valid
  by (rule via_codec [OF seq_codec [OF Flags.map_err_codec [of MessageMetadataError_Io]
        seq_codec [OF option_index.map_err_codec [of OptionIndex]
        seq_codec [OF metadata_u64 seq_codec [OF metadata_u64 seq_codec [OF metadata_u64
        seq_codec [OF option_index_id.map_err_codec [of OptionIndexId]
        seq_codec [OF option_index_id.map_err_codec [of OptionIndexId]
          ConflictReason.map_err_codec [of MessageMetadataError_Conflict]]]]]]]], where
        get = "\<lambda>x. (MessageMetadata_flags x, MessageMetadata_milestone_index x,
          MessageMetadata_arrival_timestamp x, MessageMetadata_solidification_timestamp x,
          MessageMetadata_reference_timestamp x, MessageMetadata_omrsi x, MessageMetadata_ymrsi x,
          MessageMetadata_conflict x)" and
        make = "\<lambda>(f, i, a, s, r, om, ym, c). Inr \<lparr>MessageMetadata_flags = f,
          MessageMetadata_milestone_index = i, MessageMetadata_arrival_timestamp = a,
          MessageMetadata_solidification_timestamp = s, MessageMetadata_reference_timestamp = r,
          MessageMetadata_omrsi = om, MessageMetadata_ymrsi = ym, MessageMetadata_conflict = c\<rparr>"])
    (auto simp: MessageMetadata_packed_len_def MessageMetadata_pack_def MessageMetadata_unpack_def
      MessageMetadata_valid_def)

lemma MessageMetadata_reference_referenced:
  assumes "bitflags_spec d"
  shows "Flags_is_referenced d (MessageMetadata_flags (MessageMetadata_reference d t m))"
  using Flags_view_set(3) [OF assms, of True "MessageMetadata_flags m"]
  by (simp add: Flags_view_def MessageMetadata_reference_def)

section \<open>Solid entry points and unreferenced messages\<close>

datatype SolidEntryPoint = SolidEntryPoint (SolidEntryPoint_message_id: MessageId)

definition SolidEntryPoint_null :: SolidEntryPoint where
  "SolidEntryPoint_null = SolidEntryPoint MessageId_null"

definition SolidEntryPoint_packed_len :: "SolidEntryPoint \<Rightarrow> nat" where
  "SolidEntryPoint_packed_len self = MessageId_packed_len (SolidEntryPoint_message_id self)"

definition SolidEntryPoint_pack :: "SolidEntryPoint \<Rightarrow> byte list" where
  "SolidEntryPoint_pack self = MessageId_pack (SolidEntryPoint_message_id self)"

definition SolidEntryPoint_unpack :: "bool \<Rightarrow> (Error, SolidEntryPoint) reader" where
  "SolidEntryPoint_unpack check =
     bindP (MessageId_unpack check) (\<lambda>message_id. returnP (SolidEntryPoint message_id))"

interpretation SolidEntryPoint: canonical_codec SolidEntryPoint_packed_len SolidEntryPoint_pack
    SolidEntryPoint_unpack "\<lambda>x. MessageId_valid (SolidEntryPoint_message_id x)"
  by (rule via_canonical [OF MessageId.canonical_codec_axioms, where
        get = SolidEntryPoint_message_id and make = "Inr \<circ> SolidEntryPoint"])
    (auto simp: SolidEntryPoint_packed_len_def SolidEntryPoint_pack_def SolidEntryPoint_unpack_def)

datatype UnreferencedMessage = UnreferencedMessage (UnreferencedMessage_message_id: MessageId)

definition UnreferencedMessage_packed_len :: "UnreferencedMessage \<Rightarrow> nat" where
  "UnreferencedMessage_packed_len self = MessageId_packed_len (UnreferencedMessage_message_id self)"

definition UnreferencedMessage_pack :: "UnreferencedMessage \<Rightarrow> byte list" where
  "UnreferencedMessage_pack self = MessageId_pack (UnreferencedMessage_message_id self)"

definition UnreferencedMessage_unpack :: "bool \<Rightarrow> (Error, UnreferencedMessage) reader" where
  "UnreferencedMessage_unpack check =
     bindP (MessageId_unpack check) (\<lambda>message_id. returnP (UnreferencedMessage message_id))"

interpretation UnreferencedMessage: canonical_codec UnreferencedMessage_packed_len
    UnreferencedMessage_pack UnreferencedMessage_unpack
    "\<lambda>x. MessageId_valid (UnreferencedMessage_message_id x)"
  by (rule via_canonical [OF MessageId.canonical_codec_axioms, where
        get = UnreferencedMessage_message_id and make = "Inr \<circ> UnreferencedMessage"])
    (auto simp: UnreferencedMessage_packed_len_def UnreferencedMessage_pack_def
      UnreferencedMessage_unpack_def)

end
