(* ===== verification/Ledger_Types.thy ===== *)
theory Ledger_Types
  imports Message_Model
begin

text \<open>
  The types in which bee-ledger records the ledger state and its changes (types/unspent.rs,
  created_output.rs, consumed_output.rs, ledger_index.rs, treasury_output.rs, treasury_diff.rs,
  output_diff.rs, receipt.rs and migration.rs), with their packed forms, and the validation of
  a receipt against the treasury.
\<close>

section \<open>Errors\<close>

datatype (plugins only: code size) TypesError =
    Types_Io io_error
  | Types_Message Error
  | Types_UnsupportedOutputKind u8
  | Types_UnsupportedInputKind u8
  | Types_UnsupportedPayloadKind u32
  | Types_InvalidPayloadKind u32
  | Types_TreasuryAmountMismatch u64 u64
  | Types_MigratedFundsAmountOverflow nat
  | Types_InvalidMigratedFundsAmount u64
  | Types_ConsumedTreasuryOutputMismatch MilestoneId MilestoneId
  | Types_NegativeBalance i64
  | Types_NegativeDustAllowance i64
  | Types_NegativeDustOutputs i64
  | Types_BalanceOverflow int
  | Types_InvalidBalance u64
  | Types_BalanceDiffOverflow int
  | Types_InvalidBalanceDiff i64
  | Types_PackableOption
  | Types_InvalidSnapshotKind u8
  | Types_UnsupportedVersion u8 u8
  | Types_MissingConsumedTreasury
  | Types_MilestoneLengthMismatch nat nat

text \<open>Values of bee-common and of bee-message read inside a ledger type: the question mark operator
  converts their errors.\<close>

definition tnum :: "bool \<Rightarrow> (TypesError, 'a::len word) reader" where
  "tnum check = map_errP Types_Io (num_unpack check)"

definition tmsg :: "(bool \<Rightarrow> (Error, 'a) reader) \<Rightarrow> bool \<Rightarrow> (TypesError, 'a) reader" where
  "tmsg unpack check = map_errP Types_Message (unpack check)"

definition tindex :: "bool \<Rightarrow> (TypesError, MilestoneIndex) reader" where
  "tindex check = map_errP Types_Io (MilestoneIndex_unpack check)"

lemma tnum_canonical:
  assumes "8 dvd LENGTH('a::len)"
  shows "canonical_codec num_packed_len (num_pack :: 'a word \<Rightarrow> _) tnum (\<lambda>_. True)"
  using canonical_codec.map_err_canonical [OF num_canonical_codec [OF assms], of Types_Io]
  by (simp add: tnum_def [abs_def])

lemma tmsg_canonical: "canonical_codec l p u v \<Longrightarrow> canonical_codec l p (tmsg u) v"
  using canonical_codec.map_err_canonical [of l p u v Types_Message] by (simp add: tmsg_def [abs_def])

lemma tmsg_codec: "codec l p u v \<Longrightarrow> codec l p (tmsg u) v"
  using codec.map_err_codec [of l p u v Types_Message] by (simp add: tmsg_def [abs_def])

interpretation tu8: canonical_codec num_packed_len "num_pack :: u8 \<Rightarrow> _" tnum "\<lambda>_. True"
  by (rule tnum_canonical) simp

interpretation tu32: canonical_codec num_packed_len "num_pack :: u32 \<Rightarrow> _" tnum "\<lambda>_. True"
  by (rule tnum_canonical) simp

interpretation tu64: canonical_codec num_packed_len "num_pack :: u64 \<Rightarrow> _" tnum "\<lambda>_. True"
  by (rule tnum_canonical) simp

interpretation tindex: canonical_codec MilestoneIndex_packed_len MilestoneIndex_pack tindex "\<lambda>_. True"
  using MilestoneIndex.map_err_canonical [of Types_Io] by (simp add: tindex_def [abs_def])

interpretation tMessageId: canonical_codec MessageId_packed_len MessageId_pack
    "tmsg MessageId_unpack" MessageId_valid
  by (rule tmsg_canonical) (rule MessageId.canonical_codec_axioms)

interpretation tTransactionId: canonical_codec TransactionId_packed_len TransactionId_pack
    "tmsg TransactionId_unpack" TransactionId_valid
  by (rule tmsg_canonical) (rule TransactionId.canonical_codec_axioms)

interpretation tMilestoneId: canonical_codec MilestoneId_packed_len MilestoneId_pack
    "tmsg MilestoneId_unpack" MilestoneId_valid
  by (rule tmsg_canonical) (rule MilestoneId.canonical_codec_axioms)

interpretation tOutputId: canonical_codec OutputId_packed_len OutputId_pack
    "tmsg OutputId_unpack" OutputId_valid
  by (rule tmsg_canonical) (rule OutputId.canonical_codec_axioms)

interpretation tOutput: canonical_codec Output_packed_len Output_pack "tmsg Output_unpack" Output_valid
  by (rule tmsg_canonical) (rule Output.canonical_codec_axioms)

interpretation tTreasuryOutput: canonical_codec TreasuryOutput_packed_len TreasuryOutput_pack
    "tmsg TreasuryOutput_unpack" TreasuryOutput_valid
  by (rule tmsg_canonical) (rule TreasuryOutput.canonical_codec_axioms)

section \<open>Outputs and indices\<close>

datatype Unspent = Unspent (Unspent_id: OutputId)

definition Unspent_packed_len :: "Unspent \<Rightarrow> nat" where
  "Unspent_packed_len x = OutputId_packed_len (Unspent_id x)"

definition Unspent_pack :: "Unspent \<Rightarrow> byte list" where
  "Unspent_pack x = OutputId_pack (Unspent_id x)"

definition Unspent_unpack :: "bool \<Rightarrow> (TypesError, Unspent) reader" where
  "Unspent_unpack check = bindP (tmsg OutputId_unpack check) (\<lambda>i. returnP (Unspent i))"

interpretation Unspent: canonical_codec Unspent_packed_len Unspent_pack Unspent_unpack
    "\<lambda>x. OutputId_valid (Unspent_id x)"
  by (rule via_canonical [OF tOutputId.canonical_codec_axioms, where get = Unspent_id and
        make = "\<lambda>i. Inr (Unspent i)"])
    (auto simp: Unspent_packed_len_def Unspent_pack_def Unspent_unpack_def)

record CreatedOutput =
  CreatedOutput_message_id :: MessageId
  CreatedOutput_inner :: Output

definition CreatedOutput_new :: "MessageId \<Rightarrow> Output \<Rightarrow> CreatedOutput" where
  "CreatedOutput_new message_id inner =
     \<lparr>CreatedOutput_message_id = message_id, CreatedOutput_inner = inner\<rparr>"

definition CreatedOutput_packed_len :: "CreatedOutput \<Rightarrow> nat" where
  "CreatedOutput_packed_len x =
     MessageId_packed_len (CreatedOutput_message_id x) + Output_packed_len (CreatedOutput_inner x)"

definition CreatedOutput_pack :: "CreatedOutput \<Rightarrow> byte list" where
  "CreatedOutput_pack x =
     MessageId_pack (CreatedOutput_message_id x) @ Output_pack (CreatedOutput_inner x)"

definition CreatedOutput_unpack :: "bool \<Rightarrow> (TypesError, CreatedOutput) reader" where
  "CreatedOutput_unpack check =
     bindP (tmsg MessageId_unpack check) (\<lambda>message_id.
     bindP (tmsg Output_unpack check) (\<lambda>inner.
     returnP \<lparr>CreatedOutput_message_id = message_id, CreatedOutput_inner = inner\<rparr>))"

definition CreatedOutput_valid :: "CreatedOutput \<Rightarrow> bool" where
  "CreatedOutput_valid x \<longleftrightarrow>
     MessageId_valid (CreatedOutput_message_id x) \<and> Output_valid (CreatedOutput_inner x)"

interpretation CreatedOutput: canonical_codec CreatedOutput_packed_len CreatedOutput_pack
    CreatedOutput_unpack CreatedOutput_valid
  by (rule via_canonical [OF seq_canonical [OF tMessageId.canonical_codec_axioms
        tOutput.canonical_codec_axioms], where
        get = "\<lambda>x. (CreatedOutput_message_id x, CreatedOutput_inner x)" and
        make = "\<lambda>(m, i). Inr \<lparr>CreatedOutput_message_id = m, CreatedOutput_inner = i\<rparr>"])
    (auto simp: CreatedOutput_packed_len_def CreatedOutput_pack_def CreatedOutput_unpack_def
      CreatedOutput_valid_def)

record ConsumedOutput =
  ConsumedOutput_target :: TransactionId
  ConsumedOutput_index :: MilestoneIndex

definition ConsumedOutput_new :: "TransactionId \<Rightarrow> MilestoneIndex \<Rightarrow> ConsumedOutput" where
  "ConsumedOutput_new target index =
     \<lparr>ConsumedOutput_target = target, ConsumedOutput_index = index\<rparr>"

definition ConsumedOutput_packed_len :: "ConsumedOutput \<Rightarrow> nat" where
  "ConsumedOutput_packed_len x =
     TransactionId_packed_len (ConsumedOutput_target x) +
     MilestoneIndex_packed_len (ConsumedOutput_index x)"

definition ConsumedOutput_pack :: "ConsumedOutput \<Rightarrow> byte list" where
  "ConsumedOutput_pack x =
     TransactionId_pack (ConsumedOutput_target x) @ MilestoneIndex_pack (ConsumedOutput_index x)"

definition ConsumedOutput_unpack :: "bool \<Rightarrow> (TypesError, ConsumedOutput) reader" where
  "ConsumedOutput_unpack check =
     bindP (tmsg TransactionId_unpack check) (\<lambda>target.
     bindP (tindex check) (\<lambda>index.
     returnP \<lparr>ConsumedOutput_target = target, ConsumedOutput_index = index\<rparr>))"

definition ConsumedOutput_valid :: "ConsumedOutput \<Rightarrow> bool" where
  "ConsumedOutput_valid x \<longleftrightarrow> TransactionId_valid (ConsumedOutput_target x)"

interpretation ConsumedOutput: canonical_codec ConsumedOutput_packed_len ConsumedOutput_pack
    ConsumedOutput_unpack ConsumedOutput_valid
  by (rule via_canonical [OF seq_canonical [OF tTransactionId.canonical_codec_axioms
        tindex.canonical_codec_axioms], where
        get = "\<lambda>x. (ConsumedOutput_target x, ConsumedOutput_index x)" and
        make = "\<lambda>(t, i). Inr \<lparr>ConsumedOutput_target = t, ConsumedOutput_index = i\<rparr>"])
    (auto simp: ConsumedOutput_packed_len_def ConsumedOutput_pack_def ConsumedOutput_unpack_def
      ConsumedOutput_valid_def)

datatype LedgerIndex = LedgerIndex (LedgerIndex_index: MilestoneIndex)

definition LedgerIndex_packed_len :: "LedgerIndex \<Rightarrow> nat" where
  "LedgerIndex_packed_len x = MilestoneIndex_packed_len (LedgerIndex_index x)"

definition LedgerIndex_pack :: "LedgerIndex \<Rightarrow> byte list" where
  "LedgerIndex_pack x = MilestoneIndex_pack (LedgerIndex_index x)"

definition LedgerIndex_unpack :: "bool \<Rightarrow> (io_error, LedgerIndex) reader" where
  "LedgerIndex_unpack check = bindP (MilestoneIndex_unpack check) (\<lambda>i. returnP (LedgerIndex i))"

interpretation LedgerIndex: canonical_codec LedgerIndex_packed_len LedgerIndex_pack LedgerIndex_unpack
    "\<lambda>_. True"
  by (rule via_canonical [OF MilestoneIndex.canonical_codec_axioms, where get = LedgerIndex_index and
        make = "\<lambda>i. Inr (LedgerIndex i)"])
    (auto simp: LedgerIndex_packed_len_def LedgerIndex_pack_def LedgerIndex_unpack_def)

section \<open>Treasury\<close>

text \<open>\<open>TreasuryOutput\<close> of bee-ledger: a treasury output with the milestone that created it.\<close>

record LedgerTreasuryOutput =
  LedgerTreasuryOutput_inner :: TreasuryOutput
  LedgerTreasuryOutput_milestone_id :: MilestoneId

definition LedgerTreasuryOutput_new :: "TreasuryOutput \<Rightarrow> MilestoneId \<Rightarrow> LedgerTreasuryOutput" where
  "LedgerTreasuryOutput_new inner milestone_id =
     \<lparr>LedgerTreasuryOutput_inner = inner, LedgerTreasuryOutput_milestone_id = milestone_id\<rparr>"

definition LedgerTreasuryOutput_packed_len :: "LedgerTreasuryOutput \<Rightarrow> nat" where
  "LedgerTreasuryOutput_packed_len x =
     TreasuryOutput_packed_len (LedgerTreasuryOutput_inner x) +
     MilestoneId_packed_len (LedgerTreasuryOutput_milestone_id x)"

definition LedgerTreasuryOutput_pack :: "LedgerTreasuryOutput \<Rightarrow> byte list" where
  "LedgerTreasuryOutput_pack x =
     TreasuryOutput_pack (LedgerTreasuryOutput_inner x) @
     MilestoneId_pack (LedgerTreasuryOutput_milestone_id x)"

definition LedgerTreasuryOutput_unpack :: "bool \<Rightarrow> (TypesError, LedgerTreasuryOutput) reader" where
  "LedgerTreasuryOutput_unpack check =
     bindP (tmsg TreasuryOutput_unpack check) (\<lambda>inner.
     bindP (tmsg MilestoneId_unpack check) (\<lambda>milestone_id.
     returnP (LedgerTreasuryOutput_new inner milestone_id)))"

definition LedgerTreasuryOutput_valid :: "LedgerTreasuryOutput \<Rightarrow> bool" where
  "LedgerTreasuryOutput_valid x \<longleftrightarrow>
     TreasuryOutput_valid (LedgerTreasuryOutput_inner x) \<and>
     MilestoneId_valid (LedgerTreasuryOutput_milestone_id x)"

interpretation LedgerTreasuryOutput: canonical_codec LedgerTreasuryOutput_packed_len
    LedgerTreasuryOutput_pack LedgerTreasuryOutput_unpack LedgerTreasuryOutput_valid
  by (rule via_canonical [OF seq_canonical [OF tTreasuryOutput.canonical_codec_axioms
        tMilestoneId.canonical_codec_axioms], where
        get = "\<lambda>x. (LedgerTreasuryOutput_inner x, LedgerTreasuryOutput_milestone_id x)" and
        make = "\<lambda>(i, m). Inr (LedgerTreasuryOutput_new i m)"])
    (auto simp: LedgerTreasuryOutput_packed_len_def LedgerTreasuryOutput_pack_def
      LedgerTreasuryOutput_unpack_def LedgerTreasuryOutput_valid_def LedgerTreasuryOutput_new_def)

record TreasuryDiff =
  TreasuryDiff_created :: MilestoneId
  TreasuryDiff_consumed :: MilestoneId

definition TreasuryDiff_new :: "MilestoneId \<Rightarrow> MilestoneId \<Rightarrow> TreasuryDiff" where
  "TreasuryDiff_new created consumed =
     \<lparr>TreasuryDiff_created = created, TreasuryDiff_consumed = consumed\<rparr>"

definition TreasuryDiff_packed_len :: "TreasuryDiff \<Rightarrow> nat" where
  "TreasuryDiff_packed_len x =
     MilestoneId_packed_len (TreasuryDiff_created x) + MilestoneId_packed_len (TreasuryDiff_consumed x)"

definition TreasuryDiff_pack :: "TreasuryDiff \<Rightarrow> byte list" where
  "TreasuryDiff_pack x =
     MilestoneId_pack (TreasuryDiff_created x) @ MilestoneId_pack (TreasuryDiff_consumed x)"

definition TreasuryDiff_unpack :: "bool \<Rightarrow> (TypesError, TreasuryDiff) reader" where
  "TreasuryDiff_unpack check =
     bindP (tmsg MilestoneId_unpack check) (\<lambda>created.
     bindP (tmsg MilestoneId_unpack check) (\<lambda>consumed.
     returnP \<lparr>TreasuryDiff_created = created, TreasuryDiff_consumed = consumed\<rparr>))"

definition TreasuryDiff_valid :: "TreasuryDiff \<Rightarrow> bool" where
  "TreasuryDiff_valid x \<longleftrightarrow>
     MilestoneId_valid (TreasuryDiff_created x) \<and> MilestoneId_valid (TreasuryDiff_consumed x)"

interpretation TreasuryDiff: canonical_codec TreasuryDiff_packed_len TreasuryDiff_pack
    TreasuryDiff_unpack TreasuryDiff_valid
  by (rule via_canonical [OF seq_canonical [OF tMilestoneId.canonical_codec_axioms
        tMilestoneId.canonical_codec_axioms], where
        get = "\<lambda>x. (TreasuryDiff_created x, TreasuryDiff_consumed x)" and
        make = "\<lambda>(a, b). Inr \<lparr>TreasuryDiff_created = a, TreasuryDiff_consumed = b\<rparr>"])
    (auto simp: TreasuryDiff_packed_len_def TreasuryDiff_pack_def TreasuryDiff_unpack_def
      TreasuryDiff_valid_def)

section \<open>Output diffs\<close>

record OutputDiff =
  OutputDiff_created_outputs :: "OutputId list"
  OutputDiff_consumed_outputs :: "OutputId list"
  OutputDiff_treasury_diff :: "TreasuryDiff option"

definition OutputDiff_new ::
  "OutputId list \<Rightarrow> OutputId list \<Rightarrow> TreasuryDiff option \<Rightarrow> OutputDiff" where
  "OutputDiff_new created_outputs consumed_outputs treasury_diff =
     \<lparr>OutputDiff_created_outputs = created_outputs, OutputDiff_consumed_outputs = consumed_outputs,
      OutputDiff_treasury_diff = treasury_diff\<rparr>"

definition OutputDiff_packed_len :: "OutputDiff \<Rightarrow> nat" where
  "OutputDiff_packed_len x =
     vec_packed_len OutputId_packed_len (OutputDiff_created_outputs x) +
     vec_packed_len OutputId_packed_len (OutputDiff_consumed_outputs x) +
     option_packed_len TreasuryDiff_packed_len (OutputDiff_treasury_diff x)"

definition OutputDiff_pack :: "OutputDiff \<Rightarrow> byte list" where
  "OutputDiff_pack x =
     num_pack (word_of_nat (length (OutputDiff_created_outputs x)) :: u32) @
     concat (map OutputId_pack (OutputDiff_created_outputs x)) @
     num_pack (word_of_nat (length (OutputDiff_consumed_outputs x)) :: u32) @
     concat (map OutputId_pack (OutputDiff_consumed_outputs x)) @
     option_pack TreasuryDiff_pack (OutputDiff_treasury_diff x)"

definition OutputDiff_unpack :: "bool \<Rightarrow> (TypesError, OutputDiff) reader" where
  "OutputDiff_unpack check =
     bindP (tnum check) (\<lambda>created_outputs_len :: u32.
     bindP (repeatP (unat created_outputs_len) (tmsg OutputId_unpack check)) (\<lambda>created_outputs.
     bindP (tnum check) (\<lambda>consumed_outputs_len :: u32.
     bindP (repeatP (unat consumed_outputs_len) (tmsg OutputId_unpack check)) (\<lambda>consumed_outputs.
     bindP (map_errP (\<lambda>_. Types_PackableOption) (option_unpack TreasuryDiff_unpack check)) (\<lambda>treasury_diff.
     returnP \<lparr>OutputDiff_created_outputs = created_outputs,
       OutputDiff_consumed_outputs = consumed_outputs, OutputDiff_treasury_diff = treasury_diff\<rparr>)))))"

definition OutputDiff_valid :: "OutputDiff \<Rightarrow> bool" where
  "OutputDiff_valid x \<longleftrightarrow>
     list_all OutputId_valid (OutputDiff_created_outputs x) \<and>
     length (OutputDiff_created_outputs x) < 2 ^ 32 \<and>
     list_all OutputId_valid (OutputDiff_consumed_outputs x) \<and>
     length (OutputDiff_consumed_outputs x) < 2 ^ 32 \<and>
     (case OutputDiff_treasury_diff x of None \<Rightarrow> True | Some t \<Rightarrow> TreasuryDiff_valid t)"

text \<open>The bytes that \<open>pack\<close> writes: \<open>packed_len\<close> counts length fields of eight bytes, \<open>pack\<close> writes
  length fields of four. The contract of the trait holds for the number of bytes written.\<close>

definition OutputDiff_written_len :: "OutputDiff \<Rightarrow> nat" where
  "OutputDiff_written_len x = OutputDiff_packed_len x - 8"

lemma OutputDiff_packed_len_eq: "OutputDiff_packed_len x =
  8 + (4 + sum_list (map OutputId_packed_len (OutputDiff_created_outputs x)) +
    (4 + sum_list (map OutputId_packed_len (OutputDiff_consumed_outputs x)) +
     option_packed_len TreasuryDiff_packed_len (OutputDiff_treasury_diff x)))"
  by (simp add: OutputDiff_packed_len_def vec_packed_len_def)

interpretation OutputDiff: codec OutputDiff_written_len OutputDiff_pack OutputDiff_unpack OutputDiff_valid
  by (rule via_codec [OF seq_codec [OF
        counted_codec [OF tu32.canonical_codec_axioms tOutputId.codec_axioms, where
          ok = "\<lambda>n. n < 2 ^ 32" and e = "\<lambda>_. Types_PackableOption"]
        seq_codec [OF counted_codec [OF tu32.canonical_codec_axioms tOutputId.codec_axioms, where
          ok = "\<lambda>n. n < 2 ^ 32" and e = "\<lambda>_. Types_PackableOption"]
        codec.map_err_codec [OF TreasuryDiff.option_codec, of "\<lambda>_. Types_PackableOption"]]], where
        get = "\<lambda>x. (OutputDiff_created_outputs x, OutputDiff_consumed_outputs x,
          OutputDiff_treasury_diff x)" and
        make = "\<lambda>(a, b, t). Inr (OutputDiff_new a b t)"])
    (auto simp: OutputDiff_written_len_def OutputDiff_packed_len_eq OutputDiff_pack_def
      OutputDiff_unpack_def OutputDiff_valid_def OutputDiff_new_def
      countedP_unchecked [where 'n = 32, simplified])

section \<open>Receipts\<close>

record LedgerReceipt =
  LedgerReceipt_inner :: ReceiptPayload
  LedgerReceipt_included_in :: MilestoneIndex

definition LedgerReceipt_new :: "ReceiptPayload \<Rightarrow> MilestoneIndex \<Rightarrow> LedgerReceipt" where
  "LedgerReceipt_new inner included_in =
     \<lparr>LedgerReceipt_inner = inner, LedgerReceipt_included_in = included_in\<rparr>"

text \<open>The loop that adds up the migrated amounts.\<close>

fun migrated_sum :: "u64 \<Rightarrow> MigratedFundsEntry list \<Rightarrow> TypesError + u64" where
  "migrated_sum migrated_amount [] = Inr migrated_amount"
| "migrated_sum migrated_amount (funds # rest) =
     (let amount = SignatureLockedSingleOutput_amount (MigratedFundsEntry_output funds) in
      bindR (ok_or (Types_MigratedFundsAmountOverflow (unat migrated_amount + unat amount))
        (checked_add_u64 migrated_amount amount)) (\<lambda>migrated_amount.
      migrated_sum migrated_amount rest))"

text \<open>The difference of two amounts as an \<open>i128\<close>, cast to \<open>u128\<close>.\<close>

definition u128_of_int :: "int \<Rightarrow> nat" where
  "u128_of_int i = nat (i mod 2 ^ 128)"

definition LedgerReceipt_validate :: "LedgerTreasuryOutput \<Rightarrow> LedgerReceipt \<Rightarrow> TypesError + unit" where
  "LedgerReceipt_validate consumed_treasury_output self =
     bindR (case ReceiptPayload_transaction (LedgerReceipt_inner self) of
         Payload_TreasuryTransaction transaction \<Rightarrow> Inr transaction
       | p \<Rightarrow> Inl (Types_UnsupportedPayloadKind (Payload_kind p))) (\<lambda>transaction.
     bindR (migrated_sum 0 (ReceiptPayload_funds (LedgerReceipt_inner self))) (\<lambda>migrated_amount.
     bindR (requireR (\<not> migrated_amount > IOTA_SUPPLY)
       (Types_InvalidMigratedFundsAmount migrated_amount)) (\<lambda>_.
     bindR (case TreasuryTransactionPayload_input transaction of
         Input_Treasury input \<Rightarrow>
           requireR (TreasuryInput_milestone_id input =
               LedgerTreasuryOutput_milestone_id consumed_treasury_output)
             (Types_ConsumedTreasuryOutputMismatch (TreasuryInput_milestone_id input)
               (LedgerTreasuryOutput_milestone_id consumed_treasury_output))
       | input \<Rightarrow> Inl (Types_UnsupportedInputKind (Input_kind input))) (\<lambda>_.
     bindR (case TreasuryTransactionPayload_output transaction of
         Output_Treasury output \<Rightarrow> Inr output
       | output \<Rightarrow> Inl (Types_UnsupportedOutputKind (Output_kind output))) (\<lambda>created_treasury_output.
     let consumed = TreasuryOutput_amount (LedgerTreasuryOutput_inner consumed_treasury_output) in
     bindR (ok_or (Types_MigratedFundsAmountOverflow
         (u128_of_int (uint consumed - uint migrated_amount)))
       (checked_sub_u64 consumed migrated_amount)) (\<lambda>created_amount.
     requireR (created_amount = TreasuryOutput_amount created_treasury_output)
       (Types_TreasuryAmountMismatch created_amount
         (TreasuryOutput_amount created_treasury_output))))))))"

definition LedgerReceipt_packed_len :: "LedgerReceipt \<Rightarrow> nat" where
  "LedgerReceipt_packed_len x =
     ReceiptPayload_packed_len (LedgerReceipt_inner x) +
     MilestoneIndex_packed_len (LedgerReceipt_included_in x)"

definition LedgerReceipt_pack :: "LedgerReceipt \<Rightarrow> byte list" where
  "LedgerReceipt_pack x =
     ReceiptPayload_pack (LedgerReceipt_inner x) @ MilestoneIndex_pack (LedgerReceipt_included_in x)"

definition LedgerReceipt_unpack :: "deps \<Rightarrow> bool \<Rightarrow> (TypesError, LedgerReceipt) reader" where
  "LedgerReceipt_unpack d check =
     bindP (tmsg (ReceiptPayload_unpack d (Payload_unpack d)) check) (\<lambda>inner.
     bindP (tindex check) (\<lambda>included_in.
     returnP (LedgerReceipt_new inner included_in)))"

definition LedgerReceipt_valid :: "deps \<Rightarrow> LedgerReceipt \<Rightarrow> bool" where
  "LedgerReceipt_valid d x \<longleftrightarrow> ReceiptPayload_valid d (Payload_valid d) (LedgerReceipt_inner x)"

interpretation LedgerReceipt: codec LedgerReceipt_packed_len LedgerReceipt_pack
    "LedgerReceipt_unpack d" "LedgerReceipt_valid d" for d
  by (rule via_codec [OF seq_codec [OF
        tmsg_codec [OF ReceiptPayload_codec [OF Payload.codec_axioms [of d], of d]]
        tindex.codec_axioms], where
        get = "\<lambda>x. (LedgerReceipt_inner x, LedgerReceipt_included_in x)" and
        make = "\<lambda>(i, m). Inr (LedgerReceipt_new i m)"])
    (auto simp: LedgerReceipt_packed_len_def LedgerReceipt_pack_def LedgerReceipt_unpack_def
      LedgerReceipt_valid_def LedgerReceipt_new_def)

record Migration =
  Migration_receipt :: LedgerReceipt
  Migration_consumed_treasury :: LedgerTreasuryOutput
  Migration_created_treasury :: LedgerTreasuryOutput

definition Migration_new ::
  "LedgerReceipt \<Rightarrow> LedgerTreasuryOutput \<Rightarrow> LedgerTreasuryOutput \<Rightarrow> Migration" where
  "Migration_new receipt consumed_treasury created_treasury =
     \<lparr>Migration_receipt = receipt, Migration_consumed_treasury = consumed_treasury,
      Migration_created_treasury = created_treasury\<rparr>"

section \<open>A validated receipt conserves the treasury\<close>

definition funds_total :: "MigratedFundsEntry list \<Rightarrow> nat" where
  "funds_total funds =
     (\<Sum>f\<leftarrow>funds. unat (SignatureLockedSingleOutput_amount (MigratedFundsEntry_output f)))"

lemma migrated_sum_Inr:
  "migrated_sum a funds = Inr b \<Longrightarrow> unat b = unat a + funds_total funds"
  by (induction funds arbitrary: a)
    (auto simp: funds_total_def Let_def bindR_Inr_iff dest!: checked_add_u64_Some)

lemma LedgerReceipt_validate_Inr:
  assumes "LedgerReceipt_validate c r = Inr u"
  shows "\<exists>t i out. ReceiptPayload_transaction (LedgerReceipt_inner r) = Payload_TreasuryTransaction t \<and>
    TreasuryTransactionPayload_input t = Input_Treasury i \<and>
    TreasuryTransactionPayload_output t = Output_Treasury out \<and>
    TreasuryInput_milestone_id i = LedgerTreasuryOutput_milestone_id c \<and>
    unat (TreasuryOutput_amount out) + funds_total (ReceiptPayload_funds (LedgerReceipt_inner r)) =
      unat (TreasuryOutput_amount (LedgerTreasuryOutput_inner c))"
  using assms
  by (auto simp: LedgerReceipt_validate_def bindR_Inr_iff Let_def split: Payload.splits Input.splits
      Output.splits dest!: migrated_sum_Inr checked_sub_u64_Some)

end
