(* ===== verification/Balance_Model.thy ===== *)
theory Balance_Model
  imports Ledger_Types
begin

text \<open>
  The balance of an address and the differences that a milestone applies to balances
  (types/balance.rs and types/balance_diff.rs of bee-ledger).

  \<open>i64\<close> and \<open>u64\<close> are both words of 64 bits, so that the casts between them are the identity; \<open>sint\<close> and
  \<open>unat\<close> read the value. A hash map is a partial map, and a loop over it takes the order of its
  iteration as an argument, which is some enumeration of the keys.
\<close>

section \<open>Balance differences\<close>

record BalanceDiff =
  BalanceDiff_amount :: i64
  BalanceDiff_dust_allowance :: i64
  BalanceDiff_dust_outputs :: i64

definition BalanceDiff_default :: BalanceDiff where
  "BalanceDiff_default = \<lparr>BalanceDiff_amount = 0, BalanceDiff_dust_allowance = 0,
     BalanceDiff_dust_outputs = 0\<rparr>"

text \<open>\<open>i64::abs\<close>; the absolute value of the least integer wraps around to itself.\<close>

definition abs_i64 :: "i64 \<Rightarrow> i64" where
  "abs_i64 w = (if sint w < 0 then - w else w)"

definition BalanceDiff_new :: "i64 \<Rightarrow> i64 \<Rightarrow> i64 \<Rightarrow> TypesError + BalanceDiff" where
  "BalanceDiff_new amount dust_allowance dust_outputs =
     (if abs_i64 amount > IOTA_SUPPLY then Inl (Types_InvalidBalanceDiff amount)
      else if abs_i64 dust_allowance > IOTA_SUPPLY then Inl (Types_InvalidBalanceDiff dust_allowance)
      else if abs_i64 dust_outputs > IOTA_SUPPLY then Inl (Types_InvalidBalanceDiff dust_outputs)
      else Inr \<lparr>BalanceDiff_amount = amount, BalanceDiff_dust_allowance = dust_allowance,
        BalanceDiff_dust_outputs = dust_outputs\<rparr>)"

definition BalanceDiff_is_dust_mutating :: "BalanceDiff \<Rightarrow> bool" where
  "BalanceDiff_is_dust_mutating self \<longleftrightarrow>
     sint (BalanceDiff_dust_allowance self) < 0 \<or> sint (BalanceDiff_dust_outputs self) > 0"

definition BalanceDiff_negate :: "BalanceDiff \<Rightarrow> BalanceDiff" where
  "BalanceDiff_negate self = \<lparr>BalanceDiff_amount = - BalanceDiff_amount self,
     BalanceDiff_dust_allowance = - BalanceDiff_dust_allowance self,
     BalanceDiff_dust_outputs = - BalanceDiff_dust_outputs self\<rparr>"

section \<open>Balances\<close>

record Balance =
  Balance_amount :: u64
  Balance_dust_allowance :: u64
  Balance_dust_outputs :: u64

definition Balance_default :: Balance where
  "Balance_default = \<lparr>Balance_amount = 0, Balance_dust_allowance = 0, Balance_dust_outputs = 0\<rparr>"

definition Balance_new :: "u64 \<Rightarrow> u64 \<Rightarrow> u64 \<Rightarrow> TypesError + Balance" where
  "Balance_new amount dust_allowance dust_outputs =
     (if amount > IOTA_SUPPLY then Inl (Types_InvalidBalance amount)
      else if dust_allowance > IOTA_SUPPLY then Inl (Types_InvalidBalance dust_allowance)
      else if dust_outputs > IOTA_SUPPLY then Inl (Types_InvalidBalance dust_outputs)
      else Inr \<lparr>Balance_amount = amount, Balance_dust_allowance = dust_allowance,
        Balance_dust_outputs = dust_outputs\<rparr>)"

definition Balance_dust_allowed :: "Balance \<Rightarrow> bool" where
  "Balance_dust_allowed self \<longleftrightarrow>
     Balance_dust_outputs self < dust_outputs_max (Balance_dust_allowance self)"

definition Balance_apply_diff :: "BalanceDiff \<Rightarrow> Balance \<Rightarrow> TypesError + Balance" where
  "Balance_apply_diff diff self =
     bindR (ok_or (Types_BalanceOverflow (uint (Balance_amount self) + sint (BalanceDiff_amount diff)))
       (checked_add_i64 (Balance_amount self) (BalanceDiff_amount diff))) (\<lambda>amount.
     bindR (ok_or (Types_BalanceOverflow
         (uint (Balance_dust_allowance self) + sint (BalanceDiff_dust_allowance diff)))
       (checked_add_i64 (Balance_dust_allowance self) (BalanceDiff_dust_allowance diff)))
       (\<lambda>dust_allowance.
     bindR (ok_or (Types_BalanceOverflow
         (uint (Balance_dust_outputs self) + sint (BalanceDiff_dust_outputs diff)))
       (checked_add_i64 (Balance_dust_outputs self) (BalanceDiff_dust_outputs diff))) (\<lambda>dust_outputs.
     bindR (requireR (\<not> sint amount < 0) (Types_NegativeBalance amount)) (\<lambda>_.
     bindR (requireR (\<not> sint dust_allowance < 0) (Types_NegativeDustAllowance dust_allowance)) (\<lambda>_.
     bindR (requireR (\<not> sint dust_outputs < 0) (Types_NegativeDustOutputs dust_outputs)) (\<lambda>_.
     Inr \<lparr>Balance_amount = amount, Balance_dust_allowance = dust_allowance,
       Balance_dust_outputs = dust_outputs\<rparr>))))))"

definition Balance_packed_len :: "Balance \<Rightarrow> nat" where
  "Balance_packed_len self =
     num_packed_len (Balance_amount self) + num_packed_len (Balance_dust_allowance self) +
     num_packed_len (Balance_dust_outputs self)"

definition Balance_pack :: "Balance \<Rightarrow> byte list" where
  "Balance_pack self =
     num_pack (Balance_amount self) @ num_pack (Balance_dust_allowance self) @
     num_pack (Balance_dust_outputs self)"

definition Balance_unpack :: "bool \<Rightarrow> (TypesError, Balance) reader" where
  "Balance_unpack check =
     bindP (tnum check) (\<lambda>amount.
     bindP (tnum check) (\<lambda>dust_allowance.
     bindP (tnum check) (\<lambda>dust_outputs.
     liftP (Balance_new amount dust_allowance dust_outputs))))"

definition Balance_valid :: "Balance \<Rightarrow> bool" where
  "Balance_valid b \<longleftrightarrow>
     Balance_amount b \<le> IOTA_SUPPLY \<and> Balance_dust_allowance b \<le> IOTA_SUPPLY \<and>
     Balance_dust_outputs b \<le> IOTA_SUPPLY"

lemma Balance_new_Inr_iff:
  "Balance_new a da n = Inr b \<longleftrightarrow>
     b = \<lparr>Balance_amount = a, Balance_dust_allowance = da, Balance_dust_outputs = n\<rparr> \<and> Balance_valid b"
  by (auto simp: Balance_new_def Balance_valid_def not_less)

interpretation Balance: canonical_codec Balance_packed_len Balance_pack Balance_unpack Balance_valid
  by (rule via_canonical [OF seq_canonical [OF tu64.canonical_codec_axioms
        seq_canonical [OF tu64.canonical_codec_axioms tu64.canonical_codec_axioms]], where
        get = "\<lambda>b. (Balance_amount b, Balance_dust_allowance b, Balance_dust_outputs b)" and
        make = "\<lambda>(a, da, n). Balance_new a da n"])
    (auto simp: Balance_packed_len_def Balance_pack_def Balance_unpack_def Balance_new_Inr_iff)

section \<open>Differences of many addresses\<close>

type_synonym BalanceDiffs = "Address \<rightharpoonup> BalanceDiff"

definition BalanceDiffs_new :: BalanceDiffs where
  "BalanceDiffs_new = Map.empty"

text \<open>\<open>self.0.entry(address).or_default()\<close>\<close>

definition or_default :: "BalanceDiffs \<Rightarrow> Address \<Rightarrow> BalanceDiff" where
  "or_default m address = (case m address of Some diff \<Rightarrow> diff | None \<Rightarrow> BalanceDiff_default)"

fun BalanceDiffs_merge ::
  "(Address \<times> BalanceDiff) list \<Rightarrow> BalanceDiffs \<Rightarrow> TypesError + BalanceDiffs" where
  "BalanceDiffs_merge [] self = Inr self"
| "BalanceDiffs_merge ((address, diff) # other) self =
     (let e = or_default self address in
      bindR (ok_or (Types_BalanceDiffOverflow (sint (BalanceDiff_amount e) + sint (BalanceDiff_amount diff)))
        (checked_add_i64 (BalanceDiff_amount e) (BalanceDiff_amount diff))) (\<lambda>amount.
      bindR (ok_or (Types_BalanceDiffOverflow
          (sint (BalanceDiff_dust_allowance e) + sint (BalanceDiff_dust_allowance diff)))
        (checked_add_i64 (BalanceDiff_dust_allowance e) (BalanceDiff_dust_allowance diff)))
        (\<lambda>dust_allowance.
      bindR (ok_or (Types_BalanceDiffOverflow
          (sint (BalanceDiff_dust_outputs e) + sint (BalanceDiff_dust_outputs diff)))
        (checked_add_i64 (BalanceDiff_dust_outputs e) (BalanceDiff_dust_outputs diff)))
        (\<lambda>dust_outputs.
      BalanceDiffs_merge other (self(address \<mapsto>
        \<lparr>BalanceDiff_amount = amount, BalanceDiff_dust_allowance = dust_allowance,
         BalanceDiff_dust_outputs = dust_outputs\<rparr>))))))"

definition BalanceDiffs_negated :: "BalanceDiffs \<Rightarrow> BalanceDiffs" where
  "BalanceDiffs_negated self = map_option BalanceDiff_negate \<circ> self"

definition BalanceDiffs_amount_add :: "Address \<Rightarrow> u64 \<Rightarrow> BalanceDiffs \<Rightarrow> TypesError + BalanceDiffs" where
  "BalanceDiffs_amount_add address amount self =
     (let entry = or_default self address in
      bindR (ok_or (Types_BalanceDiffOverflow (sint (BalanceDiff_amount entry) + uint amount))
        (checked_add_i64 (BalanceDiff_amount entry) amount)) (\<lambda>sum.
      Inr (self(address \<mapsto> entry\<lparr>BalanceDiff_amount := sum\<rparr>))))"

definition BalanceDiffs_amount_sub :: "Address \<Rightarrow> u64 \<Rightarrow> BalanceDiffs \<Rightarrow> TypesError + BalanceDiffs" where
  "BalanceDiffs_amount_sub address amount self =
     (let entry = or_default self address in
      bindR (ok_or (Types_BalanceDiffOverflow (sint (BalanceDiff_amount entry) + uint amount))
        (checked_sub_i64 (BalanceDiff_amount entry) amount)) (\<lambda>sum.
      Inr (self(address \<mapsto> entry\<lparr>BalanceDiff_amount := sum\<rparr>))))"

definition BalanceDiffs_dust_allowance_add ::
  "Address \<Rightarrow> u64 \<Rightarrow> BalanceDiffs \<Rightarrow> TypesError + BalanceDiffs" where
  "BalanceDiffs_dust_allowance_add address amount self =
     (let entry = or_default self address in
      bindR (ok_or (Types_BalanceDiffOverflow (sint (BalanceDiff_dust_allowance entry) + uint amount))
        (checked_add_i64 (BalanceDiff_dust_allowance entry) amount)) (\<lambda>sum.
      Inr (self(address \<mapsto> entry\<lparr>BalanceDiff_dust_allowance := sum\<rparr>))))"

definition BalanceDiffs_dust_allowance_sub ::
  "Address \<Rightarrow> u64 \<Rightarrow> BalanceDiffs \<Rightarrow> TypesError + BalanceDiffs" where
  "BalanceDiffs_dust_allowance_sub address amount self =
     (let entry = or_default self address in
      bindR (ok_or (Types_BalanceDiffOverflow (sint (BalanceDiff_dust_allowance entry) + uint amount))
        (checked_sub_i64 (BalanceDiff_dust_allowance entry) amount)) (\<lambda>sum.
      Inr (self(address \<mapsto> entry\<lparr>BalanceDiff_dust_allowance := sum\<rparr>))))"

definition BalanceDiffs_dust_outputs_inc :: "Address \<Rightarrow> BalanceDiffs \<Rightarrow> TypesError + BalanceDiffs" where
  "BalanceDiffs_dust_outputs_inc address self =
     (let entry = or_default self address in
      bindR (ok_or (Types_BalanceDiffOverflow (sint (BalanceDiff_dust_outputs entry) + 1))
        (checked_add_i64 (BalanceDiff_dust_outputs entry) 1)) (\<lambda>sum.
      Inr (self(address \<mapsto> entry\<lparr>BalanceDiff_dust_outputs := sum\<rparr>))))"

definition BalanceDiffs_dust_outputs_dec :: "Address \<Rightarrow> BalanceDiffs \<Rightarrow> TypesError + BalanceDiffs" where
  "BalanceDiffs_dust_outputs_dec address self =
     (let entry = or_default self address in
      bindR (ok_or (Types_BalanceDiffOverflow (sint (BalanceDiff_dust_outputs entry) + 1))
        (checked_sub_i64 (BalanceDiff_dust_outputs entry) 1)) (\<lambda>sum.
      Inr (self(address \<mapsto> entry\<lparr>BalanceDiff_dust_outputs := sum\<rparr>))))"

definition BalanceDiffs_output_add :: "Output \<Rightarrow> BalanceDiffs \<Rightarrow> TypesError + BalanceDiffs" where
  "BalanceDiffs_output_add output self =
     (case output of
       Output_SignatureLockedSingle out \<Rightarrow>
         bindR (BalanceDiffs_amount_add (SignatureLockedSingleOutput_address out)
           (SignatureLockedSingleOutput_amount out) self) (\<lambda>self.
         if SignatureLockedSingleOutput_amount out < DUST_THRESHOLD
         then BalanceDiffs_dust_outputs_inc (SignatureLockedSingleOutput_address out) self
         else Inr self)
     | Output_SignatureLockedDustAllowance out \<Rightarrow>
         bindR (BalanceDiffs_amount_add (SignatureLockedDustAllowanceOutput_address out)
           (SignatureLockedDustAllowanceOutput_amount out) self) (\<lambda>self.
         BalanceDiffs_dust_allowance_add (SignatureLockedDustAllowanceOutput_address out)
           (SignatureLockedDustAllowanceOutput_amount out) self)
     | Output_Treasury _ \<Rightarrow> Inl (Types_UnsupportedOutputKind (Output_kind output)))"

definition BalanceDiffs_output_sub :: "Output \<Rightarrow> BalanceDiffs \<Rightarrow> TypesError + BalanceDiffs" where
  "BalanceDiffs_output_sub output self =
     (case output of
       Output_SignatureLockedSingle out \<Rightarrow>
         bindR (BalanceDiffs_amount_sub (SignatureLockedSingleOutput_address out)
           (SignatureLockedSingleOutput_amount out) self) (\<lambda>self.
         if SignatureLockedSingleOutput_amount out < DUST_THRESHOLD
         then BalanceDiffs_dust_outputs_dec (SignatureLockedSingleOutput_address out) self
         else Inr self)
     | Output_SignatureLockedDustAllowance out \<Rightarrow>
         bindR (BalanceDiffs_amount_sub (SignatureLockedDustAllowanceOutput_address out)
           (SignatureLockedDustAllowanceOutput_amount out) self) (\<lambda>self.
         BalanceDiffs_dust_allowance_sub (SignatureLockedDustAllowanceOutput_address out)
           (SignatureLockedDustAllowanceOutput_amount out) self)
     | Output_Treasury _ \<Rightarrow> Inl (Types_UnsupportedOutputKind (Output_kind output)))"

section \<open>Applying a difference\<close>

text \<open>As long as the entries of a balance are below \<open>2 ^ 63\<close>, which the supply guarantees, a
  difference is applied exactly or refused.\<close>

definition Balance_small :: "Balance \<Rightarrow> bool" where
  "Balance_small b \<longleftrightarrow>
     uint (Balance_amount b) < 2 ^ 63 \<and> uint (Balance_dust_allowance b) < 2 ^ 63 \<and>
     uint (Balance_dust_outputs b) < 2 ^ 63"

definition applied :: "u64 \<Rightarrow> i64 \<Rightarrow> u64 \<Rightarrow> bool" where
  "applied a x b \<longleftrightarrow> uint b = uint a + sint x \<and> uint b < 2 ^ 63"

lemma sint_small: "uint (w :: 64 word) < 2 ^ 63 \<Longrightarrow> sint w = uint w"
  using sint_i64_of_int [of "uint w"] by (simp add: i64_in_range_def order_trans [OF _ uint_ge_0])

lemma uint_of_sint: "0 \<le> sint (w :: 64 word) \<Longrightarrow> uint w = sint w"
  using sint_range(2) [of w] uint_word_of_int_eq [of "sint w", where 'a = 64]
  by (simp add: take_bit_int_eq_self)

lemma sint_minus_i64: "- (2 ^ 63) < sint (w :: 64 word) \<Longrightarrow> sint (- w) = - sint w"
  using sint_i64_of_int [of "- sint w"] sint_range(2) [of w] by (simp add: i64_in_range_def)

lemma checked_add_i64_applied:
  assumes "uint a < 2 ^ 63"
  shows "checked_add_i64 a x = Some b \<and> \<not> sint b < 0 \<longleftrightarrow> applied a x b"
proof
  assume b: "checked_add_i64 a x = Some b \<and> \<not> sint b < 0"
  then have "sint b = uint a + sint x" using checked_add_i64_Some [of a x b] sint_small [OF assms] by simp
  with b show "applied a x b"
    using uint_of_sint [of b] sint_range(2) [of b] by (simp add: applied_def)
next
  assume b: "applied a x b"
  then have "sint b = sint a + sint x" and "0 \<le> sint b" and "sint b < 2 ^ 63"
    using sint_small [of b] sint_small [OF assms] uint_ge_0 [of b] by (simp_all add: applied_def)
  then have r: "i64_in_range (sint a + sint x)"
    by (simp add: i64_in_range_def)
  with \<open>sint b = sint a + sint x\<close> have "sint b = sint (a + x)"
    using sint_i64_of_int [OF r] by simp
  then have "b = a + x" by (rule signed_word_eqI)
  with r show "checked_add_i64 a x = Some b \<and> \<not> sint b < 0"
    using \<open>0 \<le> sint b\<close> by (simp add: checked_add_i64_def)
qed

lemma Balance_apply_diff_Inr_iff:
  assumes "Balance_small b"
  shows "Balance_apply_diff x b = Inr b' \<longleftrightarrow>
    applied (Balance_amount b) (BalanceDiff_amount x) (Balance_amount b') \<and>
    applied (Balance_dust_allowance b) (BalanceDiff_dust_allowance x) (Balance_dust_allowance b') \<and>
    applied (Balance_dust_outputs b) (BalanceDiff_dust_outputs x) (Balance_dust_outputs b')"
  using assms
  by (cases b') (auto simp: Balance_apply_diff_def bindR_Inr_iff Balance_small_def
      checked_add_i64_applied [symmetric])

lemma Balance_apply_diff_small: "Balance_small b \<Longrightarrow> Balance_apply_diff x b = Inr b' \<Longrightarrow> Balance_small b'"
  by (simp add: Balance_apply_diff_Inr_iff) (simp add: applied_def Balance_small_def)

lemma Balance_valid_small: "Balance_valid b \<Longrightarrow> Balance_small b"
  by (auto simp: Balance_valid_def Balance_small_def word_le_def IOTA_SUPPLY_def)

text \<open>The negated difference undoes a difference.\<close>

lemma applied_negate: "uint a < 2 ^ 63 \<Longrightarrow> applied a x b \<Longrightarrow> applied b (- x) a"
  using sint_minus_i64 [of x] uint_ge_0 [of b] by (auto simp: applied_def)

lemma Balance_apply_diff_negate:
  assumes "Balance_small b" and "Balance_apply_diff x b = Inr b'"
  shows "Balance_apply_diff (BalanceDiff_negate x) b' = Inr b"
  using assms Balance_apply_diff_small [OF assms]
  by (simp add: Balance_apply_diff_Inr_iff BalanceDiff_negate_def applied_negate Balance_small_def)

section \<open>Merging differences\<close>

text \<open>A single step: the entry of an address is the sum of the two differences, which is exact.\<close>

definition diff_sum :: "BalanceDiff \<Rightarrow> BalanceDiff \<Rightarrow> BalanceDiff \<Rightarrow> bool" where
  "diff_sum x y z \<longleftrightarrow>
     checked_add_i64 (BalanceDiff_amount x) (BalanceDiff_amount y) = Some (BalanceDiff_amount z) \<and>
     checked_add_i64 (BalanceDiff_dust_allowance x) (BalanceDiff_dust_allowance y) =
       Some (BalanceDiff_dust_allowance z) \<and>
     checked_add_i64 (BalanceDiff_dust_outputs x) (BalanceDiff_dust_outputs y) =
       Some (BalanceDiff_dust_outputs z)"

lemma ex_BalanceDiff:
  "(\<exists>z. P z) \<longleftrightarrow> (\<exists>a b c. P \<lparr>BalanceDiff_amount = a, BalanceDiff_dust_allowance = b,
     BalanceDiff_dust_outputs = c\<rparr>)"
  by (metis BalanceDiff.cases)

lemma BalanceDiffs_merge_Cons:
  "BalanceDiffs_merge ((a, y) # other) m = Inr m' \<longleftrightarrow>
     (\<exists>z. diff_sum (or_default m a) y z \<and> BalanceDiffs_merge other (m(a \<mapsto> z)) = Inr m')"
  by (subst ex_BalanceDiff) (auto simp: diff_sum_def Let_def bindR_Inr_iff)

lemma or_default_upd: "or_default (m(a \<mapsto> z)) b = (if a = b then z else or_default m b)"
  by (simp add: or_default_def)

lemma diff_sum_default: "diff_sum x BalanceDiff_default x"
  using sint_range by (auto simp: diff_sum_def BalanceDiff_default_def checked_add_i64_def i64_in_range_def)

text \<open>Every address ends up with the sum of its entries in both maps.\<close>

lemma BalanceDiffs_merge_Inr:
  assumes "BalanceDiffs_merge other m = Inr m'" and "distinct (map fst other)"
  shows "diff_sum (or_default m a) (or_default (map_of other) a) (or_default m' a)"
  using assms
proof (induction other arbitrary: m)
  case Nil
  then show ?case by (simp add: or_default_def [of Map.empty] diff_sum_default)
next
  case (Cons p other)
  obtain k y where p: "p = (k, y)" by (cases p)
  with Cons.prems(1) obtain z where z: "diff_sum (or_default m k) y z"
    and m': "BalanceDiffs_merge other (m(k \<mapsto> z)) = Inr m'"
    unfolding p BalanceDiffs_merge_Cons by blast
  have IH: "diff_sum (or_default (m(k \<mapsto> z)) a) (or_default (map_of other) a) (or_default m' a)"
    using Cons.prems(2) by (intro Cons.IH [OF m']) simp
  show ?case
  proof (cases "a = k")
    case True
    with Cons.prems(2) p have "map_of other a = None" by (simp add: map_of_eq_None_iff)
    with IH True have "diff_sum z BalanceDiff_default (or_default m' a)" by (simp add: or_default_def)
    then have "or_default m' a = z"
      by (auto simp: diff_sum_def BalanceDiff_default_def checked_add_i64_def intro: BalanceDiff.equality
          split: if_splits)
    moreover have "or_default (map_of (p # other)) k = y" by (simp add: p or_default_def)
    ultimately show ?thesis using z True by metis
  next
    case False
    with IH p show ?thesis by (simp add: or_default_upd) (simp add: or_default_def)
  qed
qed

text \<open>Applying a merged difference is applying one difference after the other.\<close>

lemma Balance_apply_diff_sum:
  assumes "Balance_small b" and "diff_sum x y z"
    and "Balance_apply_diff x b = Inr b1" and "Balance_apply_diff y b1 = Inr b2"
  shows "Balance_apply_diff z b = Inr b2"
  using assms Balance_apply_diff_small [OF assms(1,3)]
  by (auto simp: Balance_apply_diff_Inr_iff diff_sum_def applied_def dest!: checked_add_i64_Some)

section \<open>The sum of all differences\<close>

definition diffs_amount :: "BalanceDiffs \<Rightarrow> i64" where
  "diffs_amount m = (\<Sum>a\<in>dom m. BalanceDiff_amount (the (m a)))"

lemma diffs_amount_upd:
  assumes "finite (dom m)"
  shows "diffs_amount (m(a \<mapsto> z)) =
    diffs_amount m + BalanceDiff_amount z - BalanceDiff_amount (or_default m a)"
proof (cases "a \<in> dom m")
  case True
  have "diffs_amount (m(a \<mapsto> z)) =
      BalanceDiff_amount z + (\<Sum>b\<in>dom m - {a}. BalanceDiff_amount (the (m b)))"
    using assms True unfolding diffs_amount_def
    by (subst sum.remove [of _ a]) (auto simp: insert_absorb intro!: sum.cong)
  moreover have "diffs_amount m =
      BalanceDiff_amount (the (m a)) + (\<Sum>b\<in>dom m - {a}. BalanceDiff_amount (the (m b)))"
    using assms True unfolding diffs_amount_def by (subst sum.remove [of _ a]) auto
  ultimately show ?thesis using True by (auto simp: or_default_def)
next
  case False
  then have "diffs_amount (m(a \<mapsto> z)) = BalanceDiff_amount z + diffs_amount m"
    using assms unfolding diffs_amount_def by (auto simp: domIff intro!: sum.cong)
  with False show ?thesis by (simp add: or_default_def domIff BalanceDiff_default_def)
qed

lemma BalanceDiffs_amount_add_Inr:
  assumes "BalanceDiffs_amount_add a n m = Inr m'" and "finite (dom m)"
  shows "diffs_amount m' = diffs_amount m + n \<and> finite (dom m')"
  using assms by (auto simp: BalanceDiffs_amount_add_def Let_def bindR_Inr_iff checked_add_i64_def
      diffs_amount_upd split: if_splits)

lemma BalanceDiffs_amount_sub_Inr:
  assumes "BalanceDiffs_amount_sub a n m = Inr m'" and "finite (dom m)"
  shows "diffs_amount m' = diffs_amount m - n \<and> finite (dom m')"
  using assms by (auto simp: BalanceDiffs_amount_sub_def Let_def bindR_Inr_iff checked_sub_i64_def
      diffs_amount_upd split: if_splits)

lemma BalanceDiffs_dust_Inr:
  assumes "BalanceDiffs_dust_allowance_add a n m = Inr m' \<or> BalanceDiffs_dust_allowance_sub a n m = Inr m' \<or>
      BalanceDiffs_dust_outputs_inc a m = Inr m' \<or> BalanceDiffs_dust_outputs_dec a m = Inr m'"
    and "finite (dom m)"
  shows "diffs_amount m' = diffs_amount m \<and> finite (dom m')"
  using assms by (auto simp: BalanceDiffs_dust_allowance_add_def BalanceDiffs_dust_allowance_sub_def
      BalanceDiffs_dust_outputs_inc_def BalanceDiffs_dust_outputs_dec_def Let_def bindR_Inr_iff
      diffs_amount_upd)

lemma BalanceDiffs_merge_amount:
  assumes "BalanceDiffs_merge other m = Inr m'" and "finite (dom m)"
  shows "diffs_amount m' = diffs_amount m + (\<Sum>(a, y)\<leftarrow>other. BalanceDiff_amount y) \<and> finite (dom m')"
  using assms
proof (induction other arbitrary: m)
  case (Cons p other)
  obtain k y where p: "p = (k, y)" by (cases p)
  with Cons.prems(1) obtain z where z: "diff_sum (or_default m k) y z"
    and m': "BalanceDiffs_merge other (m(k \<mapsto> z)) = Inr m'"
    unfolding p BalanceDiffs_merge_Cons by blast
  from z have "BalanceDiff_amount z = BalanceDiff_amount (or_default m k) + BalanceDiff_amount y"
    by (auto simp: diff_sum_def checked_add_i64_def split: if_splits)
  moreover from Cons.prems(2) have "finite (dom (m(k \<mapsto> z)))" by simp
  then have "diffs_amount m' = diffs_amount (m(k \<mapsto> z)) + (\<Sum>(a, y)\<leftarrow>other. BalanceDiff_amount y) \<and>
    finite (dom m')"
    by (rule Cons.IH [OF m'])
  ultimately show ?case using Cons.prems(2) p diffs_amount_upd [of m k z] by (simp add: algebra_simps)
qed simp

end
