(* ===== verification/Snapshot_Types.thy ===== *)
theory Snapshot_Types
  imports Ledger_Types
begin

text \<open>
  The contents of snapshot files in bee-ledger: the kind and the headers (types/snapshot/kind.rs and
  header.rs), the snapshot information kept in the storage (info.rs) and the differences of a
  milestone (milestone_diff.rs).
\<close>

section \<open>Kinds and headers\<close>

datatype SnapshotKind = SnapshotKind_Full | SnapshotKind_Delta

fun SnapshotKind_u8 :: "SnapshotKind \<Rightarrow> u8" where
  "SnapshotKind_u8 SnapshotKind_Full = 0"
| "SnapshotKind_u8 SnapshotKind_Delta = 1"

definition SnapshotKind_packed_len :: "SnapshotKind \<Rightarrow> nat" where
  "SnapshotKind_packed_len self = num_packed_len (SnapshotKind_u8 self)"

definition SnapshotKind_pack :: "SnapshotKind \<Rightarrow> byte list" where
  "SnapshotKind_pack self = num_pack (SnapshotKind_u8 self)"

definition SnapshotKind_unpack :: "bool \<Rightarrow> (TypesError, SnapshotKind) reader" where
  "SnapshotKind_unpack check =
     bindP (tnum check) (\<lambda>k.
       if k = 0 then returnP SnapshotKind_Full
       else if k = 1 then returnP SnapshotKind_Delta
       else failP (Types_InvalidSnapshotKind k))"

interpretation SnapshotKind: canonical_codec SnapshotKind_packed_len SnapshotKind_pack
    SnapshotKind_unpack "\<lambda>_. True"
proof unfold_locales
  fix x c rest
  show "length (SnapshotKind_pack x) = SnapshotKind_packed_len x"
    by (simp add: SnapshotKind_pack_def SnapshotKind_packed_len_def codec_len)
  show "SnapshotKind_unpack c (SnapshotKind_pack x @ rest) = Inr (x, rest)"
    by (cases x) (simp_all add: SnapshotKind_pack_def SnapshotKind_unpack_def codec_run)
qed (auto simp: SnapshotKind_unpack_def SnapshotKind_packed_len_def SnapshotKind_pack_def
    bindP_Inr_iff split: if_splits dest!: tu8.unpack_dest)

definition SNAPSHOT_VERSION :: u8 where
  "SNAPSHOT_VERSION = 1"

record SnapshotHeader =
  SnapshotHeader_kind :: SnapshotKind
  SnapshotHeader_timestamp :: u64
  SnapshotHeader_network_id :: u64
  SnapshotHeader_sep_index :: MilestoneIndex
  SnapshotHeader_ledger_index :: MilestoneIndex

definition SnapshotHeader_LENGTH :: nat where
  "SnapshotHeader_LENGTH = 26"

definition SnapshotHeader_packed_len :: "SnapshotHeader \<Rightarrow> nat" where
  "SnapshotHeader_packed_len self =
     num_packed_len SNAPSHOT_VERSION + SnapshotKind_packed_len (SnapshotHeader_kind self) +
     num_packed_len (SnapshotHeader_timestamp self) + num_packed_len (SnapshotHeader_network_id self) +
     MilestoneIndex_packed_len (SnapshotHeader_sep_index self) +
     MilestoneIndex_packed_len (SnapshotHeader_ledger_index self)"

definition SnapshotHeader_pack :: "SnapshotHeader \<Rightarrow> byte list" where
  "SnapshotHeader_pack self =
     num_pack SNAPSHOT_VERSION @ SnapshotKind_pack (SnapshotHeader_kind self) @
     num_pack (SnapshotHeader_timestamp self) @ num_pack (SnapshotHeader_network_id self) @
     MilestoneIndex_pack (SnapshotHeader_sep_index self) @
     MilestoneIndex_pack (SnapshotHeader_ledger_index self)"

definition SnapshotHeader_unpack :: "bool \<Rightarrow> (TypesError, SnapshotHeader) reader" where
  "SnapshotHeader_unpack check =
     bindP (tnum check) (\<lambda>version.
     bindP (requireP (check \<longrightarrow> SNAPSHOT_VERSION = version)
       (Types_UnsupportedVersion SNAPSHOT_VERSION version)) (\<lambda>_.
     bindP (SnapshotKind_unpack check) (\<lambda>kind.
     bindP (tnum check) (\<lambda>timestamp.
     bindP (tnum check) (\<lambda>network_id.
     bindP (tindex check) (\<lambda>sep_index.
     bindP (tindex check) (\<lambda>ledger_index.
     returnP \<lparr>SnapshotHeader_kind = kind, SnapshotHeader_timestamp = timestamp,
       SnapshotHeader_network_id = network_id, SnapshotHeader_sep_index = sep_index,
       SnapshotHeader_ledger_index = ledger_index\<rparr>)))))))"

interpretation SnapshotHeader: codec SnapshotHeader_packed_len SnapshotHeader_pack
    SnapshotHeader_unpack "\<lambda>_. True"
proof unfold_locales
  fix x c rest
  show "length (SnapshotHeader_pack x) = SnapshotHeader_packed_len x"
    by (simp add: SnapshotHeader_pack_def SnapshotHeader_packed_len_def codec_len)
  show "SnapshotHeader_unpack c (SnapshotHeader_pack x @ rest) = Inr (x, rest)"
    by (simp add: SnapshotHeader_pack_def SnapshotHeader_unpack_def codec_run)
next
  fix x c bs rest
  assume "SnapshotHeader_unpack c bs = Inr (x, rest)"
  then show "SnapshotHeader_packed_len x \<le> length bs \<and> rest = drop (SnapshotHeader_packed_len x) bs"
    by (auto simp: SnapshotHeader_unpack_def SnapshotHeader_packed_len_def bindP_Inr_iff add.commute
        split: if_splits dest!: tu8.unpack_rest SnapshotKind.unpack_rest tu64.unpack_rest
        tindex.unpack_rest)
qed simp

lemma SnapshotHeader_length: "SnapshotHeader_packed_len x = SnapshotHeader_LENGTH"
  by (simp add: SnapshotHeader_packed_len_def SnapshotHeader_LENGTH_def SnapshotKind_packed_len_def
      MilestoneIndex_packed_len_def)

record FullSnapshotHeader =
  FullSnapshotHeader_sep_count :: u64
  FullSnapshotHeader_output_count :: u64
  FullSnapshotHeader_milestone_diff_count :: u64
  FullSnapshotHeader_treasury_output_milestone_id :: MilestoneId
  FullSnapshotHeader_treasury_output_amount :: u64

definition FullSnapshotHeader_packed_len :: "FullSnapshotHeader \<Rightarrow> nat" where
  "FullSnapshotHeader_packed_len self =
     num_packed_len (FullSnapshotHeader_sep_count self) +
     num_packed_len (FullSnapshotHeader_output_count self) +
     num_packed_len (FullSnapshotHeader_milestone_diff_count self) +
     MilestoneId_packed_len (FullSnapshotHeader_treasury_output_milestone_id self) +
     num_packed_len (FullSnapshotHeader_treasury_output_amount self)"

definition FullSnapshotHeader_pack :: "FullSnapshotHeader \<Rightarrow> byte list" where
  "FullSnapshotHeader_pack self =
     num_pack (FullSnapshotHeader_sep_count self) @ num_pack (FullSnapshotHeader_output_count self) @
     num_pack (FullSnapshotHeader_milestone_diff_count self) @
     MilestoneId_pack (FullSnapshotHeader_treasury_output_milestone_id self) @
     num_pack (FullSnapshotHeader_treasury_output_amount self)"

definition FullSnapshotHeader_unpack :: "bool \<Rightarrow> (TypesError, FullSnapshotHeader) reader" where
  "FullSnapshotHeader_unpack check =
     bindP (tnum check) (\<lambda>sep_count.
     bindP (tnum check) (\<lambda>output_count.
     bindP (tnum check) (\<lambda>milestone_diff_count.
     bindP (tmsg MilestoneId_unpack check) (\<lambda>treasury_output_milestone_id.
     bindP (tnum check) (\<lambda>treasury_output_amount.
     returnP \<lparr>FullSnapshotHeader_sep_count = sep_count,
       FullSnapshotHeader_output_count = output_count,
       FullSnapshotHeader_milestone_diff_count = milestone_diff_count,
       FullSnapshotHeader_treasury_output_milestone_id = treasury_output_milestone_id,
       FullSnapshotHeader_treasury_output_amount = treasury_output_amount\<rparr>)))))"

definition FullSnapshotHeader_valid :: "FullSnapshotHeader \<Rightarrow> bool" where
  "FullSnapshotHeader_valid x \<longleftrightarrow> MilestoneId_valid (FullSnapshotHeader_treasury_output_milestone_id x)"

interpretation FullSnapshotHeader: canonical_codec FullSnapshotHeader_packed_len
    FullSnapshotHeader_pack FullSnapshotHeader_unpack FullSnapshotHeader_valid
  by (rule via_canonical [OF seq_canonical [OF tu64.canonical_codec_axioms
        seq_canonical [OF tu64.canonical_codec_axioms seq_canonical [OF tu64.canonical_codec_axioms
        seq_canonical [OF tMilestoneId.canonical_codec_axioms tu64.canonical_codec_axioms]]]], where
        get = "\<lambda>x. (FullSnapshotHeader_sep_count x, FullSnapshotHeader_output_count x,
          FullSnapshotHeader_milestone_diff_count x, FullSnapshotHeader_treasury_output_milestone_id x,
          FullSnapshotHeader_treasury_output_amount x)" and
        make = "\<lambda>(a, b, c, m, n). Inr \<lparr>FullSnapshotHeader_sep_count = a,
          FullSnapshotHeader_output_count = b, FullSnapshotHeader_milestone_diff_count = c,
          FullSnapshotHeader_treasury_output_milestone_id = m,
          FullSnapshotHeader_treasury_output_amount = n\<rparr>"])
    (auto simp: FullSnapshotHeader_packed_len_def FullSnapshotHeader_pack_def
      FullSnapshotHeader_unpack_def FullSnapshotHeader_valid_def)

record DeltaSnapshotHeader =
  DeltaSnapshotHeader_sep_count :: u64
  DeltaSnapshotHeader_milestone_diff_count :: u64

definition DeltaSnapshotHeader_packed_len :: "DeltaSnapshotHeader \<Rightarrow> nat" where
  "DeltaSnapshotHeader_packed_len self =
     num_packed_len (DeltaSnapshotHeader_sep_count self) +
     num_packed_len (DeltaSnapshotHeader_milestone_diff_count self)"

definition DeltaSnapshotHeader_pack :: "DeltaSnapshotHeader \<Rightarrow> byte list" where
  "DeltaSnapshotHeader_pack self =
     num_pack (DeltaSnapshotHeader_sep_count self) @
     num_pack (DeltaSnapshotHeader_milestone_diff_count self)"

definition DeltaSnapshotHeader_unpack :: "bool \<Rightarrow> (TypesError, DeltaSnapshotHeader) reader" where
  "DeltaSnapshotHeader_unpack check =
     bindP (tnum check) (\<lambda>sep_count.
     bindP (tnum check) (\<lambda>milestone_diff_count.
     returnP \<lparr>DeltaSnapshotHeader_sep_count = sep_count,
       DeltaSnapshotHeader_milestone_diff_count = milestone_diff_count\<rparr>))"

interpretation DeltaSnapshotHeader: canonical_codec DeltaSnapshotHeader_packed_len
    DeltaSnapshotHeader_pack DeltaSnapshotHeader_unpack "\<lambda>_. True"
  by (rule via_canonical [OF seq_canonical [OF tu64.canonical_codec_axioms
        tu64.canonical_codec_axioms], where
        get = "\<lambda>x. (DeltaSnapshotHeader_sep_count x, DeltaSnapshotHeader_milestone_diff_count x)" and
        make = "\<lambda>(a, b). Inr \<lparr>DeltaSnapshotHeader_sep_count = a,
          DeltaSnapshotHeader_milestone_diff_count = b\<rparr>"])
    (auto simp: DeltaSnapshotHeader_packed_len_def DeltaSnapshotHeader_pack_def
      DeltaSnapshotHeader_unpack_def)

section \<open>Snapshot information\<close>

record SnapshotInfo =
  SnapshotInfo_network_id :: u64
  SnapshotInfo_snapshot_index :: MilestoneIndex
  SnapshotInfo_entry_point_index :: MilestoneIndex
  SnapshotInfo_pruning_index :: MilestoneIndex
  SnapshotInfo_timestamp :: u64

definition SnapshotInfo_new ::
  "u64 \<Rightarrow> MilestoneIndex \<Rightarrow> MilestoneIndex \<Rightarrow> MilestoneIndex \<Rightarrow> u64 \<Rightarrow> SnapshotInfo" where
  "SnapshotInfo_new network_id snapshot_index entry_point_index pruning_index timestamp =
     \<lparr>SnapshotInfo_network_id = network_id, SnapshotInfo_snapshot_index = snapshot_index,
      SnapshotInfo_entry_point_index = entry_point_index, SnapshotInfo_pruning_index = pruning_index,
      SnapshotInfo_timestamp = timestamp\<rparr>"

definition SnapshotInfo_packed_len :: "SnapshotInfo \<Rightarrow> nat" where
  "SnapshotInfo_packed_len self =
     num_packed_len (SnapshotInfo_network_id self) +
     MilestoneIndex_packed_len (SnapshotInfo_snapshot_index self) +
     MilestoneIndex_packed_len (SnapshotInfo_entry_point_index self) +
     MilestoneIndex_packed_len (SnapshotInfo_pruning_index self) +
     num_packed_len (SnapshotInfo_timestamp self)"

definition SnapshotInfo_pack :: "SnapshotInfo \<Rightarrow> byte list" where
  "SnapshotInfo_pack self =
     num_pack (SnapshotInfo_network_id self) @ MilestoneIndex_pack (SnapshotInfo_snapshot_index self) @
     MilestoneIndex_pack (SnapshotInfo_entry_point_index self) @
     MilestoneIndex_pack (SnapshotInfo_pruning_index self) @ num_pack (SnapshotInfo_timestamp self)"

definition SnapshotInfo_unpack :: "bool \<Rightarrow> (TypesError, SnapshotInfo) reader" where
  "SnapshotInfo_unpack check =
     bindP (tnum check) (\<lambda>network_id.
     bindP (tindex check) (\<lambda>snapshot_index.
     bindP (tindex check) (\<lambda>entry_point_index.
     bindP (tindex check) (\<lambda>pruning_index.
     bindP (tnum check) (\<lambda>timestamp.
     returnP \<lparr>SnapshotInfo_network_id = network_id, SnapshotInfo_snapshot_index = snapshot_index,
       SnapshotInfo_entry_point_index = entry_point_index, SnapshotInfo_pruning_index = pruning_index,
       SnapshotInfo_timestamp = timestamp\<rparr>)))))"

interpretation SnapshotInfo: canonical_codec SnapshotInfo_packed_len SnapshotInfo_pack
    SnapshotInfo_unpack "\<lambda>_. True"
  by (rule via_canonical [OF seq_canonical [OF tu64.canonical_codec_axioms
        seq_canonical [OF tindex.canonical_codec_axioms seq_canonical [OF tindex.canonical_codec_axioms
        seq_canonical [OF tindex.canonical_codec_axioms tu64.canonical_codec_axioms]]]], where
        get = "\<lambda>x. (SnapshotInfo_network_id x, SnapshotInfo_snapshot_index x,
          SnapshotInfo_entry_point_index x, SnapshotInfo_pruning_index x, SnapshotInfo_timestamp x)" and
        make = "\<lambda>(n, s, e, p, t). Inr (SnapshotInfo_new n s e p t)"])
    (auto simp: SnapshotInfo_packed_len_def SnapshotInfo_pack_def SnapshotInfo_unpack_def
      SnapshotInfo_new_def)

section \<open>Milestone differences\<close>

text \<open>The two hash maps are partial maps; packing walks them in an order that is an argument.\<close>

record MilestoneDiff =
  MilestoneDiff_milestone :: MilestonePayload
  MilestoneDiff_consumed_treasury :: "(TreasuryOutput \<times> MilestoneId) option"
  MilestoneDiff_created_outputs :: "OutputId \<rightharpoonup> CreatedOutput"
  MilestoneDiff_consumed_outputs :: "OutputId \<rightharpoonup> CreatedOutput \<times> ConsumedOutput"

definition MilestoneDiff_packed_len :: "OutputId list \<Rightarrow> OutputId list \<Rightarrow> MilestoneDiff \<Rightarrow> nat" where
  "MilestoneDiff_packed_len created_order consumed_order self =
     num_packed_len (0 :: u32) + num_packed_len MilestonePayload_KIND +
     MilestonePayload_packed_len (MilestoneDiff_milestone self) +
     (case MilestoneDiff_consumed_treasury self of
       Some (treasury_output, milestone_id) \<Rightarrow>
         MilestoneId_packed_len milestone_id + TreasuryOutput_packed_len treasury_output
     | None \<Rightarrow> 0) +
     num_packed_len (0 :: u64) +
     sum_list (map (\<lambda>output_id. OutputId_packed_len output_id +
       CreatedOutput_packed_len (the (MilestoneDiff_created_outputs self output_id))) created_order) +
     num_packed_len (0 :: u64) +
     sum_list (map (\<lambda>output_id.
       case the (MilestoneDiff_consumed_outputs self output_id) of (created_output, consumed_output) \<Rightarrow>
         OutputId_packed_len output_id + CreatedOutput_packed_len created_output +
         TransactionId_packed_len (ConsumedOutput_target consumed_output)) consumed_order)"

definition MilestoneDiff_pack ::
  "OutputId list \<Rightarrow> OutputId list \<Rightarrow> MilestoneDiff \<Rightarrow> TypesError + byte list" where
  "MilestoneDiff_pack created_order consumed_order self =
     bindR (if MilestonePayloadEssence_receipt (MilestonePayload_essence (MilestoneDiff_milestone self))
           \<noteq> None
         then case MilestoneDiff_consumed_treasury self of
             Some (treasury_output, milestone_id) \<Rightarrow>
               Inr (MilestoneId_pack milestone_id @ TreasuryOutput_pack treasury_output)
           | None \<Rightarrow> Inl Types_MissingConsumedTreasury
         else Inr []) (\<lambda>treasury.
     Inr (num_pack (word_of_nat (MilestonePayload_packed_len (MilestoneDiff_milestone self)) +
         MilestonePayload_KIND) @
       num_pack MilestonePayload_KIND @ MilestonePayload_pack (MilestoneDiff_milestone self) @
       treasury @
       num_pack (word_of_nat (length created_order) :: u64) @
       concat (map (\<lambda>output_id.
         let created = the (MilestoneDiff_created_outputs self output_id) in
         MessageId_pack (CreatedOutput_message_id created) @ OutputId_pack output_id @
         CreatedOutput_pack created) created_order) @
       num_pack (word_of_nat (length consumed_order) :: u64) @
       concat (map (\<lambda>output_id.
         case the (MilestoneDiff_consumed_outputs self output_id) of (created, consumed) \<Rightarrow>
           MessageId_pack (CreatedOutput_message_id created) @ OutputId_pack output_id @
           Output_pack (CreatedOutput_inner created) @
           TransactionId_pack (ConsumedOutput_target consumed)) consumed_order)))"

text \<open>The two loops that read the entries and insert them into the maps.\<close>

fun read_created ::
  "bool \<Rightarrow> nat \<Rightarrow> (OutputId \<rightharpoonup> CreatedOutput) \<Rightarrow> (TypesError, OutputId \<rightharpoonup> CreatedOutput) reader" where
  "read_created check 0 created_outputs = returnP created_outputs"
| "read_created check (Suc n) created_outputs =
     bindP (tmsg MessageId_unpack check) (\<lambda>message_id.
     bindP (tmsg OutputId_unpack check) (\<lambda>output_id.
     bindP (tmsg Output_unpack check) (\<lambda>output.
     read_created check n (created_outputs(output_id \<mapsto> CreatedOutput_new message_id output)))))"

fun read_consumed ::
  "bool \<Rightarrow> MilestoneIndex \<Rightarrow> nat \<Rightarrow> (OutputId \<rightharpoonup> CreatedOutput \<times> ConsumedOutput) \<Rightarrow>
     (TypesError, OutputId \<rightharpoonup> CreatedOutput \<times> ConsumedOutput) reader" where
  "read_consumed check index 0 consumed_outputs = returnP consumed_outputs"
| "read_consumed check index (Suc n) consumed_outputs =
     bindP (tmsg MessageId_unpack check) (\<lambda>message_id.
     bindP (tmsg OutputId_unpack check) (\<lambda>output_id.
     bindP (tmsg Output_unpack check) (\<lambda>output.
     bindP (tmsg TransactionId_unpack check) (\<lambda>target.
     read_consumed check index n (consumed_outputs(output_id \<mapsto>
       (CreatedOutput_new message_id output, ConsumedOutput_new target index)))))))"

definition MilestoneDiff_unpack :: "deps \<Rightarrow> bool \<Rightarrow> (TypesError, MilestoneDiff) reader" where
  "MilestoneDiff_unpack d check =
     bindP (tnum check) (\<lambda>milestone_len :: u32.
     bindP (tmsg (Payload_unpack d) check) (\<lambda>payload.
     bindP (case payload of
         Payload_Milestone milestone \<Rightarrow> returnP milestone
       | _ \<Rightarrow> failP (Types_InvalidPayloadKind (Payload_kind payload))) (\<lambda>milestone.
     bindP (requireP (unat milestone_len =
         MilestonePayload_packed_len milestone + num_packed_len MilestonePayload_KIND)
       (Types_MilestoneLengthMismatch (unat milestone_len)
         (MilestonePayload_packed_len milestone + num_packed_len MilestonePayload_KIND))) (\<lambda>_.
     bindP (if MilestonePayloadEssence_receipt (MilestonePayload_essence milestone) \<noteq> None
         then bindP (tmsg MilestoneId_unpack check) (\<lambda>milestone_id.
           bindP (tnum check) (\<lambda>amount.
           bindP (liftP (map_errR Types_Message (TreasuryOutput_new amount))) (\<lambda>treasury_output.
           returnP (Some (treasury_output, milestone_id)))))
         else returnP None) (\<lambda>consumed_treasury.
     bindP (tnum check) (\<lambda>created_count :: u64.
     bindP (read_created check (unat created_count) Map.empty) (\<lambda>created_outputs.
     bindP (tnum check) (\<lambda>consumed_count :: u64.
     bindP (read_consumed check (MilestonePayloadEssence_index (MilestonePayload_essence milestone))
         (unat consumed_count) Map.empty) (\<lambda>consumed_outputs.
     returnP \<lparr>MilestoneDiff_milestone = milestone, MilestoneDiff_consumed_treasury = consumed_treasury,
       MilestoneDiff_created_outputs = created_outputs,
       MilestoneDiff_consumed_outputs = consumed_outputs\<rparr>)))))))))"

lemma MilestoneDiff_unpack_pack:
  assumes "Payload_valid d (Payload_Milestone (MilestoneDiff_milestone x))"
    and "MilestonePayload_packed_len (MilestoneDiff_milestone x) + 1 < 2 ^ 32"
    and "MilestoneDiff_pack created_order consumed_order x = Inr bs"
  shows "MilestoneDiff_unpack d check (bs @ rest) = Inl (Types_MilestoneLengthMismatch
    (MilestonePayload_packed_len (MilestoneDiff_milestone x) + 1)
    (MilestonePayload_packed_len (MilestoneDiff_milestone x) + 4))"
proof -
  let ?m = "MilestoneDiff_milestone x" and ?n = "MilestonePayload_packed_len (MilestoneDiff_milestone x)"
  from assms(3) obtain tail where bs: "bs = num_pack (word_of_nat ?n + MilestonePayload_KIND) @
      Payload_pack (Payload_Milestone ?m) @ tail"
    by (auto simp: MilestoneDiff_pack_def bindR_Inr_iff)
  have len: "unat (word_of_nat ?n + MilestonePayload_KIND) = ?n + 1"
    using assms(2) by (simp add: MilestonePayload_KIND_def unat_word_ariths unat_of_nat)
  have "bindP (tmsg (Payload_unpack d) check) f (Payload_pack (Payload_Milestone ?m) @ tail @ rest) =
      f (Payload_Milestone ?m) (tail @ rest)" for f :: "_ \<Rightarrow> (TypesError, MilestoneDiff) reader"
    by (rule codec.bind_unpack(1) [OF tmsg_codec [OF Payload.codec_axioms]]) (rule assms(1))
  with len show ?thesis
    by (simp add: bs MilestoneDiff_unpack_def codec_run del: Payload_pack.simps of_nat_add)
qed

end
