(* ===== verification/Memory_Storage.thy ===== *)
theory Memory_Storage
  imports Memory_Tables Tangle_Types Balance_Model Snapshot_Types "HOL-Library.Product_Lexorder"
begin

text \<open>
  The in-memory storage backend (bee-storage-memory/src/storage.rs and access/batch.rs) over the
  tables of \<open>Memory_Tables\<close>, and the system values it keeps (bee-storage/src/system/). A storage is
  the record of its tables; a batch is the record of the operations queued per table, committed
  table by table. The lock around the record and its poisoning are not part of the model: an
  operation of the storage does not fail.
\<close>

section \<open>System values\<close>

datatype StorageHealthError = StorageHealthError_Io io_error | UnknownHealth u8

datatype StorageHealth = StorageHealth_Healthy | StorageHealth_Idle | StorageHealth_Corrupted

fun StorageHealth_u8 :: "StorageHealth \<Rightarrow> u8" where
  "StorageHealth_u8 StorageHealth_Healthy = 0"
| "StorageHealth_u8 StorageHealth_Idle = 1"
| "StorageHealth_u8 StorageHealth_Corrupted = 2"

definition StorageHealth_packed_len :: "StorageHealth \<Rightarrow> nat" where
  "StorageHealth_packed_len self = num_packed_len (0 :: u8)"

definition StorageHealth_pack :: "StorageHealth \<Rightarrow> byte list" where
  "StorageHealth_pack self = num_pack (StorageHealth_u8 self)"

definition StorageHealth_unpack :: "bool \<Rightarrow> (StorageHealthError, StorageHealth) reader" where
  "StorageHealth_unpack check =
     bindP (map_errP StorageHealthError_Io (num_unpack check)) (\<lambda>h.
       if h = 0 then returnP StorageHealth_Healthy
       else if h = 1 then returnP StorageHealth_Idle
       else if h = 2 then returnP StorageHealth_Corrupted
       else failP (UnknownHealth h))"

lemma StorageHealth_u8_range: "StorageHealth_u8 h \<noteq> 2 \<Longrightarrow> StorageHealth_u8 h \<noteq> 1 \<Longrightarrow> StorageHealth_u8 h = 0"
  by (cases h) simp_all

interpretation StorageHealth: canonical_codec StorageHealth_packed_len StorageHealth_pack
    StorageHealth_unpack "\<lambda>_. True"
  by (rule via_canonical [OF u8.map_err_canonical [of StorageHealthError_Io], where
        get = StorageHealth_u8 and make = "\<lambda>h. if h = 0 then Inr StorageHealth_Healthy
          else if h = 1 then Inr StorageHealth_Idle
          else if h = 2 then Inr StorageHealth_Corrupted else Inl (UnknownHealth h)"])
    (auto simp: StorageHealth_packed_len_def StorageHealth_pack_def StorageHealth_unpack_def
      intro!: bindP_cong split: if_splits elim: StorageHealth_u8.elims intro: StorageHealth_u8_range)

datatype StorageVersion = StorageVersion u64

definition SYSTEM_VERSION_KEY :: u8 where
  "SYSTEM_VERSION_KEY = 0"

definition SYSTEM_HEALTH_KEY :: u8 where
  "SYSTEM_HEALTH_KEY = 1"

datatype System = System_Version StorageVersion | System_Health StorageHealth

definition STORAGE_VERSION :: StorageVersion where
  "STORAGE_VERSION = StorageVersion 0"

section \<open>Orders on stored values\<close>

text \<open>The derived \<open>Ord\<close> of the identifiers that sorted vectors hold.\<close>

instantiation MessageId :: linorder
begin

definition less_eq_MessageId :: "MessageId \<Rightarrow> MessageId \<Rightarrow> bool" where
  "x \<le> y \<longleftrightarrow> MessageId_bytes x \<le> MessageId_bytes y"

definition less_MessageId :: "MessageId \<Rightarrow> MessageId \<Rightarrow> bool" where
  "x < y \<longleftrightarrow> MessageId_bytes x < MessageId_bytes y"

instance
  by standard (auto simp: less_eq_MessageId_def less_MessageId_def MessageId.expand)

end

instantiation TransactionId :: linorder
begin

definition less_eq_TransactionId :: "TransactionId \<Rightarrow> TransactionId \<Rightarrow> bool" where
  "x \<le> y \<longleftrightarrow> TransactionId_bytes x \<le> TransactionId_bytes y"

definition less_TransactionId :: "TransactionId \<Rightarrow> TransactionId \<Rightarrow> bool" where
  "x < y \<longleftrightarrow> TransactionId_bytes x < TransactionId_bytes y"

instance
  by standard (auto simp: less_eq_TransactionId_def less_TransactionId_def TransactionId.expand)

end

definition OutputId_key :: "'a OutputId_scheme \<Rightarrow> TransactionId \<times> u16 \<times> 'a" where
  "OutputId_key x = (OutputId_transaction_id x, OutputId_index x, OutputId.more x)"

lemma OutputId_key_eq: "OutputId_key x = OutputId_key y \<longleftrightarrow> x = y"
  by (auto simp: OutputId_key_def OutputId.equality)

instantiation OutputId_ext :: (linorder) linorder
begin

definition less_eq_OutputId_ext :: "'a OutputId_scheme \<Rightarrow> 'a OutputId_scheme \<Rightarrow> bool" where
  "x \<le> y \<longleftrightarrow> OutputId_key x \<le> OutputId_key y"

definition less_OutputId_ext :: "'a OutputId_scheme \<Rightarrow> 'a OutputId_scheme \<Rightarrow> bool" where
  "x < y \<longleftrightarrow> OutputId_key x < OutputId_key y"

instance
proof
  fix x y z :: "'a OutputId_scheme"
  show "x < y \<longleftrightarrow> x \<le> y \<and> \<not> y \<le> x"
    by (simp add: less_eq_OutputId_ext_def less_OutputId_ext_def less_le_not_le)
  show "x \<le> x" by (simp add: less_eq_OutputId_ext_def)
  show "x \<le> y \<Longrightarrow> y \<le> z \<Longrightarrow> x \<le> z" by (simp add: less_eq_OutputId_ext_def)
  show "x \<le> y \<Longrightarrow> y \<le> x \<Longrightarrow> x = y" by (simp add: less_eq_OutputId_ext_def OutputId_key_eq [symmetric])
  show "x \<le> y \<or> y \<le> x" by (simp add: less_eq_OutputId_ext_def linear)
qed

end

section \<open>The storage\<close>

record InnerStorage =
  sys_table :: "(u8, System) Table"
  message_id_to_message :: "(MessageId, Message) Table"
  message_id_to_metadata :: "(MessageId, MessageMetadata) Table"
  message_id_to_message_id :: "(MessageId, MessageId) VecBinTable"
  index_to_message_id :: "(PaddedIndex, MessageId) VecBinTable"
  output_id_to_created_output :: "(OutputId, CreatedOutput) Table"
  output_id_to_consumed_output :: "(OutputId, ConsumedOutput) Table"
  output_id_unspent :: "(Unspent, unit) Table"
  ed25519_address_to_output_id :: "(Ed25519Address, OutputId) VecBinTable"
  ledger_index :: "LedgerIndex SingletonTable"
  milestone_index_to_milestone :: "(MilestoneIndex, Milestone) Table"
  snapshot_info :: "SnapshotInfo SingletonTable"
  solid_entry_point_to_milestone_index :: "(SolidEntryPoint, MilestoneIndex) Table"
  milestone_index_to_output_diff :: "(MilestoneIndex, OutputDiff) Table"
  address_to_balance :: "(Address, Balance) Table"
  milestone_index_to_unreferenced_message :: "(MilestoneIndex, UnreferencedMessage) VecTable"
  milestone_index_to_receipt :: "(MilestoneIndex, LedgerReceipt) VecTable"
  spent_to_treasury_output :: "(bool, LedgerTreasuryOutput) VecTable"

definition Storage_new :: InnerStorage where
  "Storage_new = \<lparr>sys_table = Map.empty, message_id_to_message = Map.empty,
     message_id_to_metadata = Map.empty, message_id_to_message_id = Map.empty,
     index_to_message_id = Map.empty, output_id_to_created_output = Map.empty,
     output_id_to_consumed_output = Map.empty, output_id_unspent = Map.empty,
     ed25519_address_to_output_id = Map.empty, ledger_index = None,
     milestone_index_to_milestone = Map.empty, snapshot_info = None,
     solid_entry_point_to_milestone_index = Map.empty, milestone_index_to_output_diff = Map.empty,
     address_to_balance = Map.empty, milestone_index_to_unreferenced_message = Map.empty,
     milestone_index_to_receipt = Map.empty, spent_to_treasury_output = Map.empty\<rparr>"

text \<open>\<open>Inl\<close> is an error of the backend; \<open>None\<close> below it a panic on a value of the wrong variant.\<close>

datatype StorageError =
    PoisonedLock
  | VersionMismatch StorageVersion StorageVersion
  | UnhealthyStorage StorageHealth
  | StoragePanic string

definition Storage_get_health :: "InnerStorage \<Rightarrow> StorageError + StorageHealth option" where
  "Storage_get_health self =
     (case Table_fetch (sys_table self) SYSTEM_HEALTH_KEY of
        Some (System_Health health) \<Rightarrow> Inr (Some health)
      | None \<Rightarrow> Inr None
      | _ \<Rightarrow> Inl (StoragePanic ''Another system value was inserted on the health key.''))"

definition Storage_set_health :: "StorageHealth \<Rightarrow> InnerStorage \<Rightarrow> InnerStorage" where
  "Storage_set_health health self =
     sys_table_update (Table_insert SYSTEM_HEALTH_KEY (System_Health health)) self"

definition Storage_check_version :: "InnerStorage \<Rightarrow> StorageError + InnerStorage" where
  "Storage_check_version storage =
     (case Table_fetch (sys_table storage) SYSTEM_VERSION_KEY of
        Some (System_Version version) \<Rightarrow>
          if version \<noteq> STORAGE_VERSION then Inl (VersionMismatch version STORAGE_VERSION) else Inr storage
      | None \<Rightarrow> Inr (sys_table_update (Table_insert SYSTEM_VERSION_KEY (System_Version STORAGE_VERSION)) storage)
      | _ \<Rightarrow> Inl (StoragePanic ''Another system value was inserted on the version key.''))"

definition Storage_start :: "StorageError + InnerStorage" where
  "Storage_start =
     bindR (Storage_check_version Storage_new) (\<lambda>storage.
     bindR (Storage_get_health storage) (\<lambda>health.
     bindR (case health of
         Some health \<Rightarrow> requireR (health = StorageHealth_Healthy) (UnhealthyStorage health)
       | None \<Rightarrow> Inr ()) (\<lambda>_.
     Inr (Storage_set_health StorageHealth_Idle storage))))"

definition Storage_shutdown :: "InnerStorage \<Rightarrow> InnerStorage" where
  "Storage_shutdown self = Storage_set_health StorageHealth_Healthy self"

section \<open>Batches\<close>

record StorageBatch =
  b_message_id_to_message :: "(MessageId, Message) TableBatch"
  b_message_id_to_metadata :: "(MessageId, MessageMetadata) TableBatch"
  b_message_id_to_message_id :: "(MessageId \<times> MessageId, unit) TableBatch"
  b_index_to_message_id :: "(PaddedIndex \<times> MessageId, unit) TableBatch"
  b_output_id_to_created_output :: "(OutputId, CreatedOutput) TableBatch"
  b_output_id_to_consumed_output :: "(OutputId, ConsumedOutput) TableBatch"
  b_output_id_unspent :: "(Unspent, unit) TableBatch"
  b_ed25519_address_to_output_id :: "(Ed25519Address \<times> OutputId, unit) TableBatch"
  b_ledger_index :: "(unit, LedgerIndex) TableBatch"
  b_milestone_index_to_milestone :: "(MilestoneIndex, Milestone) TableBatch"
  b_snapshot_info :: "(unit, SnapshotInfo) TableBatch"
  b_solid_entry_point_to_milestone_index :: "(SolidEntryPoint, MilestoneIndex) TableBatch"
  b_milestone_index_to_output_diff :: "(MilestoneIndex, OutputDiff) TableBatch"
  b_address_to_balance :: "(Address, Balance) TableBatch"
  b_milestone_index_to_unreferenced_message :: "(MilestoneIndex \<times> UnreferencedMessage, unit) TableBatch"
  b_milestone_index_to_receipt :: "(MilestoneIndex \<times> LedgerReceipt, unit) TableBatch"
  b_spent_to_treasury_output :: "(bool \<times> LedgerTreasuryOutput, unit) TableBatch"

definition batch_begin :: StorageBatch where
  "batch_begin = \<lparr>b_message_id_to_message = [], b_message_id_to_metadata = [],
     b_message_id_to_message_id = [], b_index_to_message_id = [], b_output_id_to_created_output = [],
     b_output_id_to_consumed_output = [], b_output_id_unspent = [],
     b_ed25519_address_to_output_id = [], b_ledger_index = [], b_milestone_index_to_milestone = [],
     b_snapshot_info = [], b_solid_entry_point_to_milestone_index = [],
     b_milestone_index_to_output_diff = [], b_address_to_balance = [],
     b_milestone_index_to_unreferenced_message = [], b_milestone_index_to_receipt = [],
     b_spent_to_treasury_output = []\<rparr>"

definition batch_commit :: "StorageBatch \<Rightarrow> InnerStorage \<Rightarrow> InnerStorage" where
  "batch_commit batch inner = inner\<lparr>
     message_id_to_message :=
       Table_batch_commit (b_message_id_to_message batch) (message_id_to_message inner),
     message_id_to_metadata :=
       Table_batch_commit (b_message_id_to_metadata batch) (message_id_to_metadata inner),
     message_id_to_message_id :=
       VecBinTable_batch_commit (b_message_id_to_message_id batch) (message_id_to_message_id inner),
     index_to_message_id :=
       VecBinTable_batch_commit (b_index_to_message_id batch) (index_to_message_id inner),
     output_id_to_created_output :=
       Table_batch_commit (b_output_id_to_created_output batch) (output_id_to_created_output inner),
     output_id_to_consumed_output :=
       Table_batch_commit (b_output_id_to_consumed_output batch) (output_id_to_consumed_output inner),
     output_id_unspent := Table_batch_commit (b_output_id_unspent batch) (output_id_unspent inner),
     ed25519_address_to_output_id :=
       VecBinTable_batch_commit (b_ed25519_address_to_output_id batch) (ed25519_address_to_output_id inner),
     ledger_index := SingletonTable_batch_commit (b_ledger_index batch) (ledger_index inner),
     milestone_index_to_milestone :=
       Table_batch_commit (b_milestone_index_to_milestone batch) (milestone_index_to_milestone inner),
     snapshot_info := SingletonTable_batch_commit (b_snapshot_info batch) (snapshot_info inner),
     solid_entry_point_to_milestone_index :=
       Table_batch_commit (b_solid_entry_point_to_milestone_index batch)
         (solid_entry_point_to_milestone_index inner),
     milestone_index_to_output_diff :=
       Table_batch_commit (b_milestone_index_to_output_diff batch) (milestone_index_to_output_diff inner),
     address_to_balance := Table_batch_commit (b_address_to_balance batch) (address_to_balance inner),
     milestone_index_to_unreferenced_message :=
       VecTable_batch_commit (b_milestone_index_to_unreferenced_message batch)
         (milestone_index_to_unreferenced_message inner),
     milestone_index_to_receipt :=
       VecTable_batch_commit (b_milestone_index_to_receipt batch) (milestone_index_to_receipt inner),
     spent_to_treasury_output :=
       VecTable_batch_commit (b_spent_to_treasury_output batch) (spent_to_treasury_output inner)\<rparr>"

text \<open>The vectors of the storage are well formed, and a batch keeps them so.\<close>

definition Storage_inv :: "InnerStorage \<Rightarrow> bool" where
  "Storage_inv s \<longleftrightarrow>
     VecBinTable_inv (message_id_to_message_id s) \<and> VecBinTable_inv (index_to_message_id s) \<and>
     VecBinTable_inv (ed25519_address_to_output_id s) \<and>
     VecTable_inv (milestone_index_to_unreferenced_message s) \<and>
     VecTable_inv (milestone_index_to_receipt s) \<and> VecTable_inv (spent_to_treasury_output s)"

lemma Storage_inv_new: "Storage_inv Storage_new"
  by (simp add: Storage_inv_def Storage_new_def VecBinTable_inv_def VecTable_inv_def)

lemma Storage_inv_batch_commit: "Storage_inv s \<Longrightarrow> Storage_inv (batch_commit b s)"
  by (simp add: Storage_inv_def batch_commit_def VecBinTable.inv_commit VecTable.inv_commit)

text \<open>A fresh storage starts idle and is healthy again after the shutdown.\<close>

lemma Storage_start_eq:
  "Storage_start = Inr (Storage_new\<lparr>sys_table :=
     [SYSTEM_VERSION_KEY \<mapsto> System_Version STORAGE_VERSION, SYSTEM_HEALTH_KEY \<mapsto> System_Health StorageHealth_Idle]\<rparr>)"
  by (simp add: Storage_start_def Storage_check_version_def Storage_get_health_def Storage_set_health_def
      Table_fetch_def Table_insert_def Storage_new_def SYSTEM_VERSION_KEY_def SYSTEM_HEALTH_KEY_def)

lemma Storage_get_set_health: "Storage_get_health (Storage_set_health h s) = Inr (Some h)"
  by (simp add: Storage_get_health_def Storage_set_health_def Table_fetch_def Table_insert_def)

end
