(* ===== verification/Ledger_Storage.thy ===== *)
theory Ledger_Storage
  imports Memory_Storage
begin

text \<open>
  The ledger on top of the storage (workers/storage.rs of bee-ledger): the batches that create and
  consume outputs, apply balance differences, receipts and treasury outputs, and the two operations
  that apply a milestone and roll it back. The errors are those of workers/error.rs.

  The order in which a hash map is iterated is not determined by its contents; every loop over one
  takes it from a record \<open>hash_iter\<close>, about which only is assumed that it lists every key once.
\<close>

section \<open>Errors\<close>

datatype SnapshotError =
    Snapshot_Io io_error
  | Snapshot_Types TypesError
  | UnexpectedSnapshotKind SnapshotKind SnapshotKind
  | DownloadingFailed
  | NoDownloadSourceAvailable
  | InvalidFilePath string
  | NetworkIdMismatch u64 u64
  | LedgerSepIndexesInconsistency MilestoneIndex MilestoneIndex
  | InvalidMilestoneDiffsCount nat nat
  | OnlyDeltaSnapshotFileExists
  | UnexpectedMilestoneDiffIndex MilestoneIndex
  | Snapshot_MissingConsumedTreasury
  | Snapshot_RemainingBytes

text \<open>The last constructor stands for a panic, which stops the node.\<close>

datatype (plugins only: code size) LedgerError =
    Ledger_Snapshot SnapshotError
  | Ledger_Types TypesError
  | Ledger_Message Error
  | MissingMessage MessageId
  | UnsupportedInputKind u8
  | UnsupportedOutputKind u8
  | UnsupportedPayloadKind u32
  | MilestoneMessageNotFound MessageId
  | NoMilestonePayload
  | NonContiguousMilestones u32 u32
  | MerkleProofMismatch MilestoneIndex string string
  | InvalidMessagesCount nat nat nat nat
  | InvalidLedgerUnspentState u64
  | InvalidLedgerBalanceState u64
  | InvalidLedgerDustState Address Balance
  | ConsumedAmountOverflow nat
  | CreatedAmountOverflow nat
  | LedgerStateOverflow nat
  | NonZeroBalanceDiffSum i64
  | DecreasingReceiptMigratedAtIndex MilestoneIndex MilestoneIndex
  | MissingUnspentOutput Unspent
  | Ledger_Storage_Error StorageError
  | Ledger_Panic string

section \<open>Iteration over hash maps\<close>

record hash_iter =
  iter_diffs :: "(Address \<rightharpoonup> BalanceDiff) \<Rightarrow> Address list"
  iter_created :: "(OutputId \<rightharpoonup> CreatedOutput) \<Rightarrow> OutputId list"
  iter_consumed :: "(OutputId \<rightharpoonup> CreatedOutput \<times> ConsumedOutput) \<Rightarrow> OutputId list"
  iter_unspent :: "(Unspent \<rightharpoonup> unit) \<Rightarrow> Unspent list"
  iter_balances :: "(Address \<rightharpoonup> Balance) \<Rightarrow> Address list"

definition keys_of :: "(('k \<rightharpoonup> 'v) \<Rightarrow> 'k list) \<Rightarrow> bool" where
  "keys_of iter \<longleftrightarrow> (\<forall>m. finite (dom m) \<longrightarrow> distinct (iter m) \<and> set (iter m) = dom m)"

definition hash_iter_spec :: "hash_iter \<Rightarrow> bool" where
  "hash_iter_spec h \<longleftrightarrow>
     keys_of (iter_diffs h) \<and> keys_of (iter_created h) \<and> keys_of (iter_consumed h) \<and>
     keys_of (iter_unspent h) \<and> keys_of (iter_balances h)"

definition entries :: "(('k \<rightharpoonup> 'v) \<Rightarrow> 'k list) \<Rightarrow> ('k \<rightharpoonup> 'v) \<Rightarrow> ('k \<times> 'v) list" where
  "entries iter m = map (\<lambda>k. (k, the (m k))) (iter m)"

text \<open>Iteration in ascending order of the keys satisfies the assumption.\<close>

instantiation Ed25519Address :: linorder
begin

definition less_eq_Ed25519Address :: "Ed25519Address \<Rightarrow> Ed25519Address \<Rightarrow> bool" where
  "x \<le> y \<longleftrightarrow> Ed25519Address_bytes x \<le> Ed25519Address_bytes y"

definition less_Ed25519Address :: "Ed25519Address \<Rightarrow> Ed25519Address \<Rightarrow> bool" where
  "x < y \<longleftrightarrow> Ed25519Address_bytes x < Ed25519Address_bytes y"

instance
  by standard (auto simp: less_eq_Ed25519Address_def less_Ed25519Address_def Ed25519Address.expand)

end

definition sorted_keys :: "('k \<Rightarrow> 'a::linorder) \<Rightarrow> ('a \<Rightarrow> 'k) \<Rightarrow> ('k \<rightharpoonup> 'v) \<Rightarrow> 'k list" where
  "sorted_keys key unkey m = map unkey (sorted_list_of_set (key ` dom m))"

definition sorted_iter :: hash_iter where
  "sorted_iter = \<lparr>
     iter_diffs = sorted_keys (\<lambda>a. case a of Address_Ed25519 x \<Rightarrow> x) Address_Ed25519,
     iter_created = sorted_keys id id,
     iter_consumed = sorted_keys id id,
     iter_unspent = sorted_keys Unspent_id Unspent,
     iter_balances = sorted_keys (\<lambda>a. case a of Address_Ed25519 x \<Rightarrow> x) Address_Ed25519\<rparr>"

lemma keys_of_sorted_keys:
  assumes "\<And>k. unkey (key k) = k"
  shows "keys_of (sorted_keys key unkey)"
proof -
  have "inj_on unkey (key ` A)" for A using assms by (auto intro: inj_onI)
  moreover have "unkey ` key ` A = A" for A using assms by (simp add: image_image)
  ultimately show ?thesis by (simp add: keys_of_def sorted_keys_def distinct_map)
qed

lemma hash_iter_spec_sorted: "hash_iter_spec sorted_iter"
  by (auto simp: hash_iter_spec_def sorted_iter_def intro!: keys_of_sorted_keys split: Address.splits)

lemma entries_spec:
  assumes "keys_of iter" and "finite (dom m)"
  shows "map_of (entries iter m) = m" and "distinct (map fst (entries iter m))"
    and "fst ` set (entries iter m) = dom m" and "map fst (entries iter m) = iter m"
proof -
  have iter: "distinct (iter m)" "set (iter m) = dom m" using assms by (auto simp: keys_of_def)
  have "map_of (map (\<lambda>k. (k, the (m k))) ks) k = (if k \<in> set ks then Some (the (m k)) else None)" for ks k
    by (induction ks) auto
  then show "map_of (entries iter m) = m"
    using iter by (auto simp: entries_def fun_eq_iff domIff)
  show map: "map fst (entries iter m) = iter m" by (simp add: entries_def comp_def)
  then show "distinct (map fst (entries iter m))" using iter by simp
  show "fst ` set (entries iter m) = dom m" using map iter by (metis set_map)
qed

section \<open>Batches on outputs\<close>

definition insert_output_id_for_address_batch :: "Address \<Rightarrow> OutputId \<Rightarrow> StorageBatch \<Rightarrow> StorageBatch" where
  "insert_output_id_for_address_batch address output_id batch =
     (case address of Address_Ed25519 address \<Rightarrow>
        b_ed25519_address_to_output_id_update (TableBatch_insert (address, output_id) ()) batch)"

definition delete_output_id_for_address_batch :: "Address \<Rightarrow> OutputId \<Rightarrow> StorageBatch \<Rightarrow> StorageBatch" where
  "delete_output_id_for_address_batch address output_id batch =
     (case address of Address_Ed25519 address \<Rightarrow>
        b_ed25519_address_to_output_id_update (TableBatch_delete (address, output_id)) batch)"

definition insert_created_output_batch ::
  "OutputId \<Rightarrow> CreatedOutput \<Rightarrow> StorageBatch \<Rightarrow> LedgerError + StorageBatch" where
  "insert_created_output_batch output_id output batch =
     (let batch = b_output_id_to_created_output_update (TableBatch_insert output_id output) batch;
          batch = b_output_id_unspent_update (TableBatch_insert (Unspent output_id) ()) batch
      in case CreatedOutput_inner output of
           Output_SignatureLockedSingle out \<Rightarrow>
             Inr (insert_output_id_for_address_batch (SignatureLockedSingleOutput_address out) output_id batch)
         | Output_SignatureLockedDustAllowance out \<Rightarrow>
             Inr (insert_output_id_for_address_batch (SignatureLockedDustAllowanceOutput_address out) output_id batch)
         | Output_Treasury _ \<Rightarrow> Inl (UnsupportedOutputKind (Output_kind (CreatedOutput_inner output))))"

definition delete_created_output_batch ::
  "OutputId \<Rightarrow> CreatedOutput \<Rightarrow> StorageBatch \<Rightarrow> LedgerError + StorageBatch" where
  "delete_created_output_batch output_id output batch =
     (let batch = b_output_id_to_created_output_update (TableBatch_delete output_id) batch;
          batch = b_output_id_unspent_update (TableBatch_delete (Unspent output_id)) batch
      in case CreatedOutput_inner output of
           Output_SignatureLockedSingle out \<Rightarrow>
             Inr (delete_output_id_for_address_batch (SignatureLockedSingleOutput_address out) output_id batch)
         | Output_SignatureLockedDustAllowance out \<Rightarrow>
             Inr (delete_output_id_for_address_batch (SignatureLockedDustAllowanceOutput_address out) output_id batch)
         | Output_Treasury _ \<Rightarrow> Inl (UnsupportedOutputKind (Output_kind (CreatedOutput_inner output))))"

definition create_output :: "OutputId \<Rightarrow> CreatedOutput \<Rightarrow> InnerStorage \<Rightarrow> LedgerError + InnerStorage" where
  "create_output output_id output storage =
     bindR (insert_created_output_batch output_id output batch_begin) (\<lambda>batch.
     Inr (batch_commit batch storage))"

definition insert_consumed_output_batch :: "OutputId \<Rightarrow> ConsumedOutput \<Rightarrow> StorageBatch \<Rightarrow> StorageBatch" where
  "insert_consumed_output_batch output_id output batch =
     b_output_id_unspent_update (TableBatch_delete (Unspent output_id))
       (b_output_id_to_consumed_output_update (TableBatch_insert output_id output) batch)"

definition delete_consumed_output_batch :: "OutputId \<Rightarrow> StorageBatch \<Rightarrow> StorageBatch" where
  "delete_consumed_output_batch output_id batch =
     b_output_id_unspent_update (TableBatch_insert (Unspent output_id) ())
       (b_output_id_to_consumed_output_update (TableBatch_delete output_id) batch)"

section \<open>Balances\<close>

definition fetch_balance :: "InnerStorage \<Rightarrow> Address \<Rightarrow> Balance option" where
  "fetch_balance storage address = Table_fetch (address_to_balance storage) address"

definition fetch_balance_or_default :: "InnerStorage \<Rightarrow> Address \<Rightarrow> Balance" where
  "fetch_balance_or_default storage address =
     (case fetch_balance storage address of Some balance \<Rightarrow> balance | None \<Rightarrow> Balance_default)"

fun apply_balance_diffs_batch ::
  "InnerStorage \<Rightarrow> (Address \<times> BalanceDiff) list \<Rightarrow> StorageBatch \<Rightarrow> LedgerError + StorageBatch" where
  "apply_balance_diffs_batch storage [] batch = Inr batch"
| "apply_balance_diffs_batch storage ((address, diff) # balance_diffs) batch =
     bindR (map_errR Ledger_Types (Balance_apply_diff diff (fetch_balance_or_default storage address)))
       (\<lambda>balance.
     apply_balance_diffs_batch storage balance_diffs
       (if Balance_amount balance \<noteq> 0
        then b_address_to_balance_update (TableBatch_insert address balance) batch
        else b_address_to_balance_update (TableBatch_delete address) batch))"

definition apply_balance_diffs ::
  "hash_iter \<Rightarrow> BalanceDiffs \<Rightarrow> InnerStorage \<Rightarrow> LedgerError + InnerStorage" where
  "apply_balance_diffs h balance_diffs storage =
     bindR (apply_balance_diffs_batch storage (entries (iter_diffs h) balance_diffs) batch_begin) (\<lambda>batch.
     Inr (batch_commit batch storage))"

section \<open>Indices, receipts and the treasury\<close>

definition insert_ledger_index :: "LedgerIndex \<Rightarrow> InnerStorage \<Rightarrow> InnerStorage" where
  "insert_ledger_index index storage = ledger_index_update (SingletonTable_insert () index) storage"

definition insert_ledger_index_batch :: "LedgerIndex \<Rightarrow> StorageBatch \<Rightarrow> StorageBatch" where
  "insert_ledger_index_batch index batch = b_ledger_index_update (TableBatch_insert () index) batch"

definition fetch_ledger_index :: "InnerStorage \<Rightarrow> LedgerIndex option" where
  "fetch_ledger_index storage = SingletonTable_fetch (ledger_index storage) ()"

definition insert_receipt_batch :: "LedgerReceipt \<Rightarrow> StorageBatch \<Rightarrow> StorageBatch" where
  "insert_receipt_batch receipt batch =
     b_milestone_index_to_receipt_update
       (TableBatch_insert (ReceiptPayload_migrated_at (LedgerReceipt_inner receipt), receipt) ()) batch"

definition delete_receipt_batch :: "LedgerReceipt \<Rightarrow> StorageBatch \<Rightarrow> StorageBatch" where
  "delete_receipt_batch receipt batch =
     b_milestone_index_to_receipt_update
       (TableBatch_delete (ReceiptPayload_migrated_at (LedgerReceipt_inner receipt), receipt)) batch"

definition insert_snapshot_info :: "SnapshotInfo \<Rightarrow> InnerStorage \<Rightarrow> InnerStorage" where
  "insert_snapshot_info info storage = snapshot_info_update (SingletonTable_insert () info) storage"

definition fetch_snapshot_info :: "InnerStorage \<Rightarrow> SnapshotInfo option" where
  "fetch_snapshot_info storage = SingletonTable_fetch (snapshot_info storage) ()"

definition fetch_output :: "InnerStorage \<Rightarrow> OutputId \<Rightarrow> CreatedOutput option" where
  "fetch_output storage output_id = Table_fetch (output_id_to_created_output storage) output_id"

definition fetch_outputs_for_ed25519_address :: "InnerStorage \<Rightarrow> Ed25519Address \<Rightarrow> OutputId list option" where
  "fetch_outputs_for_ed25519_address storage address =
     VecBinTable_fetch (ed25519_address_to_output_id storage) address"

definition is_output_unspent :: "InnerStorage \<Rightarrow> OutputId \<Rightarrow> bool" where
  "is_output_unspent storage output_id = Table_exist (output_id_unspent storage) (Unspent output_id)"

definition insert_treasury_output :: "LedgerTreasuryOutput \<Rightarrow> InnerStorage \<Rightarrow> InnerStorage" where
  "insert_treasury_output treasury_output storage =
     spent_to_treasury_output_update (VecTable_insert (False, treasury_output) ()) storage"

definition insert_treasury_output_batch :: "LedgerTreasuryOutput \<Rightarrow> StorageBatch \<Rightarrow> StorageBatch" where
  "insert_treasury_output_batch treasury_output batch =
     b_spent_to_treasury_output_update (TableBatch_insert (False, treasury_output) ()) batch"

definition delete_treasury_output_batch :: "LedgerTreasuryOutput \<Rightarrow> StorageBatch \<Rightarrow> StorageBatch" where
  "delete_treasury_output_batch treasury_output batch =
     b_spent_to_treasury_output_update (TableBatch_delete (False, treasury_output)) batch"

definition spend_treasury_output_batch :: "LedgerTreasuryOutput \<Rightarrow> StorageBatch \<Rightarrow> StorageBatch" where
  "spend_treasury_output_batch treasury_output batch =
     b_spent_to_treasury_output_update (TableBatch_delete (False, treasury_output))
       (b_spent_to_treasury_output_update (TableBatch_insert (True, treasury_output) ()) batch)"

definition unspend_treasury_output_batch :: "LedgerTreasuryOutput \<Rightarrow> StorageBatch \<Rightarrow> StorageBatch" where
  "unspend_treasury_output_batch treasury_output batch =
     b_spent_to_treasury_output_update (TableBatch_delete (True, treasury_output))
       (b_spent_to_treasury_output_update (TableBatch_insert (False, treasury_output) ()) batch)"

definition fetch_unspent_treasury_output :: "InnerStorage \<Rightarrow> LedgerError + LedgerTreasuryOutput" where
  "fetch_unspent_treasury_output storage =
     (case VecTable_fetch (spent_to_treasury_output storage) False of
        Some outputs \<Rightarrow>
          (case outputs of
             [] \<Rightarrow> Inl (Ledger_Panic ''No unspent treasury output found'')
           | [output] \<Rightarrow> Inr output
           | _ \<Rightarrow> Inl (Ledger_Panic ''More than one unspent treasury output found''))
      | None \<Rightarrow> Inl (Ledger_Panic ''No unspent treasury output found''))"

section \<open>Milestones\<close>

fun insert_created_loop ::
  "(OutputId \<times> CreatedOutput) list \<Rightarrow> StorageBatch \<Rightarrow> LedgerError + OutputId list \<times> StorageBatch" where
  "insert_created_loop [] batch = Inr ([], batch)"
| "insert_created_loop ((output_id, output) # created_outputs) batch =
     bindR (insert_created_output_batch output_id output batch) (\<lambda>batch.
     bindR (insert_created_loop created_outputs batch) (\<lambda>(ids, batch).
     Inr (output_id # ids, batch)))"

fun insert_consumed_loop ::
  "(OutputId \<times> CreatedOutput \<times> ConsumedOutput) list \<Rightarrow> StorageBatch \<Rightarrow> OutputId list \<times> StorageBatch" where
  "insert_consumed_loop [] batch = ([], batch)"
| "insert_consumed_loop ((output_id, _, consumed_output) # consumed_outputs) batch =
     (let (ids, batch) = insert_consumed_loop consumed_outputs (insert_consumed_output_batch output_id consumed_output batch)
      in (output_id # ids, batch))"

definition apply_migration_batch :: "Migration option \<Rightarrow> StorageBatch \<Rightarrow> TreasuryDiff option \<times> StorageBatch" where
  "apply_migration_batch migration batch =
     (case migration of
        Some migration \<Rightarrow>
          (Some (TreasuryDiff_new
             (LedgerTreasuryOutput_milestone_id (Migration_created_treasury migration))
             (LedgerTreasuryOutput_milestone_id (Migration_consumed_treasury migration))),
           spend_treasury_output_batch (Migration_consumed_treasury migration)
             (insert_treasury_output_batch (Migration_created_treasury migration)
               (insert_receipt_batch (Migration_receipt migration) batch)))
      | None \<Rightarrow> (None, batch))"

definition apply_milestone ::
  "hash_iter \<Rightarrow> MilestoneIndex \<Rightarrow> (OutputId \<rightharpoonup> CreatedOutput) \<Rightarrow>
   (OutputId \<rightharpoonup> CreatedOutput \<times> ConsumedOutput) \<Rightarrow> BalanceDiffs \<Rightarrow> Migration option \<Rightarrow>
   InnerStorage \<Rightarrow> LedgerError + InnerStorage" where
  "apply_milestone h index created_outputs consumed_outputs balance_diffs migration storage =
     (let batch = insert_ledger_index_batch (LedgerIndex index) batch_begin in
      bindR (insert_created_loop (entries (iter_created h) created_outputs) batch)
        (\<lambda>(created_output_ids, batch).
      let (consumed_output_ids, batch) =
            insert_consumed_loop (entries (iter_consumed h) consumed_outputs) batch in
      bindR (apply_balance_diffs_batch storage (entries (iter_diffs h) balance_diffs) batch) (\<lambda>batch.
      let (treasury_diff, batch) = apply_migration_batch migration batch;
          batch = b_milestone_index_to_output_diff_update (TableBatch_insert index
            (OutputDiff_new created_output_ids consumed_output_ids treasury_diff)) batch
      in Inr (batch_commit batch storage))))"

fun delete_created_loop ::
  "(OutputId \<times> CreatedOutput) list \<Rightarrow> StorageBatch \<Rightarrow> LedgerError + StorageBatch" where
  "delete_created_loop [] batch = Inr batch"
| "delete_created_loop ((output_id, created_output) # created_outputs) batch =
     bindR (delete_created_output_batch output_id created_output batch) (delete_created_loop created_outputs)"

fun restore_consumed_loop ::
  "(OutputId \<times> CreatedOutput \<times> ConsumedOutput) list \<Rightarrow> StorageBatch \<Rightarrow> LedgerError + StorageBatch" where
  "restore_consumed_loop [] batch = Inr batch"
| "restore_consumed_loop ((output_id, created_output, _) # consumed_outputs) batch =
     bindR (insert_created_output_batch output_id created_output batch) (\<lambda>batch.
     restore_consumed_loop consumed_outputs (delete_consumed_output_batch output_id batch))"

definition rollback_migration_batch :: "Migration option \<Rightarrow> StorageBatch \<Rightarrow> StorageBatch" where
  "rollback_migration_batch migration batch =
     (case migration of
        Some migration \<Rightarrow>
          unspend_treasury_output_batch (Migration_consumed_treasury migration)
            (delete_treasury_output_batch (Migration_created_treasury migration)
              (delete_receipt_batch (Migration_receipt migration) batch))
      | None \<Rightarrow> batch)"

definition rollback_milestone ::
  "hash_iter \<Rightarrow> MilestoneIndex \<Rightarrow> (OutputId \<rightharpoonup> CreatedOutput) \<Rightarrow>
   (OutputId \<rightharpoonup> CreatedOutput \<times> ConsumedOutput) \<Rightarrow> BalanceDiffs \<Rightarrow> Migration option \<Rightarrow>
   InnerStorage \<Rightarrow> LedgerError + InnerStorage" where
  "rollback_milestone h index created_outputs consumed_outputs balance_diffs migration storage =
     (let batch = insert_ledger_index_batch
            (LedgerIndex (MilestoneIndex_sub index (MilestoneIndex 1))) batch_begin in
      bindR (delete_created_loop (entries (iter_created h) created_outputs) batch) (\<lambda>batch.
      bindR (restore_consumed_loop (entries (iter_consumed h) consumed_outputs) batch) (\<lambda>batch.
      bindR (apply_balance_diffs_batch storage
        (entries (iter_diffs h) (BalanceDiffs_negated balance_diffs)) batch) (\<lambda>batch.
      let batch = rollback_migration_batch migration batch;
          batch = b_milestone_index_to_output_diff_update (TableBatch_delete index) batch
      in Inr (batch_commit batch storage)))))"

section \<open>What the batches contain\<close>

text \<open>The address that owns an output; treasury outputs have none.\<close>

fun output_address :: "Output \<Rightarrow> Address option" where
  "output_address (Output_SignatureLockedSingle out) = Some (SignatureLockedSingleOutput_address out)"
| "output_address (Output_SignatureLockedDustAllowance out) = Some (SignatureLockedDustAllowanceOutput_address out)"
| "output_address (Output_Treasury _) = None"

definition owner :: "CreatedOutput \<Rightarrow> Ed25519Address" where
  "owner out = (case the (output_address (CreatedOutput_inner out)) of Address_Ed25519 a \<Rightarrow> a)"

definition owned :: "CreatedOutput \<Rightarrow> bool" where
  "owned out \<longleftrightarrow> output_address (CreatedOutput_inner out) \<noteq> None"

definition created_batch :: "(OutputId \<times> CreatedOutput) list \<Rightarrow> StorageBatch \<Rightarrow> StorageBatch" where
  "created_batch es b = b\<lparr>
     b_output_id_to_created_output := b_output_id_to_created_output b @ map (\<lambda>(i, x). BatchOp_Insert i x) es,
     b_output_id_unspent := b_output_id_unspent b @ map (\<lambda>(i, x). BatchOp_Insert (Unspent i) ()) es,
     b_ed25519_address_to_output_id :=
       b_ed25519_address_to_output_id b @ map (\<lambda>(i, x). BatchOp_Insert (owner x, i) ()) es\<rparr>"

definition uncreated_batch :: "(OutputId \<times> CreatedOutput) list \<Rightarrow> StorageBatch \<Rightarrow> StorageBatch" where
  "uncreated_batch es b = b\<lparr>
     b_output_id_to_created_output := b_output_id_to_created_output b @ map (\<lambda>(i, x). BatchOp_Delete i) es,
     b_output_id_unspent := b_output_id_unspent b @ map (\<lambda>(i, x). BatchOp_Delete (Unspent i)) es,
     b_ed25519_address_to_output_id :=
       b_ed25519_address_to_output_id b @ map (\<lambda>(i, x). BatchOp_Delete (owner x, i)) es\<rparr>"

definition consumed_batch :: "(OutputId \<times> ConsumedOutput) list \<Rightarrow> StorageBatch \<Rightarrow> StorageBatch" where
  "consumed_batch es b = b\<lparr>
     b_output_id_to_consumed_output := b_output_id_to_consumed_output b @ map (\<lambda>(i, x). BatchOp_Insert i x) es,
     b_output_id_unspent := b_output_id_unspent b @ map (\<lambda>(i, x). BatchOp_Delete (Unspent i)) es\<rparr>"

definition created_part :: "('i \<times> 'a \<times> 'b) list \<Rightarrow> ('i \<times> 'a) list" where
  "created_part es = map (\<lambda>(i, x, y). (i, x)) es"

definition consumed_part :: "('i \<times> 'a \<times> 'b) list \<Rightarrow> ('i \<times> 'b) list" where
  "consumed_part es = map (\<lambda>(i, x, y). (i, y)) es"

lemma parts_map_of:
  "map_of (created_part es) = map_option fst \<circ> map_of es" "map fst (created_part es) = map fst es"
  "map_of (consumed_part es) = map_option snd \<circ> map_of es" "map fst (consumed_part es) = map fst es"
  by (induction es) (auto simp: created_part_def consumed_part_def)

lemma parts_set:
  "(i, x) \<in> set (created_part es) \<longleftrightarrow> (\<exists>y. (i, x, y) \<in> set es)"
  "(i, y) \<in> set (consumed_part es) \<longleftrightarrow> (\<exists>x. (i, x, y) \<in> set es)"
  by (force simp: created_part_def consumed_part_def)+

lemma address_batch:
  "insert_output_id_for_address_batch a i b =
     b_ed25519_address_to_output_id_update (TableBatch_insert (case a of Address_Ed25519 x \<Rightarrow> x, i) ()) b"
  "delete_output_id_for_address_batch a i b =
     b_ed25519_address_to_output_id_update (TableBatch_delete (case a of Address_Ed25519 x \<Rightarrow> x, i)) b"
  by (cases a, simp add: insert_output_id_for_address_batch_def delete_output_id_for_address_batch_def)+

lemma insert_created_output_batch_Inr_iff:
  "insert_created_output_batch i x b = Inr b' \<longleftrightarrow> owned x \<and> b' = created_batch [(i, x)] b"
  by (cases "CreatedOutput_inner x")
    (auto simp: insert_created_output_batch_def Let_def owned_def owner_def created_batch_def
      address_batch TableBatch_insert_def)

lemma delete_created_output_batch_Inr_iff:
  "delete_created_output_batch i x b = Inr b' \<longleftrightarrow> owned x \<and> b' = uncreated_batch [(i, x)] b"
  by (cases "CreatedOutput_inner x")
    (auto simp: delete_created_output_batch_def Let_def owned_def owner_def uncreated_batch_def
      address_batch TableBatch_delete_def)

lemma batch_append:
  "created_batch es (created_batch fs b) = created_batch (fs @ es) b"
  "uncreated_batch es (uncreated_batch fs b) = uncreated_batch (fs @ es) b"
  "consumed_batch cs (consumed_batch ds b) = consumed_batch (ds @ cs) b"
  "created_batch [] b = b" "uncreated_batch [] b = b" "consumed_batch [] b = b"
  by (simp_all add: created_batch_def uncreated_batch_def consumed_batch_def)

lemma insert_created_loop_Inr_iff:
  "insert_created_loop es b = Inr (ids, b') \<longleftrightarrow>
     (\<forall>x \<in> snd ` set es. owned x) \<and> ids = map fst es \<and> b' = created_batch es b"
proof (induction es arbitrary: b ids)
  case (Cons e es)
  obtain i x where e: "e = (i, x)" by (cases e)
  show ?case unfolding e
    by (auto simp: bindR_Inr_iff insert_created_output_batch_Inr_iff Cons.IH batch_append)
qed (auto simp: batch_append)

lemma delete_created_loop_Inr_iff:
  "delete_created_loop es b = Inr b' \<longleftrightarrow> (\<forall>x \<in> snd ` set es. owned x) \<and> b' = uncreated_batch es b"
proof (induction es arbitrary: b)
  case (Cons e es)
  obtain i x where e: "e = (i, x)" by (cases e)
  show ?case unfolding e
    by (auto simp: bindR_Inr_iff delete_created_output_batch_Inr_iff Cons.IH batch_append)
qed (auto simp: batch_append)

lemma insert_consumed_loop_eq:
  "insert_consumed_loop es b = (map fst es, consumed_batch (consumed_part es) b)"
proof (induction es arbitrary: b)
  case (Cons e es)
  obtain i x y where e: "e = (i, x, y)" by (cases e)
  have "insert_consumed_output_batch i y b = consumed_batch [(i, y)] b"
    by (simp add: insert_consumed_output_batch_def consumed_batch_def TableBatch_insert_def TableBatch_delete_def)
  with Cons.IH show ?case unfolding e by (simp add: batch_append consumed_part_def)
qed (simp add: batch_append consumed_part_def)

text \<open>The batch that makes consumed outputs unspent again.\<close>

definition restored_batch :: "(OutputId \<times> CreatedOutput) list \<Rightarrow> StorageBatch \<Rightarrow> StorageBatch" where
  "restored_batch es b = b\<lparr>
     b_output_id_to_created_output := b_output_id_to_created_output b @ map (\<lambda>(i, x). BatchOp_Insert i x) es,
     b_output_id_to_consumed_output := b_output_id_to_consumed_output b @ map (\<lambda>(i, x). BatchOp_Delete i) es,
     b_output_id_unspent := b_output_id_unspent b @
       concat (map (\<lambda>(i, x). [BatchOp_Insert (Unspent i) (), BatchOp_Insert (Unspent i) ()]) es),
     b_ed25519_address_to_output_id :=
       b_ed25519_address_to_output_id b @ map (\<lambda>(i, x). BatchOp_Insert (owner x, i) ()) es\<rparr>"

lemma restore_consumed_loop_Inr_iff:
  "restore_consumed_loop es b = Inr b' \<longleftrightarrow>
     (\<forall>(i, x, y) \<in> set es. owned x) \<and> b' = restored_batch (created_part es) b"
proof (induction es arbitrary: b)
  case (Cons e es)
  obtain i x y where e: "e = (i, x, y)" by (cases e)
  have step: "delete_consumed_output_batch i (created_batch [(i, x)] b) = restored_batch [(i, x)] b"
    by (simp add: delete_consumed_output_batch_def created_batch_def restored_batch_def
        TableBatch_insert_def TableBatch_delete_def)
  have "restored_batch es' (restored_batch [(i, x)] b) = restored_batch ((i, x) # es') b" for es'
    by (simp add: restored_batch_def)
  then show ?case unfolding e
    by (auto simp: bindR_Inr_iff insert_created_output_batch_Inr_iff Cons.IH step created_part_def)
qed (auto simp: restored_batch_def created_part_def)

definition balance_after :: "InnerStorage \<Rightarrow> Address \<Rightarrow> BalanceDiff \<Rightarrow> TypesError + Balance" where
  "balance_after s a diff = Balance_apply_diff diff (fetch_balance_or_default s a)"

definition stored_balance :: "Balance \<Rightarrow> Balance option" where
  "stored_balance balance = (if Balance_amount balance \<noteq> 0 then Some balance else None)"

definition balance_op :: "InnerStorage \<Rightarrow> Address \<times> BalanceDiff \<Rightarrow> (Address, Balance) BatchOp" where
  "balance_op s = (\<lambda>(a, diff). case stored_balance (projr (balance_after s a diff)) of
     Some balance \<Rightarrow> BatchOp_Insert a balance | None \<Rightarrow> BatchOp_Delete a)"

lemma apply_balance_diffs_batch_Inr_iff:
  "apply_balance_diffs_batch s ds b = Inr b' \<longleftrightarrow>
     (\<forall>(a, diff) \<in> set ds. \<not> isl (balance_after s a diff)) \<and>
     b' = b\<lparr>b_address_to_balance := b_address_to_balance b @ map (balance_op s) ds\<rparr>"
proof (induction ds arbitrary: b)
  case (Cons e ds)
  obtain a diff where e: "e = (a, diff)" by (cases e)
  show ?case
  proof (cases "balance_after s a diff")
    case (Inl err)
    then show ?thesis by (simp add: e balance_after_def bindR_def map_errR_def)
  next
    case (Inr balance)
    have "(if Balance_amount balance \<noteq> 0
        then b_address_to_balance_update (TableBatch_insert a balance) b
        else b_address_to_balance_update (TableBatch_delete a) b) =
      b\<lparr>b_address_to_balance := b_address_to_balance b @ [balance_op s e]\<rparr>"
      using Inr by (simp add: e balance_op_def stored_balance_def TableBatch_insert_def TableBatch_delete_def)
    then show ?thesis
      using Inr Cons.IH by (auto simp: e balance_after_def bindR_def map_errR_def)
  qed
qed auto

section \<open>Applying and rolling back a milestone\<close>

text \<open>The part of the storage that the ledger works on, read through the tables.\<close>

definition unspent_ids :: "InnerStorage \<Rightarrow> OutputId set" where
  "unspent_ids s = {i. is_output_unspent s i}"

definition treasury_of :: "InnerStorage \<Rightarrow> bool \<times> LedgerTreasuryOutput \<Rightarrow> unit option" where
  "treasury_of s = VecTable_lookup (spent_to_treasury_output s)"

definition receipts_of :: "InnerStorage \<Rightarrow> MilestoneIndex \<times> LedgerReceipt \<Rightarrow> unit option" where
  "receipts_of s = VecTable_lookup (milestone_index_to_receipt s)"

lemma batch_map_balance_ops:
  assumes "distinct (map fst ds)"
  shows "batch_map (map (balance_op s) ds) m a =
    (case map_of ds a of
       Some diff \<Rightarrow> stored_balance (projr (balance_after s a diff))
     | None \<Rightarrow> m a)"
  using assms
proof (induction ds arbitrary: m)
  case (Cons e ds)
  obtain k diff where e: "e = (k, diff)" by (cases e)
  let ?b = "stored_balance (projr (balance_after s k diff))"
  have step: "batch_map (balance_op s (k, diff) # ops) m = batch_map ops (m(k := ?b))" for ops m
    by (simp add: balance_op_def split: option.splits)
  have "map_of ds k = None" using Cons.prems by (simp add: e map_of_eq_None_iff)
  with Cons show ?case by (simp add: e step del: fun_upd_apply) (simp split: option.splits)
qed simp

definition applied_batch ::
  "hash_iter \<Rightarrow> MilestoneIndex \<Rightarrow> (OutputId \<rightharpoonup> CreatedOutput) \<Rightarrow>
   (OutputId \<rightharpoonup> CreatedOutput \<times> ConsumedOutput) \<Rightarrow> BalanceDiffs \<Rightarrow> Migration option \<Rightarrow>
   InnerStorage \<Rightarrow> StorageBatch" where
  "applied_batch h index created consumed deltas migration s =
     (let (treasury_diff, batch) = apply_migration_batch migration
            ((consumed_batch (consumed_part (entries (iter_consumed h) consumed))
              (created_batch (entries (iter_created h) created)
                (insert_ledger_index_batch (LedgerIndex index) batch_begin)))
            \<lparr>b_address_to_balance := map (balance_op s) (entries (iter_diffs h) deltas)\<rparr>)
      in b_milestone_index_to_output_diff_update (TableBatch_insert index
           (OutputDiff_new (map fst (entries (iter_created h) created))
             (map fst (entries (iter_consumed h) consumed)) treasury_diff)) batch)"

lemma apply_milestone_Inr_iff:
  "apply_milestone h index created consumed deltas migration s = Inr s' \<longleftrightarrow>
     (\<forall>x \<in> snd ` set (entries (iter_created h) created). owned x) \<and>
     (\<forall>(a, diff) \<in> set (entries (iter_diffs h) deltas). \<not> isl (balance_after s a diff)) \<and>
     s' = batch_commit (applied_batch h index created consumed deltas migration s) s"
  by (auto simp: apply_milestone_def Let_def bindR_Inr_iff insert_created_loop_Inr_iff
      insert_consumed_loop_eq apply_balance_diffs_batch_Inr_iff applied_batch_def
      case_prod_unfold consumed_batch_def created_batch_def insert_ledger_index_batch_def batch_begin_def)

definition rolled_back_batch ::
  "hash_iter \<Rightarrow> MilestoneIndex \<Rightarrow> (OutputId \<rightharpoonup> CreatedOutput) \<Rightarrow>
   (OutputId \<rightharpoonup> CreatedOutput \<times> ConsumedOutput) \<Rightarrow> BalanceDiffs \<Rightarrow> Migration option \<Rightarrow>
   InnerStorage \<Rightarrow> StorageBatch" where
  "rolled_back_batch h index created consumed deltas migration s =
     b_milestone_index_to_output_diff_update (TableBatch_delete index)
       (rollback_migration_batch migration
         ((restored_batch (created_part (entries (iter_consumed h) consumed))
           (uncreated_batch (entries (iter_created h) created)
             (insert_ledger_index_batch (LedgerIndex (MilestoneIndex_sub index (MilestoneIndex 1))) batch_begin)))
         \<lparr>b_address_to_balance := map (balance_op s) (entries (iter_diffs h) (BalanceDiffs_negated deltas))\<rparr>))"

lemma rollback_milestone_Inr_iff:
  "rollback_milestone h index created consumed deltas migration s = Inr s' \<longleftrightarrow>
     (\<forall>x \<in> snd ` set (entries (iter_created h) created). owned x) \<and>
     (\<forall>(i, x, y) \<in> set (entries (iter_consumed h) consumed). owned x) \<and>
     (\<forall>(a, diff) \<in> set (entries (iter_diffs h) (BalanceDiffs_negated deltas)). \<not> isl (balance_after s a diff)) \<and>
     s' = batch_commit (rolled_back_batch h index created consumed deltas migration s) s"
  by (auto simp: rollback_milestone_def Let_def bindR_Inr_iff delete_created_loop_Inr_iff
      restore_consumed_loop_Inr_iff apply_balance_diffs_batch_Inr_iff rolled_back_batch_def
      restored_batch_def uncreated_batch_def insert_ledger_index_batch_def batch_begin_def)

end
