(* ===== verification/Ledger_Milestones.thy ===== *)
theory Ledger_Milestones
  imports Ledger_Storage
begin

text \<open>
  What applying a milestone and rolling it back do to every table of the ledger, and that the
  second undoes the first for milestones that consume outputs of earlier milestones only.
\<close>

section \<open>Effects on the tables\<close>

lemma Table_batch_commit_eq [simp]: "Table_batch_commit ops t = batch_map ops t"
  using Table.lookup_commit [where t = t and ops = ops] by (simp add: Table_fetch_def [abs_def])

lemma SingletonTable_batch_commit_insert [simp]:
  "SingletonTable_batch_commit (TableBatch_insert () v b) t = Some v"
  by (simp add: TableBatch_insert_def SingletonTable.commit_append)

lemmas batch_views = batch_commit_def applied_batch_def rolled_back_batch_def apply_migration_batch_def
  rollback_migration_batch_def insert_receipt_batch_def delete_receipt_batch_def
  insert_treasury_output_batch_def delete_treasury_output_batch_def spend_treasury_output_batch_def
  unspend_treasury_output_batch_def insert_ledger_index_batch_def batch_begin_def created_batch_def
  uncreated_batch_def consumed_batch_def restored_batch_def

lemma unspent_image:
  "Unspent i \<in> (\<lambda>e. Unspent (fst e)) ` set es \<longleftrightarrow> i \<in> fst ` set es"
  "fst ` set (created_part cs) = fst ` set cs" "fst ` set (consumed_part cs) = fst ` set cs"
  by (force simp: created_part_def consumed_part_def)+

lemma hash_iter_specD:
  assumes "hash_iter_spec h"
  shows "keys_of (iter_diffs h)" "keys_of (iter_created h)" "keys_of (iter_consumed h)"
    "keys_of (iter_unspent h)" "keys_of (iter_balances h)"
  using assms by (simp_all add: hash_iter_spec_def)

lemma entries_eq:
  assumes "keys_of iter" and "finite (dom m)"
  shows "set (entries iter m) = {(k, v). m k = Some v}"
proof -
  have "(k, v) \<in> set (entries iter m) \<longleftrightarrow> m k = Some v" for k v
    using map_of_eq_Some_iff [OF entries_spec(2) [OF assms], of k v] entries_spec(1) [OF assms] by simp
  then show ?thesis by auto
qed

text \<open>The finite maps a milestone is described by.\<close>

definition finite_milestone ::
  "(OutputId \<rightharpoonup> CreatedOutput) \<Rightarrow> (OutputId \<rightharpoonup> CreatedOutput \<times> ConsumedOutput) \<Rightarrow> BalanceDiffs \<Rightarrow> bool" where
  "finite_milestone created consumed deltas \<longleftrightarrow>
     finite (dom created) \<and> finite (dom consumed) \<and> finite (dom deltas)"

lemma apply_milestone_effect:
  assumes h: "hash_iter_spec h" and fin: "finite_milestone created consumed deltas"
    and s': "apply_milestone h index created consumed deltas migration s = Inr s'"
  shows "ledger_index s' = Some (LedgerIndex index)"
    and "output_id_to_created_output s' = output_id_to_created_output s ++ created"
    and "output_id_to_consumed_output s' = output_id_to_consumed_output s ++ (map_option snd \<circ> consumed)"
    and "unspent_ids s' = (unspent_ids s \<union> dom created) - dom consumed"
    and "address_to_balance s' a = (case deltas a of
           Some diff \<Rightarrow> stored_balance (projr (balance_after s a diff)) | None \<Rightarrow> address_to_balance s a)"
    and "deltas a = Some diff \<Longrightarrow> \<not> isl (balance_after s a diff)"
    and "created i = Some x \<Longrightarrow> owned x"
proof -
  note es = entries_spec [OF hash_iter_specD(2) [OF h], of created]
    entries_spec [OF hash_iter_specD(1) [OF h], of deltas]
    entries_spec [OF hash_iter_specD(3) [OF h], of consumed]
    entries_eq [OF hash_iter_specD(2) [OF h], of created]
    entries_eq [OF hash_iter_specD(1) [OF h], of deltas]
  have f: "finite (dom created)" "finite (dom consumed)" "finite (dom deltas)"
    using fin by (simp_all add: finite_milestone_def)
  note es = es(1-4) [OF f(1)] es(5-8) [OF f(3)] es(9-12) [OF f(2)] es(13) [OF f(1)] es(14) [OF f(3)]
  note a = s' [unfolded apply_milestone_Inr_iff]
  show "ledger_index s' = Some (LedgerIndex index)"
    using a by (cases migration) (simp_all add: batch_views)
  show "output_id_to_created_output s' = output_id_to_created_output s ++ created"
    using a es by (cases migration) (simp_all add: batch_views batch_map_inserts)
  show "output_id_to_consumed_output s' = output_id_to_consumed_output s ++ (map_option snd \<circ> consumed)"
    using a es by (cases migration) (simp_all add: batch_views batch_map_inserts parts_map_of)
  show "unspent_ids s' = (unspent_ids s \<union> dom created) - dom consumed"
    using a es by (cases migration)
      (auto simp: batch_views unspent_ids_def is_output_unspent_def Table_exist_def case_prod_unfold
        batch_map_insert_keys batch_map_delete_keys unspent_image)
  show "address_to_balance s' a = (case deltas a of
           Some diff \<Rightarrow> stored_balance (projr (balance_after s a diff)) | None \<Rightarrow> address_to_balance s a)"
    using a es by (cases migration) (simp_all add: batch_views batch_map_balance_ops)
  show "deltas a = Some diff \<Longrightarrow> \<not> isl (balance_after s a diff)" using a es by auto
  show "created i = Some x \<Longrightarrow> owned x" using a es by force
qed

lemma batch_map_restored:
  "batch_map (concat (map (\<lambda>(i, x). [BatchOp_Insert (Unspent i) (), BatchOp_Insert (Unspent i) ()]) es)) m k =
     (if k \<in> (\<lambda>e. Unspent (fst e)) ` set es then Some () else m k)"
  by (induction es arbitrary: m) auto

lemma batch_map_delete_entries:
  "batch_map (map (\<lambda>(i, x). BatchOp_Delete i) es) m = m |` (- fst ` set es)"
  by (auto simp: fun_eq_iff case_prod_unfold batch_map_delete_keys restrict_map_def)

lemma batch_map_delete_unspent:
  "batch_map (map (\<lambda>(i, x). BatchOp_Delete (Unspent i)) es) m (Unspent i) =
     (if i \<in> fst ` set es then None else m (Unspent i))"
  by (simp add: case_prod_unfold batch_map_delete_keys unspent_image)

lemma rollback_milestone_effect:
  assumes h: "hash_iter_spec h" and fin: "finite_milestone created consumed deltas"
    and s': "rollback_milestone h index created consumed deltas migration s = Inr s'"
  shows "ledger_index s' = Some (LedgerIndex (MilestoneIndex_sub index (MilestoneIndex 1)))"
    and "output_id_to_created_output s' =
      (output_id_to_created_output s |` (- dom created)) ++ (map_option fst \<circ> consumed)"
    and "output_id_to_consumed_output s' = output_id_to_consumed_output s |` (- dom consumed)"
    and "unspent_ids s' = (unspent_ids s - dom created) \<union> dom consumed"
    and "address_to_balance s' a = (case deltas a of
           Some diff \<Rightarrow> stored_balance (projr (balance_after s a (BalanceDiff_negate diff)))
         | None \<Rightarrow> address_to_balance s a)"
proof -
  have dneg: "dom (BalanceDiffs_negated deltas) = dom deltas"
    by (auto simp: BalanceDiffs_negated_def)
  note es = entries_spec [OF hash_iter_specD(2) [OF h], of created]
    entries_spec [OF hash_iter_specD(1) [OF h], of "BalanceDiffs_negated deltas"]
    entries_spec [OF hash_iter_specD(3) [OF h], of consumed]
  have f: "finite (dom created)" "finite (dom consumed)" "finite (dom (BalanceDiffs_negated deltas))"
    using fin by (simp_all add: finite_milestone_def dneg)
  note es = es(1-4) [OF f(1)] es(5-8) [OF f(3)] es(9-12) [OF f(2)]
  note a = s' [unfolded rollback_milestone_Inr_iff]
  show "ledger_index s' = Some (LedgerIndex (MilestoneIndex_sub index (MilestoneIndex 1)))"
    using a by (cases migration) (simp_all add: batch_views)
  show "output_id_to_created_output s' =
      (output_id_to_created_output s |` (- dom created)) ++ (map_option fst \<circ> consumed)"
    using a es by (cases migration)
      (simp_all add: batch_views batch_map_inserts batch_map_delete_entries parts_map_of)
  show "output_id_to_consumed_output s' = output_id_to_consumed_output s |` (- dom consumed)"
    using a es by (cases migration) (simp_all add: batch_views batch_map_delete_entries unspent_image)
  show "unspent_ids s' = (unspent_ids s - dom created) \<union> dom consumed"
    using a es by (cases migration)
      (auto simp: batch_views unspent_ids_def is_output_unspent_def Table_exist_def batch_map_restored
        batch_map_delete_unspent unspent_image)
  have "map_of (entries (iter_diffs h) (BalanceDiffs_negated deltas)) a = map_option BalanceDiff_negate (deltas a)"
    using es by (simp add: BalanceDiffs_negated_def)
  then show "address_to_balance s' a = (case deltas a of
           Some diff \<Rightarrow> stored_balance (projr (balance_after s a (BalanceDiff_negate diff)))
         | None \<Rightarrow> address_to_balance s a)"
    using a es by (cases migration) (simp_all add: batch_views batch_map_balance_ops split: option.splits)
qed

text \<open>Treasury outputs, receipts and the outputs of an address.\<close>

definition addresses_of :: "InnerStorage \<Rightarrow> Ed25519Address \<times> OutputId \<Rightarrow> unit option" where
  "addresses_of s = VecBinTable_lookup (ed25519_address_to_output_id s)"

lemma apply_milestone_treasury:
  assumes "Storage_inv s" and "apply_milestone h index created consumed deltas migration s = Inr s'"
  shows "treasury_of s' = (case migration of
      Some m \<Rightarrow> (treasury_of s)((False, Migration_created_treasury m) \<mapsto> (),
        (True, Migration_consumed_treasury m) \<mapsto> (), (False, Migration_consumed_treasury m) := None)
    | None \<Rightarrow> treasury_of s)"
    and "receipts_of s' = (case migration of
      Some m \<Rightarrow> (receipts_of s)((ReceiptPayload_migrated_at (LedgerReceipt_inner (Migration_receipt m)),
        Migration_receipt m) \<mapsto> ())
    | None \<Rightarrow> receipts_of s)"
    and "milestone_index_to_output_diff s' = (milestone_index_to_output_diff s)(index \<mapsto>
      the (milestone_index_to_output_diff s' index))"
    and "Storage_inv s'"
  using assms unfolding apply_milestone_Inr_iff treasury_of_def receipts_of_def Storage_inv_def
  by (cases migration; simp add: batch_views VecTable.lookup_commit VecTable.inv_commit VecBinTable.inv_commit)+

lemma rollback_milestone_treasury:
  assumes "Storage_inv s" and "rollback_milestone h index created consumed deltas migration s = Inr s'"
  shows "treasury_of s' = (case migration of
      Some m \<Rightarrow> (treasury_of s)((False, Migration_created_treasury m) := None,
        (False, Migration_consumed_treasury m) \<mapsto> (), (True, Migration_consumed_treasury m) := None)
    | None \<Rightarrow> treasury_of s)"
    and "receipts_of s' = (case migration of
      Some m \<Rightarrow> (receipts_of s)((ReceiptPayload_migrated_at (LedgerReceipt_inner (Migration_receipt m)),
        Migration_receipt m) := None)
    | None \<Rightarrow> receipts_of s)"
    and "milestone_index_to_output_diff s' = (milestone_index_to_output_diff s)(index := None)"
    and "Storage_inv s'"
  using assms unfolding rollback_milestone_Inr_iff treasury_of_def receipts_of_def Storage_inv_def
  by (cases migration; simp add: batch_views VecTable.lookup_commit VecTable.inv_commit VecBinTable.inv_commit)+

lemma owner_image:
  assumes "keys_of iter" and "finite (dom m)"
  shows "(a, i) \<in> (\<lambda>e. (owner (snd e), fst e)) ` set (entries iter m) \<longleftrightarrow> (\<exists>x. m i = Some x \<and> owner x = a)"
  using entries_eq [OF assms] by force

lemma owner_image_part:
  assumes "keys_of iter" and "finite (dom m)"
  shows "(a, i) \<in> (\<lambda>e. (owner (snd e), fst e)) ` set (created_part (entries iter m)) \<longleftrightarrow>
    (\<exists>x y. m i = Some (x, y) \<and> owner x = a)"
  using entries_eq [OF assms] by (force simp: created_part_def)

lemma apply_milestone_addresses:
  assumes "hash_iter_spec h" and "finite_milestone created consumed deltas" and "Storage_inv s"
    and "apply_milestone h index created consumed deltas migration s = Inr s'"
  shows "addresses_of s' (a, i) =
    (if \<exists>x. created i = Some x \<and> owner x = a then Some () else addresses_of s (a, i))"
  using assms(2,3) assms(4) [unfolded apply_milestone_Inr_iff]
    owner_image [OF hash_iter_specD(2) [OF assms(1)], of created a i]
  by (cases migration)
    (auto simp: batch_views addresses_of_def Storage_inv_def VecBinTable.lookup_commit
      case_prod_unfold batch_map_insert_keys finite_milestone_def)

lemma rollback_milestone_addresses:
  assumes "hash_iter_spec h" and "finite_milestone created consumed deltas" and "Storage_inv s"
    and "rollback_milestone h index created consumed deltas migration s = Inr s'"
  shows "addresses_of s' (a, i) =
    (if \<exists>x y. consumed i = Some (x, y) \<and> owner x = a then Some ()
     else if \<exists>x. created i = Some x \<and> owner x = a then None else addresses_of s (a, i))"
  using assms(2,3) assms(4) [unfolded rollback_milestone_Inr_iff]
    owner_image [OF hash_iter_specD(2) [OF assms(1)], of created a i]
    owner_image_part [OF hash_iter_specD(3) [OF assms(1)], of consumed a i]
  by (cases migration)
    (auto simp: batch_views addresses_of_def Storage_inv_def VecBinTable.lookup_commit
      case_prod_unfold batch_map_insert_keys batch_map_delete_keys finite_milestone_def)

section \<open>Rolling back\<close>

text \<open>A milestone that creates new outputs only and consumes outputs that were unspent before it. The
  stored balances are those of funded addresses, and an emptied address keeps nothing.\<close>

definition milestone_applicable ::
  "InnerStorage \<Rightarrow> MilestoneIndex \<Rightarrow> (OutputId \<rightharpoonup> CreatedOutput) \<Rightarrow>
   (OutputId \<rightharpoonup> CreatedOutput \<times> ConsumedOutput) \<Rightarrow> BalanceDiffs \<Rightarrow> Migration option \<Rightarrow> bool" where
  "milestone_applicable s index created consumed deltas migration \<longleftrightarrow>
     finite_milestone created consumed deltas \<and> Storage_inv s \<and>
     (\<forall>i. created i \<noteq> None \<longrightarrow> output_id_to_created_output s i = None \<and> i \<notin> unspent_ids s \<and>
        (\<forall>a. addresses_of s (a, i) = None)) \<and>
     (\<forall>i x y. consumed i = Some (x, y) \<longrightarrow> output_id_to_created_output s i = Some x \<and>
        i \<in> unspent_ids s \<and> output_id_to_consumed_output s i = None \<and> owned x \<and>
        addresses_of s (owner x, i) = Some ()) \<and>
     (\<forall>a b. address_to_balance s a = Some b \<longrightarrow> Balance_small b \<and> Balance_amount b \<noteq> 0) \<and>
     (\<forall>a diff b. deltas a = Some diff \<longrightarrow> balance_after s a diff = Inr b \<longrightarrow> Balance_amount b = 0 \<longrightarrow>
        b = Balance_default) \<and>
     milestone_index_to_output_diff s index = None \<and>
     (\<forall>m. migration = Some m \<longrightarrow>
        treasury_of s (False, Migration_consumed_treasury m) = Some () \<and>
        treasury_of s (True, Migration_consumed_treasury m) = None \<and>
        treasury_of s (False, Migration_created_treasury m) = None \<and>
        receipts_of s (ReceiptPayload_migrated_at (LedgerReceipt_inner (Migration_receipt m)),
          Migration_receipt m) = None)"

definition same_ledger :: "InnerStorage \<Rightarrow> InnerStorage \<Rightarrow> bool" where
  "same_ledger s t \<longleftrightarrow>
     output_id_to_created_output s = output_id_to_created_output t \<and>
     output_id_to_consumed_output s = output_id_to_consumed_output t \<and>
     unspent_ids s = unspent_ids t \<and> addresses_of s = addresses_of t \<and>
     address_to_balance s = address_to_balance t \<and> treasury_of s = treasury_of t \<and>
     receipts_of s = receipts_of t \<and> milestone_index_to_output_diff s = milestone_index_to_output_diff t"

lemma Balance_small_default: "Balance_small Balance_default"
  by (simp add: Balance_small_def Balance_default_def)

lemma balance_restored:
  assumes small: "\<And>b. address_to_balance s a = Some b \<Longrightarrow> Balance_small b \<and> Balance_amount b \<noteq> 0"
    and emptied: "\<And>b. balance_after s a diff = Inr b \<Longrightarrow> Balance_amount b = 0 \<Longrightarrow> b = Balance_default"
    and ok: "\<not> isl (balance_after s a diff)"
    and s': "address_to_balance s' a = stored_balance (projr (balance_after s a diff))"
  shows "balance_after s' a (BalanceDiff_negate diff) = Inr (fetch_balance_or_default s a)"
    and "stored_balance (fetch_balance_or_default s a) = address_to_balance s a"
proof -
  obtain b where b: "balance_after s a diff = Inr b" using ok by (cases "balance_after s a diff") auto
  have "Balance_small (fetch_balance_or_default s a)"
    using small Balance_small_default
    by (auto simp: fetch_balance_or_default_def fetch_balance_def Table_fetch_def split: option.splits)
  from Balance_apply_diff_negate [OF this b [unfolded balance_after_def]]
  have "Balance_apply_diff (BalanceDiff_negate diff) b = Inr (fetch_balance_or_default s a)" .
  moreover have "fetch_balance_or_default s' a = b"
    using s' b emptied [OF b]
    by (auto simp: fetch_balance_or_default_def fetch_balance_def Table_fetch_def stored_balance_def)
  ultimately show "balance_after s' a (BalanceDiff_negate diff) = Inr (fetch_balance_or_default s a)"
    by (simp add: balance_after_def)
  show "stored_balance (fetch_balance_or_default s a) = address_to_balance s a"
    using small by (auto simp: fetch_balance_or_default_def fetch_balance_def Table_fetch_def
        stored_balance_def Balance_default_def split: option.splits)
qed

lemma rollback_milestone_succeeds:
  assumes h: "hash_iter_spec h" and h': "hash_iter_spec h'"
    and ok: "milestone_applicable s index created consumed deltas migration"
    and s': "apply_milestone h index created consumed deltas migration s = Inr s'"
  shows "\<exists>s''. rollback_milestone h' index created consumed deltas migration s' = Inr s''"
proof -
  note ok' = ok [unfolded milestone_applicable_def]
  have fin: "finite_milestone created consumed deltas" using ok' by blast
  then have f: "finite (dom created)" "finite (dom consumed)" "finite (dom (BalanceDiffs_negated deltas))"
    by (auto simp: finite_milestone_def BalanceDiffs_negated_def dom_map_option_comp)
  note eff = apply_milestone_effect [OF h fin s']
  have "\<not> isl (balance_after s' a diff)" if "BalanceDiffs_negated deltas a = Some diff" for a diff
  proof -
    from that obtain d where d: "deltas a = Some d" "diff = BalanceDiff_negate d"
      by (auto simp: BalanceDiffs_negated_def)
    have "balance_after s' a (BalanceDiff_negate d) = Inr (fetch_balance_or_default s a)"
      by (rule balance_restored(1)) (use ok' eff(5) [of a] eff(6) [OF d(1)] d in auto)
    with d show ?thesis by simp
  qed
  moreover have "owned x" if "created i = Some x" for i x using eff(7) [OF that] .
  moreover have "owned x" if "consumed i = Some (x, y)" for i x y using ok' that by blast
  ultimately show ?thesis
    using entries_eq [OF hash_iter_specD(2) [OF h'] f(1)] entries_eq [OF hash_iter_specD(3) [OF h'] f(2)]
      entries_eq [OF hash_iter_specD(1) [OF h'] f(3)]
    by (auto simp: rollback_milestone_Inr_iff)
qed

lemma rollback_milestone_restores:
  assumes h: "hash_iter_spec h" and h': "hash_iter_spec h'"
    and ok: "milestone_applicable s index created consumed deltas migration"
    and s': "apply_milestone h index created consumed deltas migration s = Inr s'"
    and s'': "rollback_milestone h' index created consumed deltas migration s' = Inr s''"
  shows "same_ledger s'' s"
proof -
  note ok' = ok [unfolded milestone_applicable_def]
  have fin: "finite_milestone created consumed deltas" and inv: "Storage_inv s" using ok' by blast+
  note eff = apply_milestone_effect [OF h fin s'] and tr = apply_milestone_treasury [OF inv s']
  note reff = rollback_milestone_effect [OF h' fin s''] and rtr = rollback_milestone_treasury [OF tr(4) s'']
  have old: "consumed i = Some (x, y) \<Longrightarrow> created i = None" for i x y using ok' by fastforce
  have "output_id_to_created_output s'' i = output_id_to_created_output s i" for i
    using ok' old [of i] unfolding reff(2) eff(2)
    by (cases "consumed i"; cases "created i") (auto simp: restrict_map_def map_add_def)
  moreover have "output_id_to_consumed_output s'' i = output_id_to_consumed_output s i" for i
    using ok' unfolding reff(3) eff(3)
    by (cases "consumed i") (auto simp: restrict_map_def map_add_def)
  moreover have "unspent_ids s'' = unspent_ids s"
    using ok' unfolding reff(4) eff(4) by fast
  moreover have "addresses_of s'' (a, i) = addresses_of s (a, i)" for a i
    using ok' old [of i] unfolding rollback_milestone_addresses [OF h' fin tr(4) s'']
      apply_milestone_addresses [OF h fin inv s'] by auto
  moreover have "address_to_balance s'' a = address_to_balance s a" for a
  proof (cases "deltas a")
    case (Some d)
    have "balance_after s' a (BalanceDiff_negate d) = Inr (fetch_balance_or_default s a)"
      and "stored_balance (fetch_balance_or_default s a) = address_to_balance s a"
      by (rule balance_restored; use ok' eff(5) [of a] eff(6) [OF Some] Some in auto)+
    with Some reff(5) [of a] show ?thesis by simp
  qed (simp add: reff(5) eff(5))
  moreover have "treasury_of s'' = treasury_of s" and "receipts_of s'' = receipts_of s"
    using ok' unfolding rtr(1,2) tr(1,2) by (cases migration; fastforce)+
  moreover have "milestone_index_to_output_diff s'' = milestone_index_to_output_diff s"
    using ok' unfolding rtr(3) by (subst tr(3)) (auto simp: fun_eq_iff)
  ultimately show ?thesis by (auto simp: same_ledger_def)
qed

section \<open>A concrete ledger\<close>

text \<open>One address owns one output, which a milestone replaces by another one of the same amount.\<close>

definition sample_address :: Ed25519Address where
  "sample_address = Ed25519Address (replicate 32 1)"

definition sample_output_id :: "u16 \<Rightarrow> OutputId" where
  "sample_output_id n = \<lparr>OutputId_transaction_id = TransactionId (replicate 32 0), OutputId_index = n\<rparr>"

definition sample_created :: CreatedOutput where
  "sample_created = \<lparr>CreatedOutput_message_id = MessageId (replicate 32 7),
     CreatedOutput_inner = Output_SignatureLockedSingle
       \<lparr>SignatureLockedSingleOutput_address = Address_Ed25519 sample_address,
        SignatureLockedSingleOutput_amount = 5000000\<rparr>\<rparr>"

definition sample_consumed :: ConsumedOutput where
  "sample_consumed = \<lparr>ConsumedOutput_target = TransactionId (replicate 32 0),
     ConsumedOutput_index = MilestoneIndex 8\<rparr>"

definition sample_ledger :: InnerStorage where
  "sample_ledger = Storage_new\<lparr>
     output_id_to_created_output := [sample_output_id 0 \<mapsto> sample_created],
     output_id_unspent := [Unspent (sample_output_id 0) \<mapsto> ()],
     ed25519_address_to_output_id := [sample_address \<mapsto> [sample_output_id 0]],
     address_to_balance := [Address_Ed25519 sample_address \<mapsto>
       \<lparr>Balance_amount = 5000000, Balance_dust_allowance = 0, Balance_dust_outputs = 0\<rparr>]\<rparr>"

definition sample_deltas :: BalanceDiffs where
  "sample_deltas = [Address_Ed25519 sample_address \<mapsto> BalanceDiff_default]"

lemma sample_output_id_eq [simp]: "sample_output_id n = sample_output_id m \<longleftrightarrow> n = m"
  by (simp add: sample_output_id_def)

lemma sample_owner [simp]: "owner sample_created = sample_address" "owned sample_created"
  by (simp_all add: owner_def owned_def sample_created_def)

lemma sample_unspent: "unspent_ids sample_ledger = {sample_output_id 0}"
  by (auto simp: unspent_ids_def is_output_unspent_def Table_exist_def sample_ledger_def split: if_splits)

lemma sample_Storage_inv: "Storage_inv sample_ledger"
  using Storage_inv_new by (auto simp: sample_ledger_def Storage_inv_def VecBinTable_inv_def)

lemma sample_addresses:
  "addresses_of sample_ledger (a, i) = (if a = sample_address \<and> i = sample_output_id 0 then Some () else None)"
  using sample_Storage_inv
  by (auto simp: addresses_of_def VecBinTable_lookup_def VecBinTable_exist_iff Storage_inv_def
      sample_ledger_def or_empty_def Storage_new_def)

lemma sample_balance_after:
  "balance_after sample_ledger (Address_Ed25519 sample_address) BalanceDiff_default =
     Inr \<lparr>Balance_amount = 5000000, Balance_dust_allowance = 0, Balance_dust_outputs = 0\<rparr>"
  by (simp add: balance_after_def fetch_balance_or_default_def fetch_balance_def Table_fetch_def
      sample_ledger_def Balance_apply_diff_Inr_iff Balance_small_def applied_def BalanceDiff_default_def)

lemma sample_applicable:
  "milestone_applicable sample_ledger (MilestoneIndex 8) [sample_output_id 1 \<mapsto> sample_created]
     [sample_output_id 0 \<mapsto> (sample_created, sample_consumed)] sample_deltas None"
  using sample_unspent sample_Storage_inv sample_balance_after
  by (auto simp: milestone_applicable_def finite_milestone_def sample_addresses sample_deltas_def)
    (auto simp: sample_ledger_def Storage_new_def Balance_small_def split: if_splits)

lemma sample_apply:
  assumes "created = [sample_output_id 1 \<mapsto> sample_created]"
  shows "\<exists>s'. apply_milestone sorted_iter (MilestoneIndex 8) created consumed sample_deltas None sample_ledger = Inr s'"
proof -
  have "entries (iter_created sorted_iter) created = [(sample_output_id 1, sample_created)]"
    and "entries (iter_diffs sorted_iter) sample_deltas =
      [(Address_Ed25519 sample_address, BalanceDiff_default)]"
    by (simp_all add: assms entries_def sorted_iter_def sorted_keys_def sample_deltas_def)
  then show ?thesis by (simp add: apply_milestone_Inr_iff sample_balance_after)
qed

section \<open>Properties\<close>



text \<open>C22. An output that a milestone both creates and consumes survives its rollback: it was unknown
  before the milestone, and after applying and rolling back it is stored and unspent.\<close>

theorem rollback_keeps_transient_output:
  assumes "hash_iter_spec h" and "hash_iter_spec h'" and "finite_milestone created consumed deltas"
    and "created i = Some x" and "consumed i = Some (x, y)" and "output_id_to_created_output s i = None"
    and "apply_milestone h index created consumed deltas migration s = Inr s'"
    and "rollback_milestone h' index created consumed deltas migration s' = Inr s''"
  shows "output_id_to_created_output s'' i = Some x \<and> i \<in> unspent_ids s'' \<and> \<not> same_ledger s'' s"
proof -
  have "output_id_to_created_output s'' i = Some x" "i \<in> unspent_ids s''"
    using rollback_milestone_effect(2,4) [OF assms(2,3,8)] assms(4,5) by (auto simp: map_add_def)
  with assms(6) show ?thesis by (auto simp: same_ledger_def)
qed

theorem rollback_keeps_transient_output_witness:
  "\<exists>s' s''. apply_milestone sorted_iter (MilestoneIndex 8) [sample_output_id 1 \<mapsto> sample_created]
       [sample_output_id 1 \<mapsto> (sample_created, sample_consumed)] Map.empty None sample_ledger = Inr s' \<and>
     rollback_milestone sorted_iter (MilestoneIndex 8) [sample_output_id 1 \<mapsto> sample_created]
       [sample_output_id 1 \<mapsto> (sample_created, sample_consumed)] Map.empty None s' = Inr s'' \<and>
     output_id_to_created_output s'' (sample_output_id 1) = Some sample_created \<and>
     sample_output_id 1 \<in> unspent_ids s'' \<and> \<not> same_ledger s'' sample_ledger"
proof -
  let ?cr = "[sample_output_id 1 \<mapsto> sample_created]"
  let ?co = "[sample_output_id 1 \<mapsto> (sample_created, sample_consumed)]"
  have e: "entries (iter_created sorted_iter) ?cr = [(sample_output_id 1, sample_created)]"
    "entries (iter_consumed sorted_iter) ?co = [(sample_output_id 1, sample_created, sample_consumed)]"
    "entries (iter_diffs sorted_iter) Map.empty = []"
    "entries (iter_diffs sorted_iter) (BalanceDiffs_negated Map.empty) = []"
    by (simp_all add: entries_def sorted_iter_def sorted_keys_def BalanceDiffs_negated_def comp_def)
  obtain s' where s': "apply_milestone sorted_iter (MilestoneIndex 8) ?cr ?co Map.empty None sample_ledger = Inr s'"
    by (simp add: apply_milestone_Inr_iff e)
  obtain s'' where s'': "rollback_milestone sorted_iter (MilestoneIndex 8) ?cr ?co Map.empty None s' = Inr s''"
    by (simp add: rollback_milestone_Inr_iff e)
  show ?thesis
    using s' s'' rollback_keeps_transient_output [OF hash_iter_spec_sorted hash_iter_spec_sorted _ _ _ _ s' s'',
        of "sample_output_id 1" sample_created sample_consumed]
    by (simp add: finite_milestone_def sample_ledger_def Storage_new_def)
qed

end
