(* ===== verification/Ledger_State.thy ===== *)
theory Ledger_State
  imports Ledger_Milestones
begin

text \<open>
  The check of the stored ledger when the node starts (workers/consensus/state.rs of bee-ledger):
  unspent outputs and the treasury make up the supply, and so do the balances, none of which has
  more dust outputs than its allowance permits.
\<close>

section \<open>The checks\<close>

fun unspent_supply_loop :: "InnerStorage \<Rightarrow> Unspent list \<Rightarrow> u64 \<Rightarrow> LedgerError + u64" where
  "unspent_supply_loop storage [] supply = Inr supply"
| "unspent_supply_loop storage (output_id # iterator) supply =
     bindR (ok_or (MissingUnspentOutput output_id) (fetch_output storage (Unspent_id output_id))) (\<lambda>output.
     bindR (case CreatedOutput_inner output of
         Output_SignatureLockedSingle out \<Rightarrow> Inr (SignatureLockedSingleOutput_amount out)
       | Output_SignatureLockedDustAllowance out \<Rightarrow> Inr (SignatureLockedDustAllowanceOutput_amount out)
       | Output_Treasury _ \<Rightarrow> Inl (UnsupportedOutputKind (Output_kind (CreatedOutput_inner output))))
       (\<lambda>amount.
     bindR (ok_or (LedgerStateOverflow (unat supply + unat amount)) (checked_add_u64 supply amount)) (\<lambda>supply.
     unspent_supply_loop storage iterator supply)))"

definition validate_ledger_unspent_state :: "hash_iter \<Rightarrow> InnerStorage \<Rightarrow> u64 \<Rightarrow> LedgerError + unit" where
  "validate_ledger_unspent_state h storage treasury =
     bindR (unspent_supply_loop storage (iter_unspent h (output_id_unspent storage)) 0) (\<lambda>supply.
     bindR (ok_or (LedgerStateOverflow (unat supply + unat treasury)) (checked_add_u64 supply treasury)) (\<lambda>sum.
     if sum \<noteq> IOTA_SUPPLY then Inl (InvalidLedgerUnspentState supply) else Inr ()))"

fun balance_supply_loop :: "(Address \<times> Balance) list \<Rightarrow> u64 \<Rightarrow> LedgerError + u64" where
  "balance_supply_loop [] supply = Inr supply"
| "balance_supply_loop ((address, balance) # iterator) supply =
     (if dust_outputs_max (Balance_dust_allowance balance) < Balance_dust_outputs balance
      then Inl (InvalidLedgerDustState address balance)
      else bindR (ok_or (LedgerStateOverflow (unat supply + unat (Balance_amount balance)))
          (checked_add_u64 supply (Balance_amount balance))) (\<lambda>supply.
        balance_supply_loop iterator supply))"

definition validate_ledger_balance_state :: "hash_iter \<Rightarrow> InnerStorage \<Rightarrow> u64 \<Rightarrow> LedgerError + unit" where
  "validate_ledger_balance_state h storage treasury =
     bindR (balance_supply_loop (entries (iter_balances h) (address_to_balance storage)) 0) (\<lambda>supply.
     bindR (ok_or (LedgerStateOverflow (unat supply + unat treasury)) (checked_add_u64 supply treasury)) (\<lambda>sum.
     if sum \<noteq> IOTA_SUPPLY then Inl (InvalidLedgerBalanceState supply) else Inr ()))"

definition validate_ledger_state :: "hash_iter \<Rightarrow> InnerStorage \<Rightarrow> LedgerError + unit" where
  "validate_ledger_state h storage =
     bindR (fetch_unspent_treasury_output storage) (\<lambda>output.
     let treasury = TreasuryOutput_amount (LedgerTreasuryOutput_inner output) in
     bindR (validate_ledger_unspent_state h storage treasury) (\<lambda>_.
     validate_ledger_balance_state h storage treasury))"

section \<open>What they check\<close>

fun output_amount :: "Output \<Rightarrow> nat" where
  "output_amount (Output_SignatureLockedSingle out) = unat (SignatureLockedSingleOutput_amount out)"
| "output_amount (Output_SignatureLockedDustAllowance out) = unat (SignatureLockedDustAllowanceOutput_amount out)"
| "output_amount (Output_Treasury _) = 0"

definition created_amount :: "InnerStorage \<Rightarrow> OutputId \<Rightarrow> nat" where
  "created_amount s i = output_amount (CreatedOutput_inner (the (output_id_to_created_output s i)))"

definition unspent_amount :: "InnerStorage \<Rightarrow> nat" where
  "unspent_amount s = (\<Sum>i \<in> unspent_ids s. created_amount s i)"

definition balance_amount :: "InnerStorage \<Rightarrow> nat" where
  "balance_amount s = (\<Sum>a \<in> dom (address_to_balance s). unat (Balance_amount (the (address_to_balance s a))))"

definition spendable :: "InnerStorage \<Rightarrow> OutputId \<Rightarrow> bool" where
  "spendable s i \<longleftrightarrow> (\<exists>x. output_id_to_created_output s i = Some x \<and> owned x)"

definition dust_ok :: "Balance \<Rightarrow> bool" where
  "dust_ok b \<longleftrightarrow> Balance_dust_outputs b \<le> dust_outputs_max (Balance_dust_allowance b)"

text \<open>Adding with a check for overflow inside a sum that is a \<open>u64\<close> in the end.\<close>

lemma checked_add_u64_sum:
  "(\<exists>c. checked_add_u64 a b = Some c \<and> unat (t :: u64) = unat c + n) \<longleftrightarrow> unat t = unat a + unat b + n"
proof (cases "checked_add_u64 a b")
  case None
  then have "2 ^ 64 \<le> unat a + unat b" by (simp add: checked_add_u64_None)
  with None show ?thesis using unat_less_pow [of t] by simp
next
  case (Some c)
  then show ?thesis using checked_add_u64_Some [OF Some] by simp
qed

lemma unspent_supply_loop_Inr_iff:
  "unspent_supply_loop s us acc = Inr t \<longleftrightarrow>
     (\<forall>u \<in> set us. spendable s (Unspent_id u)) \<and>
     unat t = unat acc + (\<Sum>u\<leftarrow>us. created_amount s (Unspent_id u))"
proof (induction us arbitrary: acc)
  case (Cons u us)
  have plus: "(\<exists>c. checked_add_u64 acc a = Some c \<and> P \<and> unat t = unat c + n) \<longleftrightarrow>
      P \<and> unat t = unat acc + (unat a + n)" for a n P
    using checked_add_u64_sum [of acc a t n] by (auto simp: add.assoc)
  show ?case
  proof (cases "output_id_to_created_output s (Unspent_id u)")
    case (Some x)
    then show ?thesis
      by (cases "CreatedOutput_inner x")
        (auto simp: bindR_Inr_iff Cons.IH fetch_output_def Table_fetch_def spendable_def owned_def
          created_amount_def plus)
  qed (simp add: bindR_Inr_iff fetch_output_def Table_fetch_def spendable_def)
qed (auto simp: word_unat_eq_iff)

lemma balance_supply_loop_Inr_iff:
  "balance_supply_loop bs acc = Inr t \<longleftrightarrow>
     (\<forall>b \<in> snd ` set bs. dust_ok b) \<and>
     unat t = unat acc + (\<Sum>b\<leftarrow>map snd bs. unat (Balance_amount b))"
proof (induction bs arbitrary: acc)
  case (Cons e bs)
  obtain a b where e: "e = (a, b)" by (cases e)
  have plus: "(\<exists>c. checked_add_u64 acc a = Some c \<and> P \<and> unat t = unat c + n) \<longleftrightarrow>
      P \<and> unat t = unat acc + (unat a + n)" for a n P
    using checked_add_u64_sum [of acc a t n] by (auto simp: add.assoc)
  show ?case
    by (auto simp: e bindR_Inr_iff Cons.IH dust_ok_def not_less plus)
qed (auto simp: word_unat_eq_iff)

lemma supply_check:
  "checked_add_u64 acc treasury = Some IOTA_SUPPLY \<longleftrightarrow> unat acc + unat treasury = unat IOTA_SUPPLY"
  using checked_add_u64_sum [of acc treasury IOTA_SUPPLY 0] by (auto simp: word_unat_eq_iff)

lemma supply_word:
  "(\<exists>t. unat t + unat treasury = unat IOTA_SUPPLY \<and> unat (t :: u64) = n) \<longleftrightarrow>
     n + unat treasury = unat IOTA_SUPPLY"
proof
  assume n: "n + unat treasury = unat IOTA_SUPPLY"
  then have "unat (word_of_nat n :: u64) = n"
    using unat_less_pow [of IOTA_SUPPLY] by (simp add: unat_of_nat)
  with n show "\<exists>t. unat t + unat treasury = unat IOTA_SUPPLY \<and> unat (t :: u64) = n"
    by (intro exI [of _ "word_of_nat n"]) simp
qed auto

lemma validate_ledger_unspent_state_iff:
  assumes "hash_iter_spec h" and "finite (unspent_ids s)"
  shows "validate_ledger_unspent_state h s treasury = Inr () \<longleftrightarrow>
    (\<forall>i \<in> unspent_ids s. spendable s i) \<and> unspent_amount s + unat treasury = unat IOTA_SUPPLY"
proof -
  have dom: "dom (output_id_unspent s) = Unspent ` unspent_ids s"
    by (auto simp: unspent_ids_def is_output_unspent_def Table_exist_def image_iff) (metis Unspent.exhaust_sel)
  let ?us = "iter_unspent h (output_id_unspent s)"
  have us: "distinct ?us" "set ?us = Unspent ` unspent_ids s"
    using assms dom by (auto simp: hash_iter_spec_def keys_of_def)
  have "(\<Sum>u\<leftarrow>?us. created_amount s (Unspent_id u)) = unspent_amount s"
    using us by (simp add: sum_list_distinct_conv_sum_set unspent_amount_def)
      (subst sum.reindex, auto simp: inj_on_def)
  with us show ?thesis
    using supply_word [of treasury "unspent_amount s"]
    by (simp add: validate_ledger_unspent_state_def bindR_Inr_iff unspent_supply_loop_Inr_iff supply_check)
      blast
qed

lemma validate_ledger_balance_state_iff:
  assumes "hash_iter_spec h" and "finite (dom (address_to_balance s))"
  shows "validate_ledger_balance_state h s treasury = Inr () \<longleftrightarrow>
    (\<forall>a b. address_to_balance s a = Some b \<longrightarrow> dust_ok b) \<and>
    balance_amount s + unat treasury = unat IOTA_SUPPLY"
proof -
  note keys = hash_iter_specD(5) [OF assms(1)]
  let ?bs = "entries (iter_balances h) (address_to_balance s)"
  have iter: "distinct (iter_balances h (address_to_balance s))"
    "set (iter_balances h (address_to_balance s)) = dom (address_to_balance s)"
    using keys assms(2) by (auto simp: keys_of_def)
  have "(\<Sum>b\<leftarrow>map snd ?bs. unat (Balance_amount b)) = balance_amount s"
    using iter by (simp add: entries_def comp_def sum_list_distinct_conv_sum_set balance_amount_def)
  moreover have "(\<forall>b \<in> snd ` set ?bs. dust_ok b) \<longleftrightarrow> (\<forall>a b. address_to_balance s a = Some b \<longrightarrow> dust_ok b)"
    using entries_eq [OF keys assms(2)] by auto
  ultimately show ?thesis
    using supply_word [of treasury "balance_amount s"]
    by (simp add: validate_ledger_balance_state_def bindR_Inr_iff balance_supply_loop_Inr_iff supply_check)
      blast
qed

text \<open>The whole check accepts exactly the ledgers whose unspent outputs are known and make up the
  supply together with the only unspent treasury output, and whose balances do so too and respect
  the dust rule.\<close>

definition treasury_amount :: "InnerStorage \<Rightarrow> nat" where
  "treasury_amount s = (case fetch_unspent_treasury_output s of
     Inr output \<Rightarrow> unat (TreasuryOutput_amount (LedgerTreasuryOutput_inner output)) | Inl _ \<Rightarrow> 0)"

definition ledger_consistent :: "InnerStorage \<Rightarrow> bool" where
  "ledger_consistent s \<longleftrightarrow>
     \<not> isl (fetch_unspent_treasury_output s) \<and>
     (\<forall>i \<in> unspent_ids s. spendable s i) \<and>
     unspent_amount s + treasury_amount s = unat IOTA_SUPPLY \<and>
     (\<forall>a b. address_to_balance s a = Some b \<longrightarrow> dust_ok b) \<and>
     balance_amount s + treasury_amount s = unat IOTA_SUPPLY"

lemma validate_ledger_state_consistent:
  assumes "hash_iter_spec h" and "finite (unspent_ids s)" and "finite (dom (address_to_balance s))"
  shows "validate_ledger_state h s = Inr () \<longleftrightarrow> ledger_consistent s"
  by (cases "fetch_unspent_treasury_output s")
    (auto simp: validate_ledger_state_def ledger_consistent_def treasury_amount_def Let_def bindR_Inr_iff
      validate_ledger_unspent_state_iff [OF assms(1,2)] validate_ledger_balance_state_iff [OF assms(1,3)])

end
