(* ===== verification/Merkle_Hasher.thy ===== *)
theory Merkle_Hasher
  imports Message_Model
begin

text \<open>
  The Merkle tree hash of a list of message identifiers (workers/consensus/merkle_hasher.rs of
  bee-ledger). The digest function is a parameter. Lists are shorter than \<open>2 ^ 32\<close>; the sources
  cast their length to \<open>u32\<close>.
\<close>

section \<open>The hasher\<close>

definition LEAF_HASH_PREFIX :: u8 where
  "LEAF_HASH_PREFIX = 0"

definition NODE_HASH_PREFIX :: u8 where
  "NODE_HASH_PREFIX = 1"

fun bit_length :: "nat \<Rightarrow> nat" where
  "bit_length n = (if n = 0 then 0 else Suc (bit_length (n div 2)))"

declare bit_length.simps [simp del]

lemma bit_length_0 [simp]: "bit_length 0 = 0"
  by (simp add: bit_length.simps [of 0])

definition leading_zeros :: "u32 \<Rightarrow> nat" where
  "leading_zeros n = 32 - bit_length (unat n)"

definition largest_power_of_two :: "u32 \<Rightarrow> nat" where
  "largest_power_of_two n = 2 ^ (32 - leading_zeros n - 1)"

definition merkle_split :: "MessageId list \<Rightarrow> nat" where
  "merkle_split message_ids = largest_power_of_two (word_of_nat (length message_ids) - 1)"

lemma bit_length_pos: "0 < n \<Longrightarrow> 2 ^ (bit_length n - 1) \<le> n \<and> n < 2 ^ bit_length n \<and> 0 < bit_length n"
proof (induction n rule: bit_length.induct)
  case (1 n)
  let ?b = "bit_length (n div 2)"
  have n: "bit_length n = Suc ?b" using 1(2) by (simp add: bit_length.simps [of n])
  show ?case
  proof (cases "n div 2 = 0")
    case True
    with 1(2) have "n = 1" by simp
    then show ?thesis by (simp add: bit_length.simps [of "Suc 0"])
  next
    case False
    with 1 have b: "2 ^ (?b - 1) \<le> n div 2" "n div 2 < 2 ^ ?b" "0 < ?b" by simp_all
    have "(2::nat) ^ ?b = 2 ^ (?b - 1) * 2"
      using b(3) by (cases ?b) simp_all
    with b(1,2) n show ?thesis
      by (simp add: less_eq_div_iff_mult_less_eq div_less_iff_less_mult mult.commute)
  qed
qed

lemma bit_length_le:
  assumes "n < 2 ^ k"
  shows "bit_length n \<le> k"
proof (cases "n = 0")
  case False
  then have "2 ^ (bit_length n - 1) \<le> n" and "0 < bit_length n" using bit_length_pos [of n] by auto
  with assms have "(2::nat) ^ (bit_length n - 1) < 2 ^ k" by (metis le_less_trans)
  then have "bit_length n - 1 < k" by (simp only: power_strict_increasing_iff)
  then show ?thesis by simp
qed simp

lemma largest_power_of_two:
  assumes "n \<noteq> 0"
  shows "largest_power_of_two n \<le> unat n" and "unat n < 2 * largest_power_of_two n"
proof -
  have "0 < unat n" using assms by (simp add: unat_gt_0)
  note b = bit_length_pos [OF this]
  have "bit_length (unat n) \<le> 32"
    using bit_length_le [of "unat n" 32] unat_less_pow [of n] by simp
  then have k: "largest_power_of_two n = 2 ^ (bit_length (unat n) - 1)"
    by (simp add: leading_zeros_def largest_power_of_two_def)
  show "largest_power_of_two n \<le> unat n"
    using b by (simp add: k)
  have "2 * 2 ^ (bit_length (unat n) - 1) = (2::nat) ^ bit_length (unat n)"
    using b by (metis power_Suc Suc_diff_1)
  with b show "unat n < 2 * largest_power_of_two n"
    by (simp add: k)
qed

lemma merkle_split_bounds:
  assumes "2 \<le> length xs"
  shows "0 < merkle_split xs" and "merkle_split xs < length xs"
proof -
  let ?w = "word_of_nat (length xs) - 1 :: u32"
  show "0 < merkle_split xs" by (simp add: merkle_split_def largest_power_of_two_def)
  have "unat ?w \<le> length xs - 1"
  proof (cases "(word_of_nat (length xs) :: u32) = 0")
    case True
    then have "2 ^ 32 dvd length xs" by (simp add: word_of_nat_eq_0_iff)
    then have "2 ^ 32 \<le> length xs" using assms by (auto dest: dvd_imp_le)
    moreover have "unat ?w < 2 ^ 32" using unat_less_pow [of ?w] by simp
    ultimately show ?thesis by simp
  next
    case False
    then have "unat ?w = unat (word_of_nat (length xs) :: u32) - 1" by (rule unat_minus_one)
    also have "\<dots> \<le> length xs - 1" by (intro diff_le_mono) (simp add: unat_of_nat)
    finally show ?thesis .
  qed
  then show "merkle_split xs < length xs"
    using assms largest_power_of_two(1) [of ?w]
    by (cases "?w = 0") (auto simp: merkle_split_def largest_power_of_two_def leading_zeros_def)
qed

definition MerkleHasher_empty :: "(byte list \<Rightarrow> byte list) \<Rightarrow> byte list" where
  "MerkleHasher_empty hash = hash []"

definition MerkleHasher_leaf :: "(byte list \<Rightarrow> byte list) \<Rightarrow> MessageId \<Rightarrow> byte list" where
  "MerkleHasher_leaf hash message_id = hash ([LEAF_HASH_PREFIX] @ MessageId_bytes message_id)"

text \<open>\<open>digest_inner\<close> with \<open>node\<close> in place.\<close>

function MerkleHasher_digest :: "(byte list \<Rightarrow> byte list) \<Rightarrow> MessageId list \<Rightarrow> byte list" where
  "MerkleHasher_digest hash message_ids =
     (if message_ids = [] then MerkleHasher_empty hash
      else if length message_ids = 1 then MerkleHasher_leaf hash (hd message_ids)
      else
        let left = take (merkle_split message_ids) message_ids;
            right = drop (merkle_split message_ids) message_ids
        in hash ([NODE_HASH_PREFIX] @ MerkleHasher_digest hash left @ MerkleHasher_digest hash right))"
  by auto
termination
proof (relation "measure (\<lambda>(_, xs). length xs)", goal_cases)
  case 1
  show ?case by simp
next
  case (2 hash xs left right)
  then have "2 \<le> length xs" by (cases xs rule: remdups_adj.cases) auto
  with merkle_split_bounds [OF this] show ?case by (simp add: 2)
next
  case (3 hash xs left right)
  then have "2 \<le> length xs" by (cases xs rule: remdups_adj.cases) auto
  with merkle_split_bounds [OF this] show ?case by (simp add: 3)
qed

declare MerkleHasher_digest.simps [simp del]

lemma MerkleHasher_digest_simps:
  "MerkleHasher_digest hash [] = hash []"
  "MerkleHasher_digest hash [m] = hash (LEAF_HASH_PREFIX # MessageId_bytes m)"
  "2 \<le> length xs \<Longrightarrow> MerkleHasher_digest hash xs =
     hash (NODE_HASH_PREFIX # MerkleHasher_digest hash (take (merkle_split xs) xs) @
       MerkleHasher_digest hash (drop (merkle_split xs) xs))"
  by (subst MerkleHasher_digest.simps;
      auto simp: MerkleHasher_empty_def MerkleHasher_leaf_def Let_def)+

section \<open>The tree is the one of RFC 6962, and binds its leaves\<close>

lemma merkle_split_power:
  assumes "2 \<le> length xs" and "length xs < 2 ^ 32"
  shows "(\<exists>i. merkle_split xs = 2 ^ i) \<and> merkle_split xs < length xs \<and> length xs \<le> 2 * merkle_split xs"
proof -
  let ?w = "word_of_nat (length xs) - 1 :: u32"
  have "unat (word_of_nat (length xs) :: u32) = length xs" using assms(2) by (simp add: unat_of_nat)
  moreover from this have "(word_of_nat (length xs) :: u32) \<noteq> 0" using assms(1) by auto
  ultimately have w: "unat ?w = length xs - 1" using unat_minus_one [of "word_of_nat (length xs) :: u32"] by simp
  then have "?w \<noteq> 0" using assms(1) by auto
  from largest_power_of_two [OF this] w assms(1) show ?thesis
    by (auto simp: merkle_split_def) (auto simp: largest_power_of_two_def)
qed

text \<open>Two lists with the same digest are equal, or the digest function has a collision.\<close>

lemma MerkleHasher_digest_binding:
  assumes "\<And>bs. length (hash bs) = 32" and "MerkleHasher_digest hash xs = MerkleHasher_digest hash ys"
  shows "xs = ys \<or> (\<exists>a b. a \<noteq> b \<and> hash a = hash b)"
  using assms(2)
proof (induction "length xs" arbitrary: xs ys rule: less_induct)
  case less
  define top where "top zs = (if zs = [] then [] else if length zs = 1
    then LEAF_HASH_PREFIX # MessageId_bytes (hd zs)
    else NODE_HASH_PREFIX # MerkleHasher_digest hash (take (merkle_split zs) zs) @
      MerkleHasher_digest hash (drop (merkle_split zs) zs))" for zs
  have top: "MerkleHasher_digest hash zs = hash (top zs)" for zs
    by (cases zs rule: remdups_adj.cases) (simp_all add: top_def MerkleHasher_digest_simps)
  show ?case
  proof (cases "top xs = top ys")
    case False
    with less.prems top show ?thesis by metis
  next
    case True
    show ?thesis
    proof (cases xs rule: remdups_adj.cases)
      case (3 x x' zs)
      with True obtain y y' ws where ys: "ys = y # y' # ws"
        by (cases ys rule: remdups_adj.cases)
          (auto simp: top_def LEAF_HASH_PREFIX_def NODE_HASH_PREFIX_def)
      have n: "2 \<le> length xs" "2 \<le> length ys" using 3 ys by auto
      have "length (MerkleHasher_digest hash zs) = 32" for zs using assms(1) top by simp
      with True 3 ys have
        l: "MerkleHasher_digest hash (take (merkle_split xs) xs) =
          MerkleHasher_digest hash (take (merkle_split ys) ys)" and
        r: "MerkleHasher_digest hash (drop (merkle_split xs) xs) =
          MerkleHasher_digest hash (drop (merkle_split ys) ys)"
        by (auto simp: top_def append_eq_append_conv)
      from less.hyps [OF _ l] less.hyps [OF _ r] merkle_split_bounds [OF n(1)]
      have "take (merkle_split xs) xs = take (merkle_split ys) ys \<and>
        drop (merkle_split xs) xs = drop (merkle_split ys) ys \<or> (\<exists>a b. a \<noteq> b \<and> hash a = hash b)"
        by auto
      then show ?thesis by (metis append_take_drop_id)
    qed (use True in \<open>cases ys rule: remdups_adj.cases;
        auto simp: top_def LEAF_HASH_PREFIX_def NODE_HASH_PREFIX_def MessageId.expand\<close>)+
  qed
qed

end
