(* ===== verification/White_Flag.thy ===== *)
theory White_Flag
  imports Ledger_State Merkle_Hasher
begin

text \<open>
  The White Flag confirmation of a milestone (workers/consensus/metadata.rs and white_flag.rs of
  bee-ledger): the past cone of the milestone is traversed depth first, transactions are checked
  against the ledger and against what the milestone has changed so far, and their effects are
  collected in the metadata of the confirmation.

  The tangle is seen through a record with the two questions the traversal asks. A check that ends
  early returns either an error, which aborts the confirmation, or a conflict, which excludes the
  message; \<open>exit\<close> holds both.
\<close>

section \<open>Metadata\<close>

record WhiteFlagMetadata =
  wf_index :: MilestoneIndex
  wf_referenced_messages :: nat
  wf_excluded_no_transaction_messages :: "MessageId list"
  wf_excluded_conflicting_messages :: "(MessageId \<times> ConflictReason) list"
  wf_included_messages :: "MessageId list"
  wf_created_outputs :: "OutputId \<rightharpoonup> CreatedOutput"
  wf_consumed_outputs :: "OutputId \<rightharpoonup> CreatedOutput \<times> ConsumedOutput"
  wf_balance_diffs :: BalanceDiffs
  wf_merkle_proof :: "byte list"

definition WhiteFlagMetadata_new :: "MilestoneIndex \<Rightarrow> WhiteFlagMetadata" where
  "WhiteFlagMetadata_new index =
     \<lparr>wf_index = index, wf_referenced_messages = 0, wf_excluded_no_transaction_messages = [],
      wf_excluded_conflicting_messages = [], wf_included_messages = [], wf_created_outputs = Map.empty,
      wf_consumed_outputs = Map.empty, wf_balance_diffs = BalanceDiffs_new, wf_merkle_proof = []\<rparr>"

record TangleView =
  view_vertex :: "MessageId \<Rightarrow> (Message \<times> MessageMetadata) option"
  view_is_solid_entry_point :: "MessageId \<Rightarrow> bool"

datatype (plugins only: code size) exit = Raise LedgerError | Conflict ConflictReason

section \<open>Transactions\<close>

definition verify_signature :: "deps \<Rightarrow> Address \<Rightarrow> UnlockBlocks \<Rightarrow> nat \<Rightarrow> byte list \<Rightarrow> bool" where
  "verify_signature d address unlock_blocks index essence_hash =
     (case UnlockBlocks_get unlock_blocks index of
        Some (UnlockBlock_Signature signature) \<Rightarrow> \<not> isl (Address_verify d address essence_hash signature)
      | _ \<Rightarrow> False)"

definition fetch_input :: "InnerStorage \<Rightarrow> WhiteFlagMetadata \<Rightarrow> Input \<Rightarrow> exit + OutputId \<times> CreatedOutput" where
  "fetch_input storage metadata input =
     (case input of
        Input_Utxo utxo \<Rightarrow>
          (let output_id = UtxoInput_output_id utxo in
           if wf_consumed_outputs metadata output_id \<noteq> None
           then Inl (Conflict InputUtxoAlreadySpentInThisMilestone)
           else case wf_created_outputs metadata output_id of
                  Some output \<Rightarrow> Inr (output_id, output)
                | None \<Rightarrow>
                    (case fetch_output storage output_id of
                       Some output \<Rightarrow>
                         if \<not> is_output_unspent storage output_id then Inl (Conflict InputUtxoAlreadySpent)
                         else Inr (output_id, output)
                     | None \<Rightarrow> Inl (Conflict InputUtxoNotFound)))
      | Input_Treasury _ \<Rightarrow> Inl (Raise (UnsupportedInputKind (Input_kind input))))"

text \<open>The amount consumed so far and the differences after one more consumed output.\<close>

definition consume_output ::
  "deps \<Rightarrow> UnlockBlocks \<Rightarrow> nat \<Rightarrow> byte list \<Rightarrow> CreatedOutput \<Rightarrow> u64 \<times> BalanceDiffs \<Rightarrow> exit + u64 \<times> BalanceDiffs" where
  "consume_output d unlock_blocks index essence_hash consumed_output = (\<lambda>(consumed_amount, balance_diffs).
     case CreatedOutput_inner consumed_output of
       Output_SignatureLockedSingle out \<Rightarrow>
         (let address = SignatureLockedSingleOutput_address out; amount = SignatureLockedSingleOutput_amount out in
          bindR (ok_or (Raise (ConsumedAmountOverflow (unat consumed_amount + unat amount)))
            (checked_add_u64 consumed_amount amount)) (\<lambda>consumed_amount.
          bindR (map_errR (Raise \<circ> Ledger_Types) (BalanceDiffs_amount_sub address amount balance_diffs))
            (\<lambda>balance_diffs.
          bindR (if amount < DUST_THRESHOLD
                 then map_errR (Raise \<circ> Ledger_Types) (BalanceDiffs_dust_outputs_dec address balance_diffs)
                 else Inr balance_diffs) (\<lambda>balance_diffs.
          if \<not> verify_signature d address unlock_blocks index essence_hash
          then Inl (Conflict InvalidSignature)
          else Inr (consumed_amount, balance_diffs)))))
     | Output_SignatureLockedDustAllowance out \<Rightarrow>
         (let address = SignatureLockedDustAllowanceOutput_address out;
              amount = SignatureLockedDustAllowanceOutput_amount out in
          bindR (ok_or (Raise (ConsumedAmountOverflow (unat consumed_amount + unat amount)))
            (checked_add_u64 consumed_amount amount)) (\<lambda>consumed_amount.
          bindR (map_errR (Raise \<circ> Ledger_Types) (BalanceDiffs_amount_sub address amount balance_diffs))
            (\<lambda>balance_diffs.
          bindR (map_errR (Raise \<circ> Ledger_Types) (BalanceDiffs_dust_allowance_sub address amount balance_diffs))
            (\<lambda>balance_diffs.
          if \<not> verify_signature d address unlock_blocks index essence_hash
          then Inl (Conflict InvalidSignature)
          else Inr (consumed_amount, balance_diffs)))))
     | Output_Treasury _ \<Rightarrow>
         Inl (Raise (UnsupportedOutputKind (Output_kind (CreatedOutput_inner consumed_output)))))"

fun consume_inputs ::
  "deps \<Rightarrow> InnerStorage \<Rightarrow> WhiteFlagMetadata \<Rightarrow> UnlockBlocks \<Rightarrow> byte list \<Rightarrow> nat \<Rightarrow> Input list \<Rightarrow>
   (OutputId \<rightharpoonup> CreatedOutput) \<Rightarrow> u64 \<times> BalanceDiffs \<Rightarrow>
   exit + (OutputId \<rightharpoonup> CreatedOutput) \<times> u64 \<times> BalanceDiffs" where
  "consume_inputs d storage metadata unlock_blocks essence_hash index [] consumed_outputs acc =
     Inr (consumed_outputs, acc)"
| "consume_inputs d storage metadata unlock_blocks essence_hash index (input # inputs) consumed_outputs acc =
     bindR (fetch_input storage metadata input) (\<lambda>(output_id, consumed_output).
     bindR (consume_output d unlock_blocks index essence_hash consumed_output acc) (\<lambda>acc.
     consume_inputs d storage metadata unlock_blocks essence_hash (Suc index) inputs
       (consumed_outputs(output_id \<mapsto> consumed_output)) acc))"

definition create_output_diff :: "Output \<Rightarrow> u64 \<times> BalanceDiffs \<Rightarrow> exit + u64 \<times> BalanceDiffs" where
  "create_output_diff created_output = (\<lambda>(created_amount, balance_diffs).
     case created_output of
       Output_SignatureLockedSingle out \<Rightarrow>
         (let address = SignatureLockedSingleOutput_address out; amount = SignatureLockedSingleOutput_amount out in
          bindR (ok_or (Raise (CreatedAmountOverflow (unat created_amount + unat amount)))
            (checked_add_u64 created_amount amount)) (\<lambda>created_amount.
          bindR (map_errR (Raise \<circ> Ledger_Types) (BalanceDiffs_amount_add address amount balance_diffs))
            (\<lambda>balance_diffs.
          bindR (if amount < DUST_THRESHOLD
                 then map_errR (Raise \<circ> Ledger_Types) (BalanceDiffs_dust_outputs_inc address balance_diffs)
                 else Inr balance_diffs) (\<lambda>balance_diffs.
          Inr (created_amount, balance_diffs)))))
     | Output_SignatureLockedDustAllowance out \<Rightarrow>
         (let address = SignatureLockedDustAllowanceOutput_address out;
              amount = SignatureLockedDustAllowanceOutput_amount out in
          bindR (ok_or (Raise (CreatedAmountOverflow (unat created_amount + unat amount)))
            (checked_add_u64 created_amount amount)) (\<lambda>created_amount.
          bindR (map_errR (Raise \<circ> Ledger_Types) (BalanceDiffs_amount_add address amount balance_diffs))
            (\<lambda>balance_diffs.
          bindR (map_errR (Raise \<circ> Ledger_Types) (BalanceDiffs_dust_allowance_add address amount balance_diffs))
            (\<lambda>balance_diffs.
          Inr (created_amount, balance_diffs)))))
     | Output_Treasury _ \<Rightarrow> Inl (Raise (UnsupportedOutputKind (Output_kind created_output))))"

fun create_outputs :: "Output list \<Rightarrow> u64 \<times> BalanceDiffs \<Rightarrow> exit + u64 \<times> BalanceDiffs" where
  "create_outputs [] acc = Inr acc"
| "create_outputs (created_output # outputs) acc =
     bindR (create_output_diff created_output acc) (create_outputs outputs)"

fun check_dust ::
  "InnerStorage \<Rightarrow> WhiteFlagMetadata \<Rightarrow> (Address \<times> BalanceDiff) list \<Rightarrow> exit + unit" where
  "check_dust storage metadata [] = Inr ()"
| "check_dust storage metadata ((address, diff) # balance_diffs) =
     (if BalanceDiff_is_dust_mutating diff
      then bindR (map_errR (Raise \<circ> Ledger_Types)
             (Balance_apply_diff diff (fetch_balance_or_default storage address))) (\<lambda>balance.
           bindR (case wf_balance_diffs metadata address of
               Some diff \<Rightarrow> map_errR (Raise \<circ> Ledger_Types) (Balance_apply_diff diff balance)
             | None \<Rightarrow> Inr balance) (\<lambda>balance.
           if dust_outputs_max (Balance_dust_allowance balance) < Balance_dust_outputs balance
           then Inl (Conflict InvalidDustAllowance)
           else check_dust storage metadata balance_diffs))
      else check_dust storage metadata balance_diffs)"

fun record_consumed ::
  "TransactionId \<Rightarrow> (OutputId \<times> CreatedOutput) list \<Rightarrow> WhiteFlagMetadata \<Rightarrow> WhiteFlagMetadata" where
  "record_consumed transaction_id [] metadata = metadata"
| "record_consumed transaction_id ((output_id, created_output) # consumed_outputs) metadata =
     record_consumed transaction_id consumed_outputs
       (wf_consumed_outputs_update (\<lambda>m. m(output_id \<mapsto>
          (created_output, ConsumedOutput_new transaction_id (wf_index metadata)))) metadata)"

fun record_created ::
  "MessageId \<Rightarrow> TransactionId \<Rightarrow> nat \<Rightarrow> Output list \<Rightarrow> WhiteFlagMetadata \<Rightarrow> LedgerError + WhiteFlagMetadata" where
  "record_created message_id transaction_id index [] metadata = Inr metadata"
| "record_created message_id transaction_id index (output # outputs) metadata =
     bindR (map_errR Ledger_Message (OutputId_new transaction_id (word_of_nat index))) (\<lambda>output_id.
     record_created message_id transaction_id (Suc index) outputs
       (wf_created_outputs_update (\<lambda>m. m(output_id \<mapsto> CreatedOutput_new message_id output)) metadata))"

text \<open>The checks, up to the point where nothing can make the transaction conflicting any more.\<close>

definition check_regular_essence ::
  "deps \<Rightarrow> hash_iter \<Rightarrow> InnerStorage \<Rightarrow> RegularEssence \<Rightarrow> UnlockBlocks \<Rightarrow> WhiteFlagMetadata \<Rightarrow>
   exit + (OutputId \<rightharpoonup> CreatedOutput) \<times> BalanceDiffs" where
  "check_regular_essence d h storage essence unlock_blocks metadata =
     bindR (consume_inputs d storage metadata unlock_blocks (Essence_hash d (Essence_Regular essence)) 0
       (RegularEssence_inputs essence) Map.empty (0, BalanceDiffs_new))
       (\<lambda>(consumed_outputs, consumed_amount, balance_diffs).
     bindR (create_outputs (RegularEssence_outputs essence) (0, balance_diffs)) (\<lambda>(created_amount, balance_diffs).
     if created_amount \<noteq> consumed_amount then Inl (Conflict InputOutputSumMismatch)
     else bindR (check_dust storage metadata (entries (iter_diffs h) balance_diffs)) (\<lambda>_.
       Inr (consumed_outputs, balance_diffs))))"

definition apply_regular_essence ::
  "deps \<Rightarrow> hash_iter \<Rightarrow> InnerStorage \<Rightarrow> MessageId \<Rightarrow> TransactionId \<Rightarrow> RegularEssence \<Rightarrow> UnlockBlocks \<Rightarrow>
   WhiteFlagMetadata \<Rightarrow> LedgerError + ConflictReason \<times> WhiteFlagMetadata" where
  "apply_regular_essence d h storage message_id transaction_id essence unlock_blocks metadata =
     (case check_regular_essence d h storage essence unlock_blocks metadata of
        Inl (Raise e) \<Rightarrow> Inl e
      | Inl (Conflict conflict) \<Rightarrow> Inr (conflict, metadata)
      | Inr (consumed_outputs, balance_diffs) \<Rightarrow>
          bindR (record_created message_id transaction_id 0 (RegularEssence_outputs essence)
            (record_consumed transaction_id (entries (iter_created h) consumed_outputs) metadata)) (\<lambda>metadata.
          bindR (map_errR Ledger_Types (BalanceDiffs_merge (entries (iter_diffs h) balance_diffs)
            (wf_balance_diffs metadata))) (\<lambda>merged.
          Inr (ConflictReason_None, metadata\<lparr>wf_balance_diffs := merged\<rparr>))))"

definition apply_transaction ::
  "deps \<Rightarrow> hash_iter \<Rightarrow> InnerStorage \<Rightarrow> MessageId \<Rightarrow> TransactionPayload \<Rightarrow> WhiteFlagMetadata \<Rightarrow>
   LedgerError + ConflictReason \<times> WhiteFlagMetadata" where
  "apply_transaction d h storage message_id transaction metadata =
     (case TransactionPayload_essence transaction of Essence_Regular essence \<Rightarrow>
        apply_regular_essence d h storage message_id (TransactionPayload_id d transaction) essence
          (TransactionPayload_unlock_blocks transaction) metadata)"

section \<open>Messages\<close>

definition apply_message ::
  "deps \<Rightarrow> hash_iter \<Rightarrow> InnerStorage \<Rightarrow> MessageId \<Rightarrow> Message \<Rightarrow> WhiteFlagMetadata \<Rightarrow>
   LedgerError + WhiteFlagMetadata" where
  "apply_message d h storage message_id message metadata =
     (let metadata = wf_referenced_messages_update Suc metadata in
      case Message_payload message of
        Some (Payload_Transaction transaction) \<Rightarrow>
          bindR (apply_transaction d h storage message_id transaction metadata) (\<lambda>(conflict, metadata).
          Inr (if conflict = ConflictReason_None
               then wf_included_messages_update (\<lambda>xs. xs @ [message_id]) metadata
               else wf_excluded_conflicting_messages_update (\<lambda>xs. xs @ [(message_id, conflict)]) metadata))
      | _ \<Rightarrow> Inr (wf_excluded_no_transaction_messages_update (\<lambda>xs. xs @ [message_id]) metadata))"

text \<open>The stack of the traversal is a vector in the source; here its last element comes first.\<close>

partial_function (option) traverse_past_cone ::
  "deps \<Rightarrow> hash_iter \<Rightarrow> TangleView \<Rightarrow> InnerStorage \<Rightarrow> MessageId set \<Rightarrow> MessageId list \<Rightarrow> WhiteFlagMetadata \<Rightarrow>
   (LedgerError + WhiteFlagMetadata) option" where
  "traverse_past_cone d h tangle storage visited message_ids metadata =
     (case message_ids of
        [] \<Rightarrow> Some (Inr metadata)
      | message_id # rest \<Rightarrow>
          (case view_vertex tangle message_id of
             Some (message, meta) \<Rightarrow>
               if Flags_is_referenced d (MessageMetadata_flags meta)
               then traverse_past_cone d h tangle storage (insert message_id visited) rest metadata
               else (case find (\<lambda>p. p \<notin> visited) (Parents_ids (Message_parents message)) of
                       Some unvisited \<Rightarrow>
                         traverse_past_cone d h tangle storage visited (unvisited # message_id # rest) metadata
                     | None \<Rightarrow>
                         (case apply_message d h storage message_id message metadata of
                            Inl e \<Rightarrow> Some (Inl e)
                          | Inr metadata \<Rightarrow>
                              traverse_past_cone d h tangle storage (insert message_id visited) rest metadata))
           | None \<Rightarrow>
               if \<not> view_is_solid_entry_point tangle message_id then Some (Inl (MissingMessage message_id))
               else traverse_past_cone d h tangle storage (insert message_id visited) rest metadata))"

definition white_flag_checks :: "deps \<Rightarrow> hash_iter \<Rightarrow> WhiteFlagMetadata \<Rightarrow> LedgerError + WhiteFlagMetadata" where
  "white_flag_checks d h metadata =
     (let metadata = metadata\<lparr>wf_merkle_proof := MerkleHasher_digest (blake2b256 d) (wf_included_messages metadata)\<rparr>;
          diff_sum = sum_list (map (BalanceDiff_amount \<circ> snd) (entries (iter_diffs h) (wf_balance_diffs metadata)))
      in
      if wf_referenced_messages metadata \<noteq>
           length (wf_excluded_no_transaction_messages metadata) +
           length (wf_excluded_conflicting_messages metadata) + length (wf_included_messages metadata)
      then Inl (InvalidMessagesCount (wf_referenced_messages metadata)
             (length (wf_excluded_no_transaction_messages metadata))
             (length (wf_excluded_conflicting_messages metadata)) (length (wf_included_messages metadata)))
      else if diff_sum = 0 then Inr metadata
      else Inl (NonZeroBalanceDiffSum diff_sum))"

definition white_flag ::
  "deps \<Rightarrow> hash_iter \<Rightarrow> TangleView \<Rightarrow> InnerStorage \<Rightarrow> MessageId list \<Rightarrow> WhiteFlagMetadata \<Rightarrow>
   (LedgerError + WhiteFlagMetadata) option" where
  "white_flag d h tangle storage message_ids metadata =
     map_option (\<lambda>r. bindR r (white_flag_checks d h))
       (traverse_past_cone d h tangle storage {} message_ids metadata)"

end
