(* ===== verification/Output_Accounting.thy ===== *)
theory Output_Accounting
  imports Ledger_State
begin

text \<open>
  What outputs add to the three entries of a balance (amount, dust allowance, number of dust
  outputs), as integers, and that the operations on balance differences compute exactly that as
  long as no amount reaches \<open>2 ^ 63\<close>.
\<close>

section \<open>Entries\<close>

datatype coord = Coord_Amount | Coord_Allowance | Coord_Dust

fun diff_coord :: "coord \<Rightarrow> BalanceDiff \<Rightarrow> i64" where
  "diff_coord Coord_Amount d = BalanceDiff_amount d"
| "diff_coord Coord_Allowance d = BalanceDiff_dust_allowance d"
| "diff_coord Coord_Dust d = BalanceDiff_dust_outputs d"

fun balance_coord :: "coord \<Rightarrow> Balance \<Rightarrow> u64" where
  "balance_coord Coord_Amount b = Balance_amount b"
| "balance_coord Coord_Allowance b = Balance_dust_allowance b"
| "balance_coord Coord_Dust b = Balance_dust_outputs b"

definition diff_at :: "coord \<Rightarrow> BalanceDiffs \<Rightarrow> Address \<Rightarrow> int" where
  "diff_at c m a = sint (diff_coord c (or_default m a))"

fun output_coord :: "coord \<Rightarrow> Output \<Rightarrow> nat" where
  "output_coord Coord_Amount out = output_amount out"
| "output_coord Coord_Allowance (Output_SignatureLockedDustAllowance out) =
     unat (SignatureLockedDustAllowanceOutput_amount out)"
| "output_coord Coord_Allowance _ = 0"
| "output_coord Coord_Dust (Output_SignatureLockedSingle out) =
     (if SignatureLockedSingleOutput_amount out < DUST_THRESHOLD then 1 else 0)"
| "output_coord Coord_Dust _ = 0"

definition delta :: "coord \<Rightarrow> Output \<Rightarrow> Address \<Rightarrow> int" where
  "delta c out a = (if output_address out = Some a then int (output_coord c out) else 0)"

definition small_output :: "Output \<Rightarrow> bool" where
  "small_output out \<longleftrightarrow> output_amount out < 2 ^ 63"

lemma diff_at_empty [simp]: "diff_at c Map.empty a = 0" "diff_at c BalanceDiffs_new a = 0"
  by (cases c; simp add: diff_at_def or_default_def BalanceDiff_default_def BalanceDiffs_new_def)+

lemma diff_at_upd: "diff_at c (m(b \<mapsto> z)) a = (if a = b then sint (diff_coord c z) else diff_at c m a)"
  by (auto simp: diff_at_def or_default_upd)

lemma sint_small_nat: "unat (n :: u64) < 2 ^ 63 \<Longrightarrow> sint n = int (unat n)"
proof -
  assume "unat n < 2 ^ 63"
  then have "int (unat n) < int (2 ^ 63)" by (simp only: of_nat_less_iff)
  then show ?thesis using sint_small [of n] by simp
qed

section \<open>Differences\<close>

lemma amount_add_at:
  assumes "BalanceDiffs_amount_add b n m = Inr m'" and "unat n < 2 ^ 63"
  shows "diff_at c m' a = diff_at c m a + (if a = b \<and> c = Coord_Amount then int (unat n) else 0)"
  using assms checked_add_i64_Some sint_small_nat [OF assms(2)]
  by (cases c) (auto simp: BalanceDiffs_amount_add_def Let_def bindR_Inr_iff diff_at_upd diff_at_def or_default_upd)

lemma amount_sub_at:
  assumes "BalanceDiffs_amount_sub b n m = Inr m'" and "unat n < 2 ^ 63"
  shows "diff_at c m' a = diff_at c m a - (if a = b \<and> c = Coord_Amount then int (unat n) else 0)"
  using assms checked_sub_i64_Some sint_small_nat [OF assms(2)]
  by (cases c) (auto simp: BalanceDiffs_amount_sub_def Let_def bindR_Inr_iff diff_at_upd diff_at_def or_default_upd)

lemma allowance_add_at:
  assumes "BalanceDiffs_dust_allowance_add b n m = Inr m'" and "unat n < 2 ^ 63"
  shows "diff_at c m' a = diff_at c m a + (if a = b \<and> c = Coord_Allowance then int (unat n) else 0)"
  using assms checked_add_i64_Some sint_small_nat [OF assms(2)]
  by (cases c) (auto simp: BalanceDiffs_dust_allowance_add_def Let_def bindR_Inr_iff diff_at_upd diff_at_def or_default_upd)

lemma allowance_sub_at:
  assumes "BalanceDiffs_dust_allowance_sub b n m = Inr m'" and "unat n < 2 ^ 63"
  shows "diff_at c m' a = diff_at c m a - (if a = b \<and> c = Coord_Allowance then int (unat n) else 0)"
  using assms checked_sub_i64_Some sint_small_nat [OF assms(2)]
  by (cases c) (auto simp: BalanceDiffs_dust_allowance_sub_def Let_def bindR_Inr_iff diff_at_upd diff_at_def or_default_upd)

lemma dust_inc_at:
  assumes "BalanceDiffs_dust_outputs_inc b m = Inr m'"
  shows "diff_at c m' a = diff_at c m a + (if a = b \<and> c = Coord_Dust then 1 else 0)"
  using assms checked_add_i64_Some
  by (cases c) (auto simp: BalanceDiffs_dust_outputs_inc_def Let_def bindR_Inr_iff diff_at_upd diff_at_def or_default_upd)

lemma dust_dec_at:
  assumes "BalanceDiffs_dust_outputs_dec b m = Inr m'"
  shows "diff_at c m' a = diff_at c m a - (if a = b \<and> c = Coord_Dust then 1 else 0)"
  using assms checked_sub_i64_Some
  by (cases c) (auto simp: BalanceDiffs_dust_outputs_dec_def Let_def bindR_Inr_iff diff_at_upd diff_at_def or_default_upd)

lemma output_add_at:
  assumes "BalanceDiffs_output_add out m = Inr m'" and "small_output out"
  shows "diff_at c m' a = diff_at c m a + delta c out a"
proof (cases out)
  case (Output_SignatureLockedSingle x)
  let ?b = "SignatureLockedSingleOutput_address x" and ?n = "SignatureLockedSingleOutput_amount x"
  from assms Output_SignatureLockedSingle obtain m1
    where m1: "BalanceDiffs_amount_add ?b ?n m = Inr m1" and n: "unat ?n < 2 ^ 63"
      and m': "(if ?n < DUST_THRESHOLD then BalanceDiffs_dust_outputs_inc ?b m1 else Inr m1) = Inr m'"
    by (auto simp: BalanceDiffs_output_add_def bindR_Inr_iff small_output_def)
  have "diff_at c m' a = diff_at c m1 a + (if a = ?b \<and> c = Coord_Dust \<and> ?n < DUST_THRESHOLD then 1 else 0)"
  proof (cases "?n < DUST_THRESHOLD")
    case True
    with m' show ?thesis using dust_inc_at [of ?b m1 m' c a] by simp
  next
    case False
    with m' show ?thesis by simp
  qed
  then show ?thesis
    unfolding amount_add_at [OF m1 n] by (cases c) (auto simp: delta_def Output_SignatureLockedSingle)
next
  case (Output_SignatureLockedDustAllowance x)
  let ?b = "SignatureLockedDustAllowanceOutput_address x" and ?n = "SignatureLockedDustAllowanceOutput_amount x"
  from assms Output_SignatureLockedDustAllowance obtain m1
    where m1: "BalanceDiffs_amount_add ?b ?n m = Inr m1" and n: "unat ?n < 2 ^ 63"
      and m': "BalanceDiffs_dust_allowance_add ?b ?n m1 = Inr m'"
    by (auto simp: BalanceDiffs_output_add_def bindR_Inr_iff small_output_def)
  show ?thesis
    unfolding allowance_add_at [OF m' n] amount_add_at [OF m1 n]
    by (cases c) (auto simp: delta_def Output_SignatureLockedDustAllowance)
qed (use assms in \<open>simp add: BalanceDiffs_output_add_def\<close>)

lemma output_sub_at:
  assumes "BalanceDiffs_output_sub out m = Inr m'" and "small_output out"
  shows "diff_at c m' a = diff_at c m a - delta c out a"
proof (cases out)
  case (Output_SignatureLockedSingle x)
  let ?b = "SignatureLockedSingleOutput_address x" and ?n = "SignatureLockedSingleOutput_amount x"
  from assms Output_SignatureLockedSingle obtain m1
    where m1: "BalanceDiffs_amount_sub ?b ?n m = Inr m1" and n: "unat ?n < 2 ^ 63"
      and m': "(if ?n < DUST_THRESHOLD then BalanceDiffs_dust_outputs_dec ?b m1 else Inr m1) = Inr m'"
    by (auto simp: BalanceDiffs_output_sub_def bindR_Inr_iff small_output_def)
  have "diff_at c m' a = diff_at c m1 a - (if a = ?b \<and> c = Coord_Dust \<and> ?n < DUST_THRESHOLD then 1 else 0)"
  proof (cases "?n < DUST_THRESHOLD")
    case True
    with m' show ?thesis using dust_dec_at [of ?b m1 m' c a] by simp
  next
    case False
    with m' show ?thesis by simp
  qed
  then show ?thesis
    unfolding amount_sub_at [OF m1 n] by (cases c) (auto simp: delta_def Output_SignatureLockedSingle)
next
  case (Output_SignatureLockedDustAllowance x)
  let ?b = "SignatureLockedDustAllowanceOutput_address x" and ?n = "SignatureLockedDustAllowanceOutput_amount x"
  from assms Output_SignatureLockedDustAllowance obtain m1
    where m1: "BalanceDiffs_amount_sub ?b ?n m = Inr m1" and n: "unat ?n < 2 ^ 63"
      and m': "BalanceDiffs_dust_allowance_sub ?b ?n m1 = Inr m'"
    by (auto simp: BalanceDiffs_output_sub_def bindR_Inr_iff small_output_def)
  show ?thesis
    unfolding allowance_sub_at [OF m' n] amount_sub_at [OF m1 n]
    by (cases c) (auto simp: delta_def Output_SignatureLockedDustAllowance)
qed (use assms in \<open>simp add: BalanceDiffs_output_sub_def\<close>)

lemma merge_at:
  assumes "BalanceDiffs_merge other m = Inr m'" and "distinct (map fst other)"
  shows "diff_at c m' a = diff_at c m a + diff_at c (map_of other) a"
  using BalanceDiffs_merge_Inr [OF assms, of a]
  by (cases c) (auto simp: diff_sum_def diff_at_def dest!: checked_add_i64_Some)

lemma apply_diff_coord:
  assumes "Balance_small b" and "Balance_apply_diff x b = Inr b'"
  shows "int (unat (balance_coord c b')) = int (unat (balance_coord c b)) + sint (diff_coord c x)"
  using assms by (cases c) (auto simp: Balance_apply_diff_Inr_iff applied_def)

text \<open>The sum of all amounts, as words: an output adds or subtracts its amount.\<close>

fun output_word :: "Output \<Rightarrow> u64" where
  "output_word (Output_SignatureLockedSingle out) = SignatureLockedSingleOutput_amount out"
| "output_word (Output_SignatureLockedDustAllowance out) = SignatureLockedDustAllowanceOutput_amount out"
| "output_word (Output_Treasury _) = 0"

lemma dust_amount:
  "BalanceDiffs_dust_allowance_add a n m = Inr m' \<Longrightarrow> finite (dom m) \<Longrightarrow>
     diffs_amount m' = diffs_amount m \<and> finite (dom m')"
  "BalanceDiffs_dust_allowance_sub a n m = Inr m' \<Longrightarrow> finite (dom m) \<Longrightarrow>
     diffs_amount m' = diffs_amount m \<and> finite (dom m')"
  "BalanceDiffs_dust_outputs_inc a m = Inr m' \<Longrightarrow> finite (dom m) \<Longrightarrow>
     diffs_amount m' = diffs_amount m \<and> finite (dom m')"
  "BalanceDiffs_dust_outputs_dec a m = Inr m' \<Longrightarrow> finite (dom m) \<Longrightarrow>
     diffs_amount m' = diffs_amount m \<and> finite (dom m')"
  by (simp_all add: BalanceDiffs_dust_Inr [where a = a and n = n and m = m and m' = m'])

lemma output_add_amount:
  assumes "BalanceDiffs_output_add out m = Inr m'" and "finite (dom m)"
  shows "diffs_amount m' = diffs_amount m + output_word out \<and> finite (dom m')"
  using assms by (cases out)
    (auto simp: BalanceDiffs_output_add_def bindR_Inr_iff split: if_splits
      dest!: BalanceDiffs_amount_add_Inr dust_amount)

lemma output_sub_amount:
  assumes "BalanceDiffs_output_sub out m = Inr m'" and "finite (dom m)"
  shows "diffs_amount m' = diffs_amount m - output_word out \<and> finite (dom m')"
  using assms by (cases out)
    (auto simp: BalanceDiffs_output_sub_def bindR_Inr_iff split: if_splits
      dest!: BalanceDiffs_amount_sub_Inr dust_amount)

lemma output_amount_word: "output_amount out = unat (output_word out)"
  by (cases out) simp_all

end
