(* ===== verification/White_Flag_Laws.thy ===== *)
theory White_Flag_Laws
  imports White_Flag Output_Accounting
begin

text \<open>
  What the White Flag confirmation does with one transaction: a transaction is included exactly if it
  spends available outputs with their owners' signatures, creates as much as it consumes and keeps
  the dust rule; its effects on the metadata are those of the outputs it consumes and creates.
\<close>

section \<open>Consuming and creating outputs\<close>

text \<open>The outputs a transaction may spend: those of the ledger and of the milestone that neither has
  spent.\<close>

definition available :: "InnerStorage \<Rightarrow> WhiteFlagMetadata \<Rightarrow> OutputId \<rightharpoonup> CreatedOutput" where
  "available s md i =
     (if wf_consumed_outputs md i \<noteq> None then None
      else case wf_created_outputs md i of
        Some x \<Rightarrow> Some x
      | None \<Rightarrow> if is_output_unspent s i then fetch_output s i else None)"

fun input_id :: "Input \<Rightarrow> OutputId option" where
  "input_id (Input_Utxo utxo) = Some (UtxoInput_output_id utxo)"
| "input_id (Input_Treasury _) = None"

definition input_ids :: "Input list \<Rightarrow> OutputId set" where
  "input_ids inputs = {i. \<exists>input \<in> set inputs. input_id input = Some i}"

definition spent :: "InnerStorage \<Rightarrow> WhiteFlagMetadata \<Rightarrow> Input \<Rightarrow> Output" where
  "spent s md input = CreatedOutput_inner (the (available s md (the (input_id input))))"

definition can_spend ::
  "deps \<Rightarrow> InnerStorage \<Rightarrow> WhiteFlagMetadata \<Rightarrow> UnlockBlocks \<Rightarrow> byte list \<Rightarrow> nat \<Rightarrow> Input \<Rightarrow> bool" where
  "can_spend d s md unlock_blocks essence_hash k input \<longleftrightarrow>
     (\<exists>i x a. input_id input = Some i \<and> available s md i = Some x \<and>
        output_address (CreatedOutput_inner x) = Some a \<and> verify_signature d a unlock_blocks k essence_hash)"

definition moves :: "coord \<Rightarrow> Output list \<Rightarrow> Address \<Rightarrow> int" where
  "moves c outs a = (\<Sum>out\<leftarrow>outs. delta c out a)"

lemma moves_simps [simp]: "moves c [] a = 0" "moves c (out # outs) a = delta c out a + moves c outs a"
  by (simp_all add: moves_def)

lemma fetch_input_Inr_iff:
  "fetch_input s md input = Inr (i, x) \<longleftrightarrow> input_id input = Some i \<and> available s md i = Some x"
  by (cases input) (auto simp: fetch_input_def available_def Let_def split: option.splits)

lemma fetch_input_Conflict:
  "fetch_input s md input = Inl (Conflict r) \<Longrightarrow> \<not> can_spend d s md ub eh k input \<and> r \<noteq> ConflictReason_None"
  by (cases input) (auto simp: fetch_input_def available_def can_spend_def Let_def split: option.splits if_splits)

lemma consume_output_Inr_iff:
  "consume_output d ub k eh x (n, m) = Inr (n', m') \<longleftrightarrow>
     checked_add_u64 n (output_word (CreatedOutput_inner x)) = Some n' \<and>
     BalanceDiffs_output_sub (CreatedOutput_inner x) m = Inr m' \<and>
     (\<exists>a. output_address (CreatedOutput_inner x) = Some a \<and> verify_signature d a ub k eh)"
  by (cases "CreatedOutput_inner x")
    (auto simp: consume_output_def BalanceDiffs_output_sub_def Let_def bindR_Inr_iff split: if_splits)

lemma map_errR_not_Conflict: "map_errR (Raise \<circ> f) r \<noteq> Inl (Conflict c)" "ok_or (Raise e) o' \<noteq> Inl (Conflict c)"
  by (cases r; simp) (cases o'; simp)

lemma consume_output_Conflict:
  "consume_output d ub k eh x acc = Inl (Conflict r) \<Longrightarrow> r \<noteq> ConflictReason_None \<and>
     \<not> (\<exists>a. output_address (CreatedOutput_inner x) = Some a \<and> verify_signature d a ub k eh)"
  by (cases acc; cases "CreatedOutput_inner x")
    (auto simp: consume_output_def Let_def bindR_Inl_iff map_errR_not_Conflict split: if_splits)

lemma create_output_diff_Inr_iff:
  "create_output_diff out (n, m) = Inr (n', m') \<longleftrightarrow>
     checked_add_u64 n (output_word out) = Some n' \<and> BalanceDiffs_output_add out m = Inr m'"
  by (cases out)
    (auto simp: create_output_diff_def BalanceDiffs_output_add_def Let_def bindR_Inr_iff split: if_splits)

lemma create_outputs_not_Conflict: "create_outputs outs acc \<noteq> Inl (Conflict r)"
proof (induction outs arbitrary: acc)
  case (Cons out outs)
  have "create_output_diff out acc \<noteq> Inl (Conflict r)"
    by (cases acc; cases out)
      (auto simp: create_output_diff_def Let_def bindR_Inl_iff map_errR_not_Conflict split: if_splits)
  with Cons show ?case by (auto simp: bindR_Inl_iff)
qed simp

lemma checked_add_word: "checked_add_u64 n x = Some n' \<Longrightarrow> n' = n + x"
  by (auto simp: checked_add_u64_def split: if_splits)

lemma consume_inputs_Inr:
  assumes "consume_inputs d s md ub eh k inputs cons (n, m) = Inr (cons', n', m')"
  shows "(\<forall>j < length inputs. can_spend d s md ub eh (k + j) (inputs ! j)) \<and>
    cons' = (\<lambda>i. if i \<in> input_ids inputs then available s md i else cons i) \<and>
    unat n' = unat n + (\<Sum>input\<leftarrow>inputs. output_amount (spent s md input)) \<and>
    (\<forall>c a. (\<forall>input \<in> set inputs. small_output (spent s md input)) \<longrightarrow>
       diff_at c m' a = diff_at c m a - moves c (map (spent s md) inputs) a) \<and>
    (finite (dom m) \<longrightarrow> finite (dom m') \<and> diffs_amount m' + n' = diffs_amount m + n)"
  using assms
proof (induction inputs arbitrary: k cons n m)
  case Nil
  then show ?case by (simp add: input_ids_def)
next
  case (Cons input inputs)
  from Cons.prems obtain i x n1 m1 where
    f: "input_id input = Some i" "available s md i = Some x" and
    c: "consume_output d ub k eh x (n, m) = Inr (n1, m1)" and
    r: "consume_inputs d s md ub eh (Suc k) inputs (cons(i \<mapsto> x)) (n1, m1) = Inr (cons', n', m')"
    by (auto simp: bindR_Inr_iff fetch_input_Inr_iff split: prod.splits)
  note IH = Cons.IH [OF r]
  have sp: "spent s md input = CreatedOutput_inner x" using f by (simp add: spent_def)
  note c' = c [unfolded consume_output_Inr_iff]
  have cs: "can_spend d s md ub eh k input" using f c' by (auto simp: can_spend_def)
  have "\<forall>j < length (input # inputs). can_spend d s md ub eh (k + j) ((input # inputs) ! j)"
    using cs IH by (auto simp: nth_Cons split: nat.splits)
  moreover have "cons' = (\<lambda>j. if j \<in> input_ids (input # inputs) then available s md j else cons j)"
    using IH f by (auto simp: input_ids_def fun_eq_iff)
  moreover have "unat n' = unat n + (\<Sum>input\<leftarrow>input # inputs. output_amount (spent s md input))"
    using IH c' checked_add_u64_Some by (auto simp: sp output_amount_word)
  moreover have "diff_at c m' a = diff_at c m a - moves c (map (spent s md) (input # inputs)) a"
    if "\<forall>input \<in> set (input # inputs). small_output (spent s md input)" for c a
    using IH that output_sub_at [of _ m m1 c a] c' by (simp add: sp)
  moreover have "finite (dom m') \<and> diffs_amount m' + n' = diffs_amount m + n" if "finite (dom m)"
    using IH that output_sub_amount [of _ m m1] c' checked_add_word by fastforce
  ultimately show ?case by blast
qed

lemma consume_inputs_Conflict:
  assumes "consume_inputs d s md ub eh k inputs cons acc = Inl (Conflict r)"
  shows "(\<exists>j < length inputs. \<not> can_spend d s md ub eh (k + j) (inputs ! j)) \<and> r \<noteq> ConflictReason_None"
  using assms
proof (induction inputs arbitrary: k cons acc)
  case (Cons input inputs)
  show ?case
  proof (cases "fetch_input s md input")
    case (Inl e)
    with Cons.prems fetch_input_Conflict [of s md input r] show ?thesis by force
  next
    case (Inr ix)
    obtain i x where ix: "ix = (i, x)" by (cases ix)
    with Inr have f: "input_id input = Some i" "available s md i = Some x" by (auto simp: fetch_input_Inr_iff)
    show ?thesis
    proof (cases "consume_output d ub k eh x acc")
      case (Inl e)
      with Cons.prems Inr ix consume_output_Conflict [of d ub k eh x acc r] f show ?thesis
        by (force simp: can_spend_def)
    next
      case (Inr acc')
      with Cons.prems \<open>fetch_input s md input = Inr ix\<close> ix
      have "consume_inputs d s md ub eh (Suc k) inputs (cons(i \<mapsto> x)) acc' = Inl (Conflict r)" by simp
      from Cons.IH [OF this] show ?thesis by force
    qed
  qed
qed simp

lemma create_outputs_Inr:
  assumes "create_outputs outs (n, m) = Inr (n', m')"
  shows "unat n' = unat n + (\<Sum>out\<leftarrow>outs. output_amount out) \<and>
    (\<forall>c a. (\<forall>out \<in> set outs. small_output out) \<longrightarrow> diff_at c m' a = diff_at c m a + moves c outs a) \<and>
    (finite (dom m) \<longrightarrow> finite (dom m') \<and> diffs_amount m' - n' = diffs_amount m - n)"
  using assms
proof (induction outs arbitrary: n m)
  case (Cons out outs)
  from Cons.prems obtain n1 m1 where c: "create_output_diff out (n, m) = Inr (n1, m1)"
    and r: "create_outputs outs (n1, m1) = Inr (n', m')"
    by (auto simp: bindR_Inr_iff)
  note IH = Cons.IH [OF r] and c' = c [unfolded create_output_diff_Inr_iff]
  have "unat n' = unat n + (\<Sum>out\<leftarrow>out # outs. output_amount out)"
    using IH c' checked_add_u64_Some by (auto simp: output_amount_word)
  moreover have "diff_at c m' a = diff_at c m a + moves c (out # outs) a"
    if "\<forall>out \<in> set (out # outs). small_output out" for c a
    using IH that output_add_at [of out m m1 c a] c' by simp
  moreover have "finite (dom m') \<and> diffs_amount m' - n' = diffs_amount m - n" if "finite (dom m)"
    using IH that output_add_amount [of out m m1] c' checked_add_word by fastforce
  ultimately show ?case by blast
qed simp

section \<open>The dust rule\<close>

definition dust_rule :: "int \<Rightarrow> int \<Rightarrow> bool" where
  "dust_rule allowance outputs \<longleftrightarrow>
     outputs \<le> min (uint DUST_OUTPUTS_MAX) (allowance div uint DUST_ALLOWANCE_DIVISOR)"

lemma dust_rule_mono: "dust_rule x y \<Longrightarrow> x \<le> x' \<Longrightarrow> y' \<le> y \<Longrightarrow> dust_rule x' y'"
  using zdiv_mono1 [of x x' "uint DUST_ALLOWANCE_DIVISOR"]
  by (auto simp: dust_rule_def DUST_ALLOWANCE_DIVISOR_def)

lemma dust_ok_rule:
  "dust_ok b \<longleftrightarrow> dust_rule (int (unat (Balance_dust_allowance b))) (int (unat (Balance_dust_outputs b)))"
  by (simp add: dust_ok_def dust_rule_def word_le_def dust_outputs_max_def uint_div min_def
      del: of_nat_unat) (auto simp: word_le_def uint_div)

definition balance_at :: "InnerStorage \<Rightarrow> WhiteFlagMetadata \<Rightarrow> coord \<Rightarrow> Address \<Rightarrow> int" where
  "balance_at s md c a =
     int (unat (balance_coord c (fetch_balance_or_default s a))) + diff_at c (wf_balance_diffs md) a"

definition balances_small :: "InnerStorage \<Rightarrow> bool" where
  "balances_small s \<longleftrightarrow> (\<forall>a. Balance_small (fetch_balance_or_default s a))"

lemma balance_at_applied:
  assumes "balances_small s" and b: "Balance_apply_diff x (fetch_balance_or_default s a) = Inr b"
    and b': "(case wf_balance_diffs md a of
      Some diff \<Rightarrow> map_errR f (Balance_apply_diff diff b) | None \<Rightarrow> Inr b) = Inr b'"
  shows "int (unat (balance_coord c b')) = balance_at s md c a + sint (diff_coord c x)"
proof -
  have small: "Balance_small (fetch_balance_or_default s a)" using assms(1) by (simp add: balances_small_def)
  note b1 = apply_diff_coord [OF small b, of c]
  show ?thesis
  proof (cases "wf_balance_diffs md a")
    case None
    with b' b1 show ?thesis
      by (cases c) (simp_all add: balance_at_def diff_at_def or_default_def BalanceDiff_default_def)
  next
    case (Some y)
    with b' have "Balance_apply_diff y b = Inr b'" by simp
    from apply_diff_coord [OF Balance_apply_diff_small [OF small b] this, of c] b1 Some
    show ?thesis by (simp add: balance_at_def diff_at_def or_default_def)
  qed
qed

definition dust_respected :: "InnerStorage \<Rightarrow> WhiteFlagMetadata \<Rightarrow> Address \<Rightarrow> int \<Rightarrow> int \<Rightarrow> bool" where
  "dust_respected s md a x y \<longleftrightarrow>
     (x < 0 \<or> 0 < y \<longrightarrow> dust_rule (balance_at s md Coord_Allowance a + x) (balance_at s md Coord_Dust a + y))"

lemma check_dust_Inr:
  assumes "balances_small s" and "check_dust s md es = Inr ()" and "(a, x) \<in> set es"
  shows "dust_respected s md a (sint (BalanceDiff_dust_allowance x)) (sint (BalanceDiff_dust_outputs x))"
  using assms(2,3)
proof (induction es)
  case (Cons e es)
  obtain b y where e: "e = (b, y)" by (cases e)
  show ?case
  proof (cases "(a, x) = (b, y) \<and> BalanceDiff_is_dust_mutating x")
    case True
    with Cons.prems e obtain b1 b2 where
      "Balance_apply_diff x (fetch_balance_or_default s a) = Inr b1"
      "(case wf_balance_diffs md a of
        Some diff \<Rightarrow> map_errR (Raise \<circ> Ledger_Types) (Balance_apply_diff diff b1) | None \<Rightarrow> Inr b1) = Inr b2"
      "dust_ok b2"
      by (auto simp: bindR_Inr_iff dust_ok_def not_less split: if_splits)
    with balance_at_applied [OF \<open>balances_small s\<close> this(1,2), of Coord_Allowance]
      balance_at_applied [OF \<open>balances_small s\<close> this(1,2), of Coord_Dust]
    show ?thesis by (simp add: dust_respected_def dust_ok_rule)
  next
    case False
    with Cons e show ?thesis
      by (auto simp: dust_respected_def BalanceDiff_is_dust_mutating_def bindR_Inr_iff split: if_splits)
  qed
qed simp

lemma check_dust_Conflict:
  assumes "balances_small s" and "check_dust s md es = Inl (Conflict r)"
  shows "r = InvalidDustAllowance \<and> (\<exists>(a, x) \<in> set es.
    \<not> dust_respected s md a (sint (BalanceDiff_dust_allowance x)) (sint (BalanceDiff_dust_outputs x)))"
  using assms(2)
proof (induction es)
  case (Cons e es)
  obtain b y where e: "e = (b, y)" by (cases e)
  show ?case
  proof (cases "check_dust s md es = Inl (Conflict r)")
    case True
    with Cons.IH e show ?thesis by auto
  next
    case False
    with Cons.prems e obtain b1 b2 where m: "BalanceDiff_is_dust_mutating y" and
      b: "Balance_apply_diff y (fetch_balance_or_default s b) = Inr b1"
      "(case wf_balance_diffs md b of
        Some diff \<Rightarrow> map_errR (Raise \<circ> Ledger_Types) (Balance_apply_diff diff b1) | None \<Rightarrow> Inr b1) = Inr b2"
      and "\<not> dust_ok b2" "r = InvalidDustAllowance"
      by (auto simp: bindR_Inl_iff dust_ok_def not_le map_errR_not_Conflict split: if_splits option.splits)
    with balance_at_applied [OF \<open>balances_small s\<close> b, of Coord_Allowance]
      balance_at_applied [OF \<open>balances_small s\<close> b, of Coord_Dust]
    have "\<not> dust_respected s md b (sint (BalanceDiff_dust_allowance y)) (sint (BalanceDiff_dust_outputs y))"
      by (auto simp: dust_respected_def dust_ok_rule BalanceDiff_is_dust_mutating_def)
    with \<open>r = InvalidDustAllowance\<close> e show ?thesis by auto
  qed
qed simp

section \<open>One transaction\<close>

definition tx_diff :: "InnerStorage \<Rightarrow> WhiteFlagMetadata \<Rightarrow> RegularEssence \<Rightarrow> coord \<Rightarrow> Address \<Rightarrow> int" where
  "tx_diff s md e c a =
     moves c (RegularEssence_outputs e) a - moves c (map (spent s md) (RegularEssence_inputs e)) a"

definition essence_acceptable ::
  "deps \<Rightarrow> InnerStorage \<Rightarrow> WhiteFlagMetadata \<Rightarrow> UnlockBlocks \<Rightarrow> RegularEssence \<Rightarrow> bool" where
  "essence_acceptable d s md ub e \<longleftrightarrow>
     (\<forall>j < length (RegularEssence_inputs e).
        can_spend d s md ub (Essence_hash d (Essence_Regular e)) j (RegularEssence_inputs e ! j)) \<and>
     (\<Sum>out\<leftarrow>RegularEssence_outputs e. output_amount out) =
       (\<Sum>input\<leftarrow>RegularEssence_inputs e. output_amount (spent s md input)) \<and>
     (\<forall>a. dust_respected s md a (tx_diff s md e Coord_Allowance a) (tx_diff s md e Coord_Dust a))"

text \<open>Amounts for which the differences are exact: balances, available outputs and the outputs of
  the transaction are below \<open>2 ^ 63\<close>.\<close>

definition amounts_small :: "InnerStorage \<Rightarrow> WhiteFlagMetadata \<Rightarrow> RegularEssence \<Rightarrow> bool" where
  "amounts_small s md e \<longleftrightarrow> balances_small s \<and>
     (\<forall>i x. available s md i = Some x \<longrightarrow> small_output (CreatedOutput_inner x)) \<and>
     (\<forall>out \<in> set (RegularEssence_outputs e). small_output out)"

lemma spent_small:
  assumes "amounts_small s md e" and "\<forall>j < length inputs. can_spend d s md ub eh j (inputs ! j)"
  shows "\<forall>input \<in> set inputs. small_output (spent s md input)"
  using assms by (fastforce simp: amounts_small_def spent_def can_spend_def in_set_conv_nth)

lemma check_regular_essence_consumed:
  assumes "check_regular_essence d h s e ub md = Inr (consumed, m)"
  shows "finite (dom m) \<and> diffs_amount m = 0 \<and>
    consumed = (\<lambda>i. if i \<in> input_ids (RegularEssence_inputs e) then available s md i else None)"
proof -
  from assms obtain n1 m1 where
    c: "consume_inputs d s md ub (Essence_hash d (Essence_Regular e)) 0 (RegularEssence_inputs e)
      Map.empty (0, BalanceDiffs_new) = Inr (consumed, n1, m1)" and
    o': "create_outputs (RegularEssence_outputs e) (0, m1) = Inr (n1, m)"
    by (auto simp: check_regular_essence_def bindR_Inr_iff split: if_splits)
  have "finite (dom BalanceDiffs_new)" "diffs_amount BalanceDiffs_new = 0"
    by (simp_all add: BalanceDiffs_new_def diffs_amount_def)
  then show ?thesis using consume_inputs_Inr [OF c] create_outputs_Inr [OF o'] by (auto simp: algebra_simps)
qed

lemma check_regular_essence_amounts:
  assumes "amounts_small s md e"
    and c: "consume_inputs d s md ub (Essence_hash d (Essence_Regular e)) 0 (RegularEssence_inputs e)
      Map.empty (0, BalanceDiffs_new) = Inr (consumed, n1, m1)"
    and o': "create_outputs (RegularEssence_outputs e) (0, m1) = Inr (n2, m)"
  shows "\<forall>j < length (RegularEssence_inputs e).
      can_spend d s md ub (Essence_hash d (Essence_Regular e)) j (RegularEssence_inputs e ! j)"
    and "unat n1 = (\<Sum>input\<leftarrow>RegularEssence_inputs e. output_amount (spent s md input))"
    and "unat n2 = (\<Sum>out\<leftarrow>RegularEssence_outputs e. output_amount out)"
    and "diff_at c m a = tx_diff s md e c a" and "finite (dom m)"
proof -
  have new: "finite (dom BalanceDiffs_new)" by (simp add: BalanceDiffs_new_def)
  note ci = consume_inputs_Inr [OF c] and co = create_outputs_Inr [OF o']
  from ci show spend: "\<forall>j < length (RegularEssence_inputs e).
      can_spend d s md ub (Essence_hash d (Essence_Regular e)) j (RegularEssence_inputs e ! j)" by simp
  show "unat n1 = (\<Sum>input\<leftarrow>RegularEssence_inputs e. output_amount (spent s md input))" using ci by simp
  show "unat n2 = (\<Sum>out\<leftarrow>RegularEssence_outputs e. output_amount out)" using co by simp
  show "finite (dom m)" using ci co new by simp
  show "diff_at c m a = tx_diff s md e c a"
    using ci co spent_small [OF assms(1) spend] assms(1) by (simp add: tx_diff_def amounts_small_def)
qed

lemma check_dust_entries:
  assumes "hash_iter_spec h" and "balances_small s" and "finite (dom m)"
  shows "check_dust s md (entries (iter_diffs h) m) = Inr () \<Longrightarrow>
      \<forall>a. dust_respected s md a (diff_at Coord_Allowance m a) (diff_at Coord_Dust m a)"
    and "check_dust s md (entries (iter_diffs h) m) = Inl (Conflict r) \<Longrightarrow>
      r = InvalidDustAllowance \<and> (\<exists>a. \<not> dust_respected s md a (diff_at Coord_Allowance m a) (diff_at Coord_Dust m a))"
proof -
  note es = entries_eq [OF hash_iter_specD(1) [OF assms(1)] assms(3)]
  have at: "diff_at c m a = sint (diff_coord c x)" if "m a = Some x" for a x c
    using that by (simp add: diff_at_def or_default_def)
  { assume ok: "check_dust s md (entries (iter_diffs h) m) = Inr ()"
    show "\<forall>a. dust_respected s md a (diff_at Coord_Allowance m a) (diff_at Coord_Dust m a)"
    proof
      fix a
      show "dust_respected s md a (diff_at Coord_Allowance m a) (diff_at Coord_Dust m a)"
      proof (cases "m a")
        case None
        then have "diff_at c m a = 0" for c
          by (cases c) (simp_all add: diff_at_def or_default_def BalanceDiff_default_def)
        then show ?thesis by (simp add: dust_respected_def)
      next
        case (Some x)
        with check_dust_Inr [OF assms(2) ok, of a x] show ?thesis by (simp add: at es)
      qed
    qed }
  assume "check_dust s md (entries (iter_diffs h) m) = Inl (Conflict r)"
  from check_dust_Conflict [OF assms(2) this] obtain a x where
    "r = InvalidDustAllowance" "m a = Some x"
    "\<not> dust_respected s md a (sint (BalanceDiff_dust_allowance x)) (sint (BalanceDiff_dust_outputs x))"
    unfolding es by auto
  then show "r = InvalidDustAllowance \<and> (\<exists>a. \<not> dust_respected s md a (diff_at Coord_Allowance m a) (diff_at Coord_Dust m a))"
    by (auto simp: at intro!: exI [of _ a])
qed

lemma check_regular_essence_Inr:
  assumes "hash_iter_spec h" and small: "amounts_small s md e"
    and "check_regular_essence d h s e ub md = Inr (consumed, m)"
  shows "essence_acceptable d s md ub e" and "diff_at c m a = tx_diff s md e c a"
proof -
  from assms(3) obtain n1 m1 where
    c: "consume_inputs d s md ub (Essence_hash d (Essence_Regular e)) 0 (RegularEssence_inputs e)
      Map.empty (0, BalanceDiffs_new) = Inr (consumed, n1, m1)" and
    o': "create_outputs (RegularEssence_outputs e) (0, m1) = Inr (n1, m)" and
    dust: "check_dust s md (entries (iter_diffs h) m) = Inr ()"
    by (auto simp: check_regular_essence_def bindR_Inr_iff split: if_splits)
  note am = check_regular_essence_amounts [OF small c o']
  show "diff_at c m a = tx_diff s md e c a" by (rule am(4))
  have "balances_small s" using small by (simp add: amounts_small_def)
  from check_dust_entries(1) [OF assms(1) this am(5) dust] am(1-4)
  show "essence_acceptable d s md ub e" by (simp add: essence_acceptable_def)
qed

lemma check_regular_essence_Conflict:
  assumes "hash_iter_spec h" and small: "amounts_small s md e"
    and conf: "check_regular_essence d h s e ub md = Inl (Conflict r)"
  shows "\<not> essence_acceptable d s md ub e \<and> r \<noteq> ConflictReason_None"
proof (cases "consume_inputs d s md ub (Essence_hash d (Essence_Regular e)) 0 (RegularEssence_inputs e)
      Map.empty (0, BalanceDiffs_new)")
  case (Inl x)
  with conf have "x = Conflict r" by (simp add: check_regular_essence_def)
  from consume_inputs_Conflict [OF Inl [unfolded this]] show ?thesis by (auto simp: essence_acceptable_def)
next
  case (Inr acc)
  then obtain consumed n1 m1 where
    c: "consume_inputs d s md ub (Essence_hash d (Essence_Regular e)) 0 (RegularEssence_inputs e)
      Map.empty (0, BalanceDiffs_new) = Inr (consumed, n1, m1)" by (cases acc) auto
  show ?thesis
  proof (cases "create_outputs (RegularEssence_outputs e) (0, m1)")
    case (Inl x)
    with conf c create_outputs_not_Conflict [of "RegularEssence_outputs e" "(0, m1)" r]
    show ?thesis by (simp add: check_regular_essence_def)
  next
    case (Inr acc')
    then obtain n2 m where o': "create_outputs (RegularEssence_outputs e) (0, m1) = Inr (n2, m)"
      by (cases acc') auto
    note am = check_regular_essence_amounts [OF small c o']
    show ?thesis
    proof (cases "n2 = n1")
      case False
      then have "unat n2 \<noteq> unat n1" by (simp add: word_unat_eq_iff)
      with conf c o' False am(2,3) show ?thesis by (auto simp: check_regular_essence_def essence_acceptable_def)
    next
      case True
      with conf c o' have "check_dust s md (entries (iter_diffs h) m) = Inl (Conflict r)"
        by (auto simp: check_regular_essence_def bindR_Inl_iff)
      moreover have "balances_small s" using small by (simp add: amounts_small_def)
      ultimately show ?thesis
        using check_dust_entries(2) [OF assms(1) _ am(5)] am(4) by (auto simp: essence_acceptable_def)
    qed
  qed
qed

section \<open>Recording a transaction\<close>

text \<open>The outputs from a position on, under the output identifiers of the transaction.\<close>

definition created_from :: "MessageId \<Rightarrow> TransactionId \<Rightarrow> nat \<Rightarrow> Output list \<Rightarrow> OutputId \<rightharpoonup> CreatedOutput" where
  "created_from message_id transaction_id k outs i =
     (if OutputId_transaction_id i = transaction_id \<and> k \<le> unat (OutputId_index i) \<and>
         unat (OutputId_index i) < k + length outs
      then Some (CreatedOutput_new message_id (outs ! (unat (OutputId_index i) - k))) else None)"

abbreviation created_by :: "MessageId \<Rightarrow> TransactionId \<Rightarrow> Output list \<Rightarrow> OutputId \<rightharpoonup> CreatedOutput" where
  "created_by message_id transaction_id \<equiv> created_from message_id transaction_id 0"

lemma created_from_Nil [simp]: "created_from mid tid k [] = Map.empty"
  by (simp add: created_from_def fun_eq_iff)

definition consumed_by ::
  "TransactionId \<Rightarrow> MilestoneIndex \<Rightarrow> (OutputId \<rightharpoonup> CreatedOutput) \<Rightarrow> OutputId \<rightharpoonup> CreatedOutput \<times> ConsumedOutput" where
  "consumed_by transaction_id index m i = map_option (\<lambda>x. (x, ConsumedOutput_new transaction_id index)) (m i)"

lemma record_consumed_eq:
  "distinct (map fst es) \<Longrightarrow> record_consumed tid es md =
     md\<lparr>wf_consumed_outputs := wf_consumed_outputs md ++ consumed_by tid (wf_index md) (map_of es)\<rparr>"
proof (induction es arbitrary: md)
  case Nil
  have "consumed_by tid index Map.empty = Map.empty" for index by (simp add: consumed_by_def fun_eq_iff)
  then show ?case by simp
next
  case (Cons e es)
  obtain i x where e: "e = (i, x)" by (cases e)
  with Cons.prems have i: "map_of es i = None" by (simp add: map_of_eq_None_iff)
  have "m(i \<mapsto> (x, ConsumedOutput_new tid index)) ++ consumed_by tid index (map_of es) =
      m ++ consumed_by tid index (map_of (e # es))" for m index
    using i by (auto simp: fun_eq_iff e consumed_by_def map_add_def split: option.splits)
  then show ?case
    using Cons by (simp add: e fun_upd_def)
qed

lemma record_created_eq:
  assumes "record_created mid tid k outs md = Inr md'" and "k \<le> 127"
  shows "k + length outs \<le> 127 \<and>
    md' = md\<lparr>wf_created_outputs := wf_created_outputs md ++ created_from mid tid k outs\<rparr>"
  using assms
proof (induction outs arbitrary: k md)
  case (Cons out outs)
  have k: "unat (word_of_nat k :: u16) = k" using Cons.prems(2) by (simp add: unat_of_nat)
  from Cons.prems obtain oid where
    oid: "OutputId_new tid (word_of_nat k) = Inr oid" and
    r: "record_created mid tid (Suc k) outs
      (wf_created_outputs_update (\<lambda>m. m(oid \<mapsto> CreatedOutput_new mid out)) md) = Inr md'"
    by (auto simp: bindR_Inr_iff)
  from oid k have k': "Suc k \<le> 127" and
    eq: "i = oid \<longleftrightarrow> OutputId_transaction_id i = tid \<and> unat (OutputId_index i) = k" for i
    by (auto simp: OutputId_new_Inr_iff INPUT_OUTPUT_INDEX_RANGE_iff word_unat_eq_iff)
  have "m(oid \<mapsto> CreatedOutput_new mid out) ++ created_from mid tid (Suc k) outs =
      m ++ created_from mid tid k (out # outs)" for m
    by (rule ext) (auto simp: map_add_def created_from_def eq nth_Cons')
  with Cons.IH [OF r k'] show ?case by (simp add: fun_upd_def)
qed simp

text \<open>The metadata after an included transaction.\<close>

definition transaction_recorded ::
  "deps \<Rightarrow> InnerStorage \<Rightarrow> MessageId \<Rightarrow> TransactionPayload \<Rightarrow> RegularEssence \<Rightarrow>
   WhiteFlagMetadata \<Rightarrow> BalanceDiffs \<Rightarrow> WhiteFlagMetadata" where
  "transaction_recorded d s message_id tx e md m =
     md\<lparr>wf_consumed_outputs := wf_consumed_outputs md ++
          consumed_by (TransactionPayload_id d tx) (wf_index md) (available s md |` input_ids (RegularEssence_inputs e)),
        wf_created_outputs := wf_created_outputs md ++
          created_by message_id (TransactionPayload_id d tx) (RegularEssence_outputs e),
        wf_balance_diffs := m\<rparr>"

lemma finite_input_ids: "finite (input_ids inputs)"
proof -
  have "input_ids inputs \<subseteq> (\<lambda>input. the (input_id input)) ` set inputs"
    by (force simp: input_ids_def)
  then show ?thesis by (rule finite_subset) simp
qed

lemma check_dust_reason: "check_dust s md es = Inl (Conflict r) \<Longrightarrow> r = InvalidDustAllowance"
  by (induction es)
    (auto simp: bindR_Inl_iff map_errR_not_Conflict split: if_splits option.splits)

lemma check_regular_essence_reason: "check_regular_essence d h s e ub md \<noteq> Inl (Conflict ConflictReason_None)"
  by (auto simp: check_regular_essence_def bindR_Inl_iff create_outputs_not_Conflict
      dest: consume_inputs_Conflict check_dust_reason split: if_splits)

lemma apply_transaction_included:
  assumes h: "hash_iter_spec h" and e: "TransactionPayload_essence tx = Essence_Regular e"
    and run: "apply_transaction d h s mid tx md = Inr (ConflictReason_None, md')"
  obtains consumed m m' where
    "check_regular_essence d h s e (TransactionPayload_unlock_blocks tx) md = Inr (consumed, m)"
    "BalanceDiffs_merge (entries (iter_diffs h) m) (wf_balance_diffs md) = Inr m'"
    "length (RegularEssence_outputs e) \<le> 127" "md' = transaction_recorded d s mid tx e md m'"
proof -
  let ?tid = "TransactionPayload_id d tx"
  from run e check_regular_essence_reason [of d h s e "TransactionPayload_unlock_blocks tx" md]
  obtain consumed m md1 m' where
    c: "check_regular_essence d h s e (TransactionPayload_unlock_blocks tx) md = Inr (consumed, m)" and
    r: "record_created mid ?tid 0 (RegularEssence_outputs e)
      (record_consumed ?tid (entries (iter_created h) consumed) md) = Inr md1" and
    m': "BalanceDiffs_merge (entries (iter_diffs h) m) (wf_balance_diffs md1) = Inr m'"
      "md' = md1\<lparr>wf_balance_diffs := m'\<rparr>"
    by (auto simp: apply_transaction_def apply_regular_essence_def bindR_Inr_iff
        split: sum.splits exit.splits)
  have cons: "consumed = available s md |` input_ids (RegularEssence_inputs e)"
    using check_regular_essence_consumed [OF c] by (auto simp: restrict_map_def)
  then have fin: "finite (dom consumed)" using finite_input_ids by (simp add: finite_Int)
  note es = entries_spec [OF hash_iter_specD(2) [OF h] fin]
  note r' = record_created_eq [OF r, unfolded record_consumed_eq [OF es(2)] es(1)]
  have "md' = transaction_recorded d s mid tx e md m'"
    using r' m' by (simp add: transaction_recorded_def cons)
  moreover have "wf_balance_diffs md1 = wf_balance_diffs md" using r' by simp
  ultimately show thesis using that [OF c] m' r' by simp
qed

lemma apply_transaction_conflict:
  assumes "apply_transaction d h s mid tx md = Inr (r, md')" and "r \<noteq> ConflictReason_None"
    and e: "TransactionPayload_essence tx = Essence_Regular e"
  shows "md' = md \<and> check_regular_essence d h s e (TransactionPayload_unlock_blocks tx) md = Inl (Conflict r)"
  using assms by (auto simp: apply_transaction_def apply_regular_essence_def bindR_Inr_iff split: sum.splits exit.splits)

end
