(* ===== verification/Ledger_Invariant.thy ===== *)
theory Ledger_Invariant
  imports White_Flag_Laws
begin

text \<open>
  Accounting over whole milestones: the balances are those of the unspent outputs, the dust rule
  holds for every address, outputs and treasury make up the supply, and no transaction can be
  included twice. Applying transactions and milestones keeps this.
\<close>

section \<open>Sums over outputs\<close>

definition out_at :: "(OutputId \<rightharpoonup> CreatedOutput) \<Rightarrow> OutputId \<Rightarrow> Output" where
  "out_at m i = CreatedOutput_inner (the (m i))"

definition tally :: "(Output \<Rightarrow> 'a :: comm_monoid_add) \<Rightarrow> (OutputId \<rightharpoonup> CreatedOutput) \<Rightarrow> 'a" where
  "tally f m = (\<Sum>i \<in> dom m. f (out_at m i))"

lemma tally_empty [simp]: "tally f Map.empty = 0"
  by (simp add: tally_def)

lemma tally_cong: "dom m = dom m' \<Longrightarrow> (\<And>i. m i \<noteq> None \<Longrightarrow> f (out_at m i) = g (out_at m' i)) \<Longrightarrow> tally f m = tally g m'"
  unfolding tally_def by (rule sum.cong) auto

lemma tally_upd:
  assumes "finite (dom m)" and "m i = None"
  shows "tally f (m(i \<mapsto> x)) = f (CreatedOutput_inner x) + tally f m"
proof -
  have "i \<notin> dom m" using assms(2) by auto
  then have "(\<Sum>j \<in> dom m. f (out_at (m(i \<mapsto> x)) j)) = tally f m"
    unfolding tally_def by (intro sum.cong) (auto simp: out_at_def)
  with assms \<open>i \<notin> dom m\<close> show ?thesis by (simp add: tally_def out_at_def)
qed

lemma tally_add:
  assumes "finite (dom m)" and "finite (dom m')" and "dom m \<inter> dom m' = {}"
  shows "tally f (m ++ m') = tally f m + tally f m'"
proof -
  have "(\<Sum>i \<in> dom m. f (out_at (m ++ m') i)) = tally f m"
    unfolding tally_def using assms(3) by (intro sum.cong) (auto simp: out_at_def map_add_def split: option.splits)
  moreover have "(\<Sum>i \<in> dom m'. f (out_at (m ++ m') i)) = tally f m'"
    unfolding tally_def by (intro sum.cong) (auto simp: out_at_def map_add_def)
  moreover have "tally f (m ++ m') = (\<Sum>i \<in> dom m. f (out_at (m ++ m') i)) + (\<Sum>i \<in> dom m'. f (out_at (m ++ m') i))"
    using assms by (simp add: tally_def sum.union_disjoint [symmetric] Un_commute)
  ultimately show ?thesis by simp
qed

lemma tally_restrict:
  assumes "finite (dom m)" and "D \<subseteq> dom m"
  shows "tally f m = tally f (m |` (- D)) + tally f (m |` D)"
proof -
  have "m = (m |` (- D)) ++ (m |` D)" by (auto simp: fun_eq_iff map_add_def restrict_map_def split: option.splits)
  moreover have "tally f ((m |` (- D)) ++ (m |` D)) = tally f (m |` (- D)) + tally f (m |` D)"
    by (rule tally_add) (use assms in \<open>auto intro: finite_subset\<close>)
  ultimately show ?thesis by simp
qed

lemma finite_dom_created_from [simp]: "finite (dom (created_from mid tid k outs))"
proof -
  have "dom (created_from mid tid k outs) \<subseteq> range (\<lambda>n. \<lparr>OutputId_transaction_id = tid, OutputId_index = n\<rparr>)"
  proof
    fix i
    assume "i \<in> dom (created_from mid tid k outs)"
    then have "i = \<lparr>OutputId_transaction_id = tid, OutputId_index = OutputId_index i\<rparr>"
      by (auto simp: created_from_def split: if_splits)
    then show "i \<in> range (\<lambda>n. \<lparr>OutputId_transaction_id = tid, OutputId_index = n\<rparr>)" by (rule range_eqI)
  qed
  then show ?thesis by (rule finite_subset) simp
qed

lemma created_from_Cons:
  assumes "k < 127"
  shows "created_from mid tid k (out # outs) = (created_from mid tid (Suc k) outs)
    (\<lparr>OutputId_transaction_id = tid, OutputId_index = word_of_nat k\<rparr> \<mapsto> CreatedOutput_new mid out)"
proof (rule ext)
  fix i :: OutputId
  have k: "unat (word_of_nat k :: u16) = k" using assms by (simp add: unat_of_nat)
  have "i = \<lparr>OutputId_transaction_id = tid, OutputId_index = word_of_nat k\<rparr> \<longleftrightarrow>
      OutputId_transaction_id i = tid \<and> unat (OutputId_index i) = k"
    using k by (auto simp: word_unat_eq_iff intro: OutputId.equality)
  then show "created_from mid tid k (out # outs) i = ((created_from mid tid (Suc k) outs)
    (\<lparr>OutputId_transaction_id = tid, OutputId_index = word_of_nat k\<rparr> \<mapsto> CreatedOutput_new mid out)) i"
    by (auto simp: created_from_def nth_Cons')
qed

lemma tally_created_from:
  "k + length outs \<le> 127 \<Longrightarrow> tally f (created_from mid tid k outs) = (\<Sum>out\<leftarrow>outs. f out)"
proof (induction outs arbitrary: k)
  case (Cons out outs)
  have "created_from mid tid (Suc k) outs \<lparr>OutputId_transaction_id = tid, OutputId_index = word_of_nat k\<rparr> = None"
    using Cons.prems by (simp add: created_from_def unat_of_nat)
  with Cons show ?case by (simp add: created_from_Cons tally_upd CreatedOutput_new_def del: fun_upd_apply)
qed simp

text \<open>The outputs a transaction consumes.\<close>

lemma input_id_inj: "input_id x = Some i \<Longrightarrow> input_id y = Some i \<Longrightarrow> x = y"
  by (cases x; cases y) (auto intro: UtxoInput.expand)

lemma input_ids_Cons: "input_id input = Some i \<Longrightarrow> input_ids (input # inputs) = insert i (input_ids inputs)"
  by (auto simp: input_ids_def)

lemma tally_consumed:
  assumes "distinct inputs" and "\<forall>input \<in> set inputs. \<exists>i x. input_id input = Some i \<and> available s md i = Some x"
  shows "tally f (available s md |` input_ids inputs) = (\<Sum>input\<leftarrow>inputs. f (spent s md input))"
  using assms
proof (induction inputs)
  case Nil
  then show ?case by (simp add: input_ids_def)
next
  case (Cons input inputs)
  then obtain i x where i: "input_id input = Some i" "available s md i = Some x" by auto
  have "i \<notin> input_ids inputs" using Cons.prems(1) i input_id_inj by (auto simp: input_ids_def)
  then have "available s md |` input_ids (input # inputs) = (available s md |` input_ids inputs)(i \<mapsto> x)"
    using i by (auto simp: input_ids_Cons fun_eq_iff restrict_map_def)
  moreover have "finite (dom (available s md |` input_ids inputs))" using finite_input_ids by simp
  moreover have "(available s md |` input_ids inputs) i = None" using \<open>i \<notin> input_ids inputs\<close> by simp
  moreover have "spent s md input = CreatedOutput_inner x" using i by (simp add: spent_def)
  ultimately show ?case using Cons by (simp add: tally_upd del: fun_upd_apply)
qed

section \<open>The invariant of the ledger\<close>

definition utxos :: "InnerStorage \<Rightarrow> OutputId \<rightharpoonup> CreatedOutput" where
  "utxos s = output_id_to_created_output s |` unspent_ids s"

definition output_fine :: "Output \<Rightarrow> bool" where
  "output_fine out \<longleftrightarrow> output_address out \<noteq> None \<and> 0 < output_amount out \<and> small_output out"

definition tx_essence :: "TransactionPayload \<Rightarrow> RegularEssence" where
  "tx_essence tx = (case TransactionPayload_essence tx of Essence_Regular e \<Rightarrow> e)"

abbreviation tx_inputs :: "TransactionPayload \<Rightarrow> Input list" where
  "tx_inputs tx \<equiv> RegularEssence_inputs (tx_essence tx)"

abbreviation tx_outputs :: "TransactionPayload \<Rightarrow> Output list" where
  "tx_outputs tx \<equiv> RegularEssence_outputs (tx_essence tx)"

text \<open>The balances are those of the unspent outputs.\<close>

definition balances_of_outputs :: "InnerStorage \<Rightarrow> bool" where
  "balances_of_outputs s \<longleftrightarrow>
     (\<forall>c a. int (unat (balance_coord c (fetch_balance_or_default s a))) = tally (\<lambda>out. delta c out a) (utxos s))"

text \<open>A transaction that has left outputs in the ledger has spent its inputs.\<close>

definition inputs_spent :: "deps \<Rightarrow> TransactionPayload set \<Rightarrow> InnerStorage \<Rightarrow> bool" where
  "inputs_spent d U s \<longleftrightarrow>
     (\<forall>tx \<in> U. \<forall>i. output_id_to_created_output s i \<noteq> None \<longrightarrow> OutputId_transaction_id i = TransactionPayload_id d tx \<longrightarrow>
        (\<forall>j \<in> input_ids (tx_inputs tx). output_id_to_created_output s j \<noteq> None \<and> j \<notin> unspent_ids s))"

definition ledger_ok :: "deps \<Rightarrow> TransactionPayload set \<Rightarrow> InnerStorage \<Rightarrow> bool" where
  "ledger_ok d U s \<longleftrightarrow>
     finite (unspent_ids s) \<and> finite (dom (address_to_balance s)) \<and>
     (\<forall>i \<in> unspent_ids s. \<exists>x. output_id_to_created_output s i = Some x \<and> output_fine (CreatedOutput_inner x)) \<and>
     balances_of_outputs s \<and>
     (\<forall>a b. address_to_balance s a = Some b \<longrightarrow> Balance_amount b \<noteq> 0 \<and> dust_ok b) \<and>
     \<not> isl (fetch_unspent_treasury_output s) \<and>
     tally output_amount (utxos s) + treasury_amount s = unat IOTA_SUPPLY \<and>
     inputs_spent d U s"

lemma output_coord_le: "output_fine out \<Longrightarrow> output_coord c out \<le> output_amount out"
  by (cases c; cases out) (auto simp: output_fine_def)

lemma delta_bounds: "0 \<le> delta c out a" "output_fine out \<Longrightarrow> delta c out a \<le> int (output_amount out)"
  using output_coord_le by (auto simp: delta_def)

lemma utxos_dom:
  assumes "ledger_ok d U s"
  shows "dom (utxos s) = unspent_ids s" and "utxos s i = Some x \<Longrightarrow> output_fine (CreatedOutput_inner x)"
proof -
  show "dom (utxos s) = unspent_ids s"
    using assms by (auto simp: ledger_ok_def utxos_def)
  show "output_fine (CreatedOutput_inner x)" if "utxos s i = Some x"
    using assms that by (fastforce simp: ledger_ok_def utxos_def restrict_map_def split: if_splits)
qed

lemma tally_delta_le:
  assumes "\<And>i x. m i = Some x \<Longrightarrow> output_fine (CreatedOutput_inner x)"
  shows "tally (\<lambda>out. delta c out a) m \<le> int (tally output_amount m)"
  unfolding tally_def of_nat_sum by (rule sum_mono) (use assms delta_bounds(2) in \<open>auto simp: out_at_def\<close>)

lemma IOTA_SUPPLY_small: "unat IOTA_SUPPLY < 2 ^ 63"
  by (simp add: IOTA_SUPPLY_def)

lemma ledger_ok_balance_le:
  assumes "ledger_ok d U s"
  shows "unat (balance_coord c (fetch_balance_or_default s a)) \<le> unat IOTA_SUPPLY"
proof -
  have "int (unat (balance_coord c (fetch_balance_or_default s a))) \<le> int (tally output_amount (utxos s))"
    using assms tally_delta_le [OF utxos_dom(2) [OF assms], where c = c and a = a] by (simp add: ledger_ok_def balances_of_outputs_def)
  moreover have "tally output_amount (utxos s) \<le> unat IOTA_SUPPLY" using assms by (simp add: ledger_ok_def)
  ultimately show ?thesis by linarith
qed

lemma ledger_ok_small:
  assumes "ledger_ok d U s"
  shows "balances_small s"
proof -
  have "uint (balance_coord c (fetch_balance_or_default s a)) < 2 ^ 63" for c a
  proof -
    have "unat (balance_coord c (fetch_balance_or_default s a)) < 2 ^ 63"
      using ledger_ok_balance_le [OF assms, of c a] IOTA_SUPPLY_small by (rule le_less_trans)
    then have "int (unat (balance_coord c (fetch_balance_or_default s a))) < int (2 ^ 63)"
      by (simp only: of_nat_less_iff)
    then show ?thesis by simp
  qed
  from this [of Coord_Amount] this [of Coord_Allowance] this [of Coord_Dust]
  show ?thesis by (simp add: balances_small_def Balance_small_def)
qed

text \<open>The funds of all addresses are the unspent outputs.\<close>

lemma sum_delta_addresses:
  assumes "finite A" and "output_address out = Some b" and "b \<in> A"
  shows "(\<Sum>a \<in> A. delta Coord_Amount out a) = int (output_amount out)"
  using assms by (simp add: delta_def eq_commute [of b])

lemma funded_address:
  assumes "ledger_ok d U s" and "utxos s i = Some x"
  shows "\<exists>b. output_address (CreatedOutput_inner x) = Some b \<and> b \<in> dom (address_to_balance s)"
proof -
  from utxos_dom(2) [OF assms] obtain b where
    b: "output_address (CreatedOutput_inner x) = Some b" and pos: "0 < output_amount (CreatedOutput_inner x)"
    by (auto simp: output_fine_def)
  have fin: "finite (dom (utxos s))" using assms(1) utxos_dom(1) [OF assms(1)] by (simp add: ledger_ok_def)
  have "0 < delta Coord_Amount (out_at (utxos s) i) b" using b pos assms(2) by (simp add: delta_def out_at_def)
  also have "\<dots> \<le> tally (\<lambda>out. delta Coord_Amount out b) (utxos s)"
    unfolding tally_def by (rule member_le_sum) (use assms fin delta_bounds(1) in auto)
  also have "\<dots> = int (unat (Balance_amount (fetch_balance_or_default s b)))"
    using assms(1) by (simp add: ledger_ok_def balances_of_outputs_def flip: balance_coord.simps(1) del: balance_coord.simps)
  finally have "address_to_balance s b \<noteq> None"
    by (auto simp: fetch_balance_or_default_def fetch_balance_def Table_fetch_def Balance_default_def
        split: option.splits)
  with b show ?thesis by auto
qed

lemma balance_amount_eq:
  assumes "ledger_ok d U s"
  shows "balance_amount s = tally output_amount (utxos s)"
proof -
  let ?A = "dom (address_to_balance s)"
  have fin: "finite ?A" using assms by (simp add: ledger_ok_def)
  have "int (balance_amount s) = (\<Sum>a \<in> ?A. int (unat (balance_coord Coord_Amount (fetch_balance_or_default s a))))"
    unfolding balance_amount_def of_nat_sum
    by (rule sum.cong) (auto simp: fetch_balance_or_default_def fetch_balance_def Table_fetch_def)
  also have "\<dots> = (\<Sum>a \<in> ?A. \<Sum>i \<in> dom (utxos s). delta Coord_Amount (out_at (utxos s) i) a)"
    using assms by (simp add: ledger_ok_def balances_of_outputs_def tally_def del: balance_coord.simps)
  also have "\<dots> = (\<Sum>i \<in> dom (utxos s). \<Sum>a \<in> ?A. delta Coord_Amount (out_at (utxos s) i) a)"
    by (rule sum.swap)
  also have "\<dots> = (\<Sum>i \<in> dom (utxos s). int (output_amount (out_at (utxos s) i)))"
    by (rule sum.cong [OF refl])
      (use funded_address [OF assms] sum_delta_addresses [OF fin] in \<open>fastforce simp: out_at_def\<close>)
  finally show ?thesis by (simp add: tally_def flip: of_nat_sum)
qed

lemma ledger_ok_consistent:
  assumes "ledger_ok d U s"
  shows "ledger_consistent s"
proof -
  have "unspent_amount s = tally output_amount (utxos s)"
    unfolding unspent_amount_def tally_def utxos_dom(1) [OF assms] created_amount_def
    by (rule sum.cong [OF refl]) (simp add: out_at_def utxos_def)
  then show ?thesis
    using assms balance_amount_eq [OF assms]
    by (fastforce simp: ledger_consistent_def ledger_ok_def spendable_def owned_def output_fine_def)
qed

section \<open>The invariant of a confirmation\<close>

definition payment_ok :: "TransactionPayload \<Rightarrow> bool" where
  "payment_ok tx \<longleftrightarrow> tx_inputs tx \<noteq> [] \<and> distinct (tx_inputs tx) \<and> (\<forall>out \<in> set (tx_outputs tx). output_fine out)"

definition wf_spent_outputs :: "WhiteFlagMetadata \<Rightarrow> OutputId \<rightharpoonup> CreatedOutput" where
  "wf_spent_outputs md = map_option fst \<circ> wf_consumed_outputs md"

text \<open>Created outputs are new to the ledger and come from transactions whose inputs are consumed, or
  from one of the receipts \<open>K\<close>. Consumed outputs were available. The differences are those of the
  created and consumed outputs, and \<open>n\<close> tokens come from receipts.\<close>

definition created_ok ::
  "deps \<Rightarrow> TransactionPayload set \<Rightarrow> TransactionId set \<Rightarrow> InnerStorage \<Rightarrow> WhiteFlagMetadata \<Rightarrow> bool" where
  "created_ok d U K s md \<longleftrightarrow>
     (\<forall>i x. wf_created_outputs md i = Some x \<longrightarrow>
        output_id_to_created_output s i = None \<and> output_fine (CreatedOutput_inner x) \<and>
        (OutputId_transaction_id i \<in> K \<or> (\<exists>tx \<in> U. OutputId_transaction_id i = TransactionPayload_id d tx \<and>
           input_ids (tx_inputs tx) \<subseteq> dom (wf_consumed_outputs md))))"

definition consumed_ok :: "InnerStorage \<Rightarrow> WhiteFlagMetadata \<Rightarrow> bool" where
  "consumed_ok s md \<longleftrightarrow>
     (\<forall>i x y. wf_consumed_outputs md i = Some (x, y) \<longrightarrow>
        wf_created_outputs md i = Some x \<or> wf_created_outputs md i = None \<and> utxos s i = Some x)"

definition diffs_ok :: "WhiteFlagMetadata \<Rightarrow> bool" where
  "diffs_ok md \<longleftrightarrow>
     (\<forall>c a. diff_at c (wf_balance_diffs md) a =
        tally (\<lambda>out. delta c out a) (wf_created_outputs md) - tally (\<lambda>out. delta c out a) (wf_spent_outputs md))"

definition metadata_ok ::
  "deps \<Rightarrow> TransactionPayload set \<Rightarrow> TransactionId set \<Rightarrow> InnerStorage \<Rightarrow> nat \<Rightarrow> WhiteFlagMetadata \<Rightarrow> bool" where
  "metadata_ok d U K s n md \<longleftrightarrow>
     finite_milestone (wf_created_outputs md) (wf_consumed_outputs md) (wf_balance_diffs md) \<and>
     created_ok d U K s md \<and> consumed_ok s md \<and> diffs_ok md \<and>
     tally output_amount (wf_created_outputs md) = tally output_amount (wf_spent_outputs md) + n \<and>
     (\<forall>a. dust_rule (balance_at s md Coord_Allowance a) (balance_at s md Coord_Dust a))"

text \<open>Identifiers do not collide: no two transactions have the same one, and none has that of a
  receipt.\<close>

definition ids_distinct :: "deps \<Rightarrow> TransactionPayload set \<Rightarrow> TransactionId set \<Rightarrow> bool" where
  "ids_distinct d U K \<longleftrightarrow> inj_on (TransactionPayload_id d) U \<and> K \<inter> TransactionPayload_id d ` U = {}"

lemma utxos_iff: "utxos s i = Some x \<longleftrightarrow> is_output_unspent s i \<and> fetch_output s i = Some x"
  by (auto simp: utxos_def restrict_map_def unspent_ids_def fetch_output_def Table_fetch_def)

lemma available_iff:
  "available s md i = Some x \<longleftrightarrow> wf_consumed_outputs md i = None \<and>
     (wf_created_outputs md i = Some x \<or> wf_created_outputs md i = None \<and> utxos s i = Some x)"
  by (cases "wf_consumed_outputs md i") (auto simp: available_def utxos_iff split: option.splits)

lemma utxos_created: "utxos s i = Some x \<Longrightarrow> output_id_to_created_output s i = Some x \<and> i \<in> unspent_ids s"
  by (auto simp: utxos_def restrict_map_def split: if_splits)

lemma fresh_outputs:
  assumes "ledger_ok d U s" and "created_ok d U K s md" and "consumed_ok s md" and "ids_distinct d U K"
    and "tx \<in> U" and spend: "\<forall>j < length (tx_inputs tx). can_spend d s md ub eh j (tx_inputs tx ! j)"
    and "tx_inputs tx \<noteq> []" and i: "OutputId_transaction_id i = TransactionPayload_id d tx"
  shows "output_id_to_created_output s i = None" and "wf_created_outputs md i = None"
    and "wf_consumed_outputs md i = None" and "i \<notin> input_ids (tx_inputs tx)"
proof -
  from spend assms(7) have "can_spend d s md ub eh 0 (tx_inputs tx ! 0)" by simp
  then obtain j x where j: "input_id (tx_inputs tx ! 0) = Some j" "available s md j = Some x"
    unfolding can_spend_def by blast
  have "tx_inputs tx ! 0 \<in> set (tx_inputs tx)" using assms(7) by simp
  with j have jin: "j \<in> input_ids (tx_inputs tx)" unfolding input_ids_def by blast
  note av = j(2) [unfolded available_iff]
  show c: "output_id_to_created_output s i = None"
  proof (rule ccontr)
    assume "output_id_to_created_output s i \<noteq> None"
    with assms(1,5) i jin have "output_id_to_created_output s j \<noteq> None" "j \<notin> unspent_ids s"
      by (auto simp: ledger_ok_def inputs_spent_def)
    with av assms(2) utxos_created [of s j x] show False by (auto simp: created_ok_def)
  qed
  show m: "wf_created_outputs md i = None"
  proof (rule ccontr)
    assume "wf_created_outputs md i \<noteq> None"
    then obtain tx' where "tx' \<in> U" "TransactionPayload_id d tx' = TransactionPayload_id d tx"
      "input_ids (tx_inputs tx') \<subseteq> dom (wf_consumed_outputs md)"
      using assms(2,4,5) i unfolding created_ok_def ids_distinct_def by force
    then have "j \<in> dom (wf_consumed_outputs md)"
      using assms(4,5) jin by (auto simp: ids_distinct_def inj_on_def)
    with av show False by auto
  qed
  show "wf_consumed_outputs md i = None"
  proof (rule ccontr)
    assume "wf_consumed_outputs md i \<noteq> None"
    then obtain x y where "wf_consumed_outputs md i = Some (x, y)" by auto
    with assms(3) m have "utxos s i = Some x" unfolding consumed_ok_def by force
    with c utxos_created [of s i x] show False by simp
  qed
  show "i \<notin> input_ids (tx_inputs tx)"
  proof
    assume "i \<in> input_ids (tx_inputs tx)"
    then obtain k where "k < length (tx_inputs tx)" "input_id (tx_inputs tx ! k) = Some i"
      by (auto simp: input_ids_def in_set_conv_nth)
    with spend obtain x where "available s md i = Some x" by (auto simp: can_spend_def)
    with c m utxos_created [of s i x] show False by (auto simp: available_iff)
  qed
qed

lemma available_ok:
  assumes "ledger_ok d U s" and "created_ok d U K s md" and "available s md i = Some x"
  shows "output_fine (CreatedOutput_inner x)"
  using assms utxos_dom(2) [OF assms(1)] by (auto simp: available_iff created_ok_def)

lemma amounts_small_ok:
  assumes "ledger_ok d U s" and "created_ok d U K s md" and "payment_ok tx"
  shows "amounts_small s md (tx_essence tx)"
  using assms ledger_ok_small [OF assms(1)] available_ok [OF assms(1,2)]
  by (auto simp: amounts_small_def payment_ok_def output_fine_def)

lemma wf_spent_recorded:
  "wf_spent_outputs (transaction_recorded d s mid tx e md m) =
     wf_spent_outputs md ++ (available s md |` input_ids (RegularEssence_inputs e))"
  by (auto simp: fun_eq_iff wf_spent_outputs_def transaction_recorded_def consumed_by_def map_add_def
      split: option.splits)

lemma dom_wf_spent [simp]: "dom (wf_spent_outputs md) = dom (wf_consumed_outputs md)"
  by (auto simp: wf_spent_outputs_def)

lemma dom_consumed_by [simp]: "dom (consumed_by tid index m) = dom m"
  by (auto simp: consumed_by_def)

lemma dust_rule_kept:
  assumes "dust_rule (balance_at s md Coord_Allowance a) (balance_at s md Coord_Dust a)"
    and "dust_respected s md a x y"
    and "balance_at s md' Coord_Allowance a = balance_at s md Coord_Allowance a + x"
    and "balance_at s md' Coord_Dust a = balance_at s md Coord_Dust a + y"
  shows "dust_rule (balance_at s md' Coord_Allowance a) (balance_at s md' Coord_Dust a)"
proof (cases "x < 0 \<or> 0 < y")
  case True
  with assms show ?thesis by (simp add: dust_respected_def)
next
  case False
  then show ?thesis unfolding assms(3,4) by (intro dust_rule_mono [OF assms(1)]) auto
qed

lemma can_spend_inputs:
  assumes "\<forall>j < length inputs. can_spend d s md ub eh j (inputs ! j)"
  shows "\<forall>input \<in> set inputs. \<exists>i x. input_id input = Some i \<and> available s md i = Some x"
proof
  fix input
  assume "input \<in> set inputs"
  then obtain j where "j < length inputs" "inputs ! j = input" by (auto simp: in_set_conv_nth)
  with assms show "\<exists>i x. input_id input = Some i \<and> available s md i = Some x" by (auto simp: can_spend_def)
qed

lemma tx_essence_eq: "TransactionPayload_essence tx = Essence_Regular (tx_essence tx)"
  by (cases "TransactionPayload_essence tx") (simp add: tx_essence_def)

text \<open>What is known of an included transaction.\<close>

definition included_by ::
  "deps \<Rightarrow> InnerStorage \<Rightarrow> MessageId \<Rightarrow> TransactionPayload \<Rightarrow> WhiteFlagMetadata \<Rightarrow> WhiteFlagMetadata \<Rightarrow> bool" where
  "included_by d s mid tx md md' \<longleftrightarrow>
     (\<exists>m. essence_acceptable d s md (TransactionPayload_unlock_blocks tx) (tx_essence tx) \<and>
        length (tx_outputs tx) \<le> 127 \<and> finite (dom m) \<and>
        (\<forall>c a. diff_at c m a = diff_at c (wf_balance_diffs md) a + tx_diff s md (tx_essence tx) c a) \<and>
        md' = transaction_recorded d s mid tx (tx_essence tx) md m)"

lemma merge_finite: "BalanceDiffs_merge es m = Inr m' \<Longrightarrow> finite (dom m) \<Longrightarrow> finite (dom m')"
  using BalanceDiffs_merge_amount by blast

lemma apply_transaction_included_by:
  assumes h: "hash_iter_spec h" and small: "amounts_small s md (tx_essence tx)"
    and "finite (dom (wf_balance_diffs md))"
    and run: "apply_transaction d h s mid tx md = Inr (ConflictReason_None, md')"
  shows "included_by d s mid tx md md'"
proof -
  from apply_transaction_included [OF h tx_essence_eq run] obtain consumed m m' where
    check: "check_regular_essence d h s (tx_essence tx) (TransactionPayload_unlock_blocks tx) md = Inr (consumed, m)"
    and merge: "BalanceDiffs_merge (entries (iter_diffs h) m) (wf_balance_diffs md) = Inr m'"
    and rest: "length (tx_outputs tx) \<le> 127" "md' = transaction_recorded d s mid tx (tx_essence tx) md m'" .
  have fm: "finite (dom m)" using check_regular_essence_consumed [OF check] by simp
  note es = entries_spec [OF hash_iter_specD(1) [OF h] fm]
  note acc = check_regular_essence_Inr [OF h small check]
  have "diff_at c m' a = diff_at c (wf_balance_diffs md) a + tx_diff s md (tx_essence tx) c a" for c a
    using merge_at [OF merge es(2), of c a] acc(2) by (simp add: es(1))
  with acc(1) rest merge_finite [OF merge assms(3)] show ?thesis unfolding included_by_def by blast
qed

lemma created_by_Some:
  assumes "created_by mid tid outs i = Some x"
  shows "OutputId_transaction_id i = tid" and "CreatedOutput_inner x \<in> set outs"
  using assms by (auto simp: created_from_def CreatedOutput_new_def split: if_splits)

lemma recorded_simps [simp]:
  "wf_created_outputs (transaction_recorded d s mid tx e md m) =
     wf_created_outputs md ++ created_by mid (TransactionPayload_id d tx) (RegularEssence_outputs e)"
  "wf_consumed_outputs (transaction_recorded d s mid tx e md m) =
     wf_consumed_outputs md ++
       consumed_by (TransactionPayload_id d tx) (wf_index md) (available s md |` input_ids (RegularEssence_inputs e))"
  "wf_balance_diffs (transaction_recorded d s mid tx e md m) = m"
  by (simp_all add: transaction_recorded_def)

lemma created_ok_recorded:
  assumes C: "created_ok d U K s md" and tx: "tx \<in> U" "payment_ok tx"
    and inp: "\<forall>input \<in> set (tx_inputs tx). \<exists>i x. input_id input = Some i \<and> available s md i = Some x"
    and fresh: "\<And>i. OutputId_transaction_id i = TransactionPayload_id d tx \<Longrightarrow> output_id_to_created_output s i = None"
  shows "created_ok d U K s (transaction_recorded d s mid tx (tx_essence tx) md m)"
proof -
  let ?md = "transaction_recorded d s mid tx (tx_essence tx) md m"
  have mono: "dom (wf_consumed_outputs md) \<subseteq> dom (wf_consumed_outputs ?md)" by auto
  have new: "input_ids (tx_inputs tx) \<subseteq> dom (wf_consumed_outputs ?md)"
  proof
    fix i
    assume i: "i \<in> input_ids (tx_inputs tx)"
    then obtain input where "input \<in> set (tx_inputs tx)" "input_id input = Some i" by (auto simp: input_ids_def)
    with inp obtain x where "available s md i = Some x" by fastforce
    with i show "i \<in> dom (wf_consumed_outputs ?md)" by auto
  qed
  show ?thesis
    unfolding created_ok_def
  proof (intro allI impI)
    fix i x
    assume x: "wf_created_outputs ?md i = Some x"
    show "output_id_to_created_output s i = None \<and> output_fine (CreatedOutput_inner x) \<and>
        (OutputId_transaction_id i \<in> K \<or> (\<exists>tx \<in> U. OutputId_transaction_id i = TransactionPayload_id d tx \<and>
           input_ids (tx_inputs tx) \<subseteq> dom (wf_consumed_outputs ?md)))"
    proof (cases "created_by mid (TransactionPayload_id d tx) (tx_outputs tx) i")
      case None
      with x have "wf_created_outputs md i = Some x" by (auto simp: map_add_def)
      with C mono show ?thesis unfolding created_ok_def by blast
    next
      case (Some y)
      with x have y: "y = x" by simp
      note cb = created_by_Some [OF Some]
      from cb(2) y tx(2) have "output_fine (CreatedOutput_inner x)" by (simp add: payment_ok_def)
      with fresh [OF cb(1)] cb(1) tx(1) new show ?thesis by blast
    qed
  qed
qed

lemma consumed_ok_recorded:
  assumes C: "consumed_ok s md"
    and fresh: "\<And>i. OutputId_transaction_id i = TransactionPayload_id d tx \<Longrightarrow>
      wf_created_outputs md i = None \<and> wf_consumed_outputs md i = None \<and> i \<notin> input_ids (tx_inputs tx)"
  shows "consumed_ok s (transaction_recorded d s mid tx (tx_essence tx) md m)"
proof -
  let ?md = "transaction_recorded d s mid tx (tx_essence tx) md m"
  show ?thesis
    unfolding consumed_ok_def
  proof (intro allI impI)
    fix i x y
    assume xy: "wf_consumed_outputs ?md i = Some (x, y)"
    have "i \<in> dom (wf_consumed_outputs ?md)" using xy by blast
    then have "wf_consumed_outputs md i \<noteq> None \<or> i \<in> input_ids (tx_inputs tx)" by auto
    with fresh [of i] created_by_Some(1) [of mid "TransactionPayload_id d tx" "tx_outputs tx" i]
    have keep: "wf_created_outputs ?md i = wf_created_outputs md i"
      by (cases "created_by mid (TransactionPayload_id d tx) (tx_outputs tx) i") (auto simp: map_add_def)
    have "wf_consumed_outputs md i = Some (x, y) \<or> available s md i = Some x"
      using xy by (auto simp: map_add_def consumed_by_def restrict_map_def split: option.splits if_splits)
    then show "wf_created_outputs ?md i = Some x \<or> wf_created_outputs ?md i = None \<and> utxos s i = Some x"
      unfolding keep using C by (auto simp: consumed_ok_def available_iff)
  qed
qed

lemma tally_recorded:
  assumes fin: "finite (dom (wf_created_outputs md))" "finite (dom (wf_consumed_outputs md))"
    and len: "length (tx_outputs tx) \<le> 127" and dist: "distinct (tx_inputs tx)"
    and inp: "\<forall>input \<in> set (tx_inputs tx). \<exists>i x. input_id input = Some i \<and> available s md i = Some x"
    and fresh: "\<And>i. OutputId_transaction_id i = TransactionPayload_id d tx \<Longrightarrow> wf_created_outputs md i = None"
  shows "tally f (wf_created_outputs (transaction_recorded d s mid tx (tx_essence tx) md m)) =
      tally f (wf_created_outputs md) + (\<Sum>out\<leftarrow>tx_outputs tx. f out)"
    and "tally f (wf_spent_outputs (transaction_recorded d s mid tx (tx_essence tx) md m)) =
      tally f (wf_spent_outputs md) + (\<Sum>input\<leftarrow>tx_inputs tx. f (spent s md input))"
proof -
  have "dom (wf_created_outputs md) \<inter> dom (created_by mid (TransactionPayload_id d tx) (tx_outputs tx)) = {}"
    using fresh created_by_Some(1) by fastforce
  then show "tally f (wf_created_outputs (transaction_recorded d s mid tx (tx_essence tx) md m)) =
      tally f (wf_created_outputs md) + (\<Sum>out\<leftarrow>tx_outputs tx. f out)"
    using fin(1) tally_created_from [of 0 "tx_outputs tx" f mid "TransactionPayload_id d tx"] len
    by (simp add: tally_add)
  have "dom (wf_spent_outputs md) \<inter> dom (available s md |` input_ids (tx_inputs tx)) = {}"
    by (auto simp: available_iff)
  then show "tally f (wf_spent_outputs (transaction_recorded d s mid tx (tx_essence tx) md m)) =
      tally f (wf_spent_outputs md) + (\<Sum>input\<leftarrow>tx_inputs tx. f (spent s md input))"
    using fin(2) tally_consumed [OF dist inp, of f] finite_input_ids [of "tx_inputs tx"]
    by (simp add: wf_spent_recorded tally_add)
qed

lemma metadata_ok_included:
  assumes L: "ledger_ok d U s" and M: "metadata_ok d U K s n md"
    and ids: "ids_distinct d U K" and tx: "tx \<in> U" "payment_ok tx"
    and inc: "included_by d s mid tx md md'"
  shows "metadata_ok d U K s n md'"
proof -
  note M' = M [unfolded metadata_ok_def finite_milestone_def]
  from M' have C: "created_ok d U K s md" "consumed_ok s md" "diffs_ok md" by simp_all
  have fin: "finite (dom (wf_created_outputs md))" "finite (dom (wf_consumed_outputs md))" using M' by simp_all
  from inc obtain m where acc: "essence_acceptable d s md (TransactionPayload_unlock_blocks tx) (tx_essence tx)"
    and len: "length (tx_outputs tx) \<le> 127" and fm: "finite (dom m)"
    and diff: "\<And>c a. diff_at c m a = diff_at c (wf_balance_diffs md) a + tx_diff s md (tx_essence tx) c a"
    and md': "md' = transaction_recorded d s mid tx (tx_essence tx) md m"
    unfolding included_by_def by blast
  from acc have spend: "\<forall>j < length (tx_inputs tx). can_spend d s md (TransactionPayload_unlock_blocks tx)
      (Essence_hash d (Essence_Regular (tx_essence tx))) j (tx_inputs tx ! j)"
    by (simp add: essence_acceptable_def)
  from tx(2) have p: "tx_inputs tx \<noteq> []" "distinct (tx_inputs tx)" by (simp_all add: payment_ok_def)
  note inp = can_spend_inputs [OF spend]
  note fresh = fresh_outputs [OF L C(1,2) ids tx(1) spend p(1)]
  note tal = tally_recorded [where d = d and mid = mid and m = m, OF fin len p(2) inp fresh(2), simplified, folded md']
  have wm: "wf_balance_diffs md' = m" and wc: "wf_created_outputs md' =
      wf_created_outputs md ++ created_by mid (TransactionPayload_id d tx) (tx_outputs tx)" by (simp_all add: md')
  have "finite_milestone (wf_created_outputs md') (wf_consumed_outputs md') (wf_balance_diffs md')"
    using fin fm finite_input_ids by (simp add: finite_milestone_def md')
  moreover have "created_ok d U K s md'" unfolding md' by (rule created_ok_recorded [OF C(1) tx inp fresh(1)])
  moreover have "consumed_ok s md'" unfolding md' by (rule consumed_ok_recorded [OF C(2)]) (use fresh in blast)
  moreover have "diffs_ok md'"
    unfolding diffs_ok_def
  proof (intro allI)
    fix c a
    show "diff_at c (wf_balance_diffs md') a =
        tally (\<lambda>out. delta c out a) (wf_created_outputs md') - tally (\<lambda>out. delta c out a) (wf_spent_outputs md')"
      unfolding wm wc diff using C(3) tal [where f = "\<lambda>out. delta c out a"]
      by (simp add: diffs_ok_def tx_diff_def moves_def comp_def)
  qed
  moreover have "tally output_amount (wf_created_outputs md') = tally output_amount (wf_spent_outputs md') + n"
    using M' acc by (simp add: tal wc essence_acceptable_def)
  moreover have "dust_rule (balance_at s md' Coord_Allowance a) (balance_at s md' Coord_Dust a)" for a
    by (rule dust_rule_kept [where md = md and x = "tx_diff s md (tx_essence tx) Coord_Allowance a"
          and y = "tx_diff s md (tx_essence tx) Coord_Dust a"])
      (use M' acc diff in \<open>simp_all add: essence_acceptable_def balance_at_def wm\<close>)
  ultimately show ?thesis by (simp add: metadata_ok_def)
qed

section \<open>Applying messages\<close>

lemma traverse_invariant:
  assumes "traverse_past_cone d h t s v ms md = Some r"
    and "\<And>m msg meta md md'. view_vertex t m = Some (msg, meta) \<Longrightarrow> P md \<Longrightarrow> apply_message d h s m msg md = Inr md' \<Longrightarrow> P md'"
    and "P md"
  shows "case r of Inr md' \<Rightarrow> P md' | Inl _ \<Rightarrow> True"
  using assms
proof (induction d h t s v ms md r rule: traverse_past_cone.raw_induct [rotated, consumes 1, case_names step])
  case (step f d h t s v ms md r)
  note run = step(2) and app = step(3)
  have IH: "case r' of Inr md' \<Rightarrow> P md' | Inl _ \<Rightarrow> True" if "f d h t s v' ms' md' = Some r'" "P md'" for v' ms' md' r'
    by (rule step(1) [OF that(1)]; (rule app that(2))?)
  show ?case
  proof (cases ms)
    case Nil
    then show ?thesis using run step(4) by auto
  next
    case (Cons m rest)
    show ?thesis
    proof (cases "view_vertex t m")
      case None
      with run Cons IH step(4) show ?thesis by (auto split: if_splits)
    next
      case (Some v)
      then obtain msg meta where v: "view_vertex t m = Some (msg, meta)" by (cases v) auto
      show ?thesis
        using run Cons v IH step(4) app [OF v step(4)] IH [of _ _ _ "Inr _"]
        by (auto split: if_splits option.splits sum.splits)
    qed
  qed
qed
definition view_ok :: "TransactionPayload set \<Rightarrow> TangleView \<Rightarrow> bool" where
  "view_ok U t \<longleftrightarrow>
     (\<forall>m msg meta tx. view_vertex t m = Some (msg, meta) \<longrightarrow> Message_payload msg = Some (Payload_Transaction tx) \<longrightarrow>
        tx \<in> U \<and> payment_ok tx)"

lemma metadata_ok_cong:
  assumes "wf_created_outputs md' = wf_created_outputs md" and "wf_consumed_outputs md' = wf_consumed_outputs md"
    and "wf_balance_diffs md' = wf_balance_diffs md" and "metadata_ok d U K s n md"
  shows "metadata_ok d U K s n md'"
  using assms(4)
  unfolding metadata_ok_def created_ok_def consumed_ok_def diffs_ok_def wf_spent_outputs_def balance_at_def
    assms(1-3) .

lemma apply_message_cases:
  assumes "apply_message d h s m msg md = Inr md'"
  obtains (no_transaction) "\<nexists>tx. Message_payload msg = Some (Payload_Transaction tx)"
      "md' = md\<lparr>wf_referenced_messages := Suc (wf_referenced_messages md),
        wf_excluded_no_transaction_messages := wf_excluded_no_transaction_messages md @ [m]\<rparr>"
  | (included) tx md1 where "Message_payload msg = Some (Payload_Transaction tx)"
      "apply_transaction d h s m tx (wf_referenced_messages_update Suc md) = Inr (ConflictReason_None, md1)"
      "md' = wf_included_messages_update (\<lambda>xs. xs @ [m]) md1"
  | (conflicting) tx r where "Message_payload msg = Some (Payload_Transaction tx)" "r \<noteq> ConflictReason_None"
      "apply_transaction d h s m tx (wf_referenced_messages_update Suc md) = Inr (r, wf_referenced_messages_update Suc md)"
      "md' = md\<lparr>wf_referenced_messages := Suc (wf_referenced_messages md),
        wf_excluded_conflicting_messages := wf_excluded_conflicting_messages md @ [(m, r)]\<rparr>"
proof (cases "\<exists>tx. Message_payload msg = Some (Payload_Transaction tx)")
  case False
  then show thesis
    using assms by (intro no_transaction) (auto simp: apply_message_def Let_def split: option.splits Payload.splits)
next
  case True
  then obtain tx where tx: "Message_payload msg = Some (Payload_Transaction tx)" by blast
  with assms obtain r md1 where
    run: "apply_transaction d h s m tx (wf_referenced_messages_update Suc md) = Inr (r, md1)" and
    md': "md' = (if r = ConflictReason_None then wf_included_messages_update (\<lambda>xs. xs @ [m]) md1
      else wf_excluded_conflicting_messages_update (\<lambda>xs. xs @ [(m, r)]) md1)"
    by (auto simp: apply_message_def Let_def bindR_Inr_iff)
  show thesis
  proof (cases "r = ConflictReason_None")
    case True
    with tx run md' show thesis by (intro included) auto
  next
    case False
    note md1 = conjunct1 [OF apply_transaction_conflict [OF run False tx_essence_eq]]
    show thesis by (rule conflicting [OF tx False run [unfolded md1]]) (use md' md1 False in simp)
  qed
qed

lemma apply_message_metadata_ok:
  assumes h: "hash_iter_spec h" and L: "ledger_ok d U s" and ids: "ids_distinct d U K" and V: "view_ok U t"
    and m: "view_vertex t m = Some (msg, meta)" and M: "metadata_ok d U K s n md"
    and run: "apply_message d h s m msg md = Inr md'"
  shows "metadata_ok d U K s n md'"
  using run
proof (cases rule: apply_message_cases)
  case (included tx md1)
  let ?md = "wf_referenced_messages_update Suc md"
  from V m included(1) have tx: "tx \<in> U" "payment_ok tx" by (auto simp: view_ok_def)
  have M': "metadata_ok d U K s n ?md" by (rule metadata_ok_cong [OF _ _ _ M]) simp_all
  then have "created_ok d U K s ?md" and fin: "finite (dom (wf_balance_diffs ?md))"
    by (simp_all add: metadata_ok_def finite_milestone_def)
  from apply_transaction_included_by [OF h amounts_small_ok [OF L this(1) tx(2)] fin included(2)]
  have "metadata_ok d U K s n md1" by (rule metadata_ok_included [OF L M' ids tx])
  then show ?thesis by (rule metadata_ok_cong [rotated 3]) (simp_all add: included(3))
qed (rule metadata_ok_cong [OF _ _ _ M]; simp)+

lemma dust_ok_default: "dust_ok Balance_default"
  by (simp add: dust_ok_def Balance_default_def)

lemma metadata_ok_new:
  assumes "ledger_ok d U s"
  shows "metadata_ok d U K s 0 (WhiteFlagMetadata_new index)"
proof -
  have "dust_ok (fetch_balance_or_default s a)" for a
    using assms dust_ok_default
    by (auto simp: fetch_balance_or_default_def fetch_balance_def Table_fetch_def ledger_ok_def split: option.splits)
  then show ?thesis
    by (simp add: metadata_ok_def finite_milestone_def created_ok_def consumed_ok_def diffs_ok_def
        wf_spent_outputs_def WhiteFlagMetadata_new_def balance_at_def dust_ok_rule BalanceDiffs_new_def comp_def)
qed

end
