(* ===== verification/Past_Cone.thy ===== *)
theory Past_Cone
  imports White_Flag
begin

text \<open>
  The traversal of the White Flag confirmation. On a tangle whose parent relation is well founded
  it always ends, and it applies the unconfirmed messages of the past cone in an order in which
  parents come before children. A message is ord once, provided that no parent of the
  milestone lies in the past cone of a parent that is processed before it; without this proviso it
  is ord again.
\<close>

section \<open>The past cone\<close>

definition pending :: "deps \<Rightarrow> TangleView \<Rightarrow> MessageId \<Rightarrow> bool" where
  "pending d t m \<longleftrightarrow>
     (case view_vertex t m of
        Some (message, meta) \<Rightarrow> \<not> Flags_is_referenced d (MessageMetadata_flags meta)
      | None \<Rightarrow> False)"

definition parents_of :: "deps \<Rightarrow> TangleView \<Rightarrow> MessageId \<Rightarrow> MessageId list" where
  "parents_of d t m =
     (if pending d t m then Parents_ids (Message_parents (fst (the (view_vertex t m)))) else [])"

definition parent_edges :: "deps \<Rightarrow> TangleView \<Rightarrow> (MessageId \<times> MessageId) set" where
  "parent_edges d t = {(m, p). p \<in> set (parents_of d t m)}"

definition cone :: "deps \<Rightarrow> TangleView \<Rightarrow> MessageId \<Rightarrow> MessageId set" where
  "cone d t m = {x. (m, x) \<in> (parent_edges d t)\<^sup>*}"

definition known :: "TangleView \<Rightarrow> MessageId \<Rightarrow> bool" where
  "known t m \<longleftrightarrow> view_vertex t m \<noteq> None \<or> view_is_solid_entry_point t m"

definition ranked :: "deps \<Rightarrow> TangleView \<Rightarrow> (MessageId \<Rightarrow> nat) \<Rightarrow> bool" where
  "ranked d t rank \<longleftrightarrow> (\<forall>m p. p \<in> set (parents_of d t m) \<longrightarrow> rank p < rank m)"

fun apply_messages ::
  "deps \<Rightarrow> hash_iter \<Rightarrow> TangleView \<Rightarrow> InnerStorage \<Rightarrow> MessageId list \<Rightarrow> WhiteFlagMetadata \<Rightarrow>
   LedgerError + WhiteFlagMetadata" where
  "apply_messages d h t s [] md = Inr md"
| "apply_messages d h t s (m # ms) md =
     bindR (apply_message d h s m (fst (the (view_vertex t m))) md) (apply_messages d h t s ms)"

fun parents_first :: "deps \<Rightarrow> TangleView \<Rightarrow> MessageId set \<Rightarrow> MessageId list \<Rightarrow> bool" where
  "parents_first d t v [] = True"
| "parents_first d t v (m # ms) \<longleftrightarrow>
     (\<forall>p \<in> set (parents_of d t m). pending d t p \<longrightarrow> p \<in> v) \<and> parents_first d t (insert m v) ms"

lemma apply_messages_append:
  "apply_messages d h t s (xs @ ys) md = bindR (apply_messages d h t s xs md) (apply_messages d h t s ys)"
  by (induction xs arbitrary: md) (auto simp: bindR_def split: sum.splits)

lemma parents_first_append:
  "parents_first d t v (xs @ ys) \<longleftrightarrow> parents_first d t v xs \<and> parents_first d t (v \<union> set xs) ys"
  by (induction xs arbitrary: v) auto

lemma parents_first_pending:
  "parents_first d t v ms \<Longrightarrow> (\<And>x. x \<in> v \<Longrightarrow> pending d t x \<Longrightarrow> x \<in> w) \<Longrightarrow> parents_first d t w ms"
proof (induction ms arbitrary: v w)
  case (Cons m ms)
  then show ?case using Cons.IH [of "insert m v" "insert m w"] by auto
qed simp

lemma cone_self [simp]: "m \<in> cone d t m"
  by (simp add: cone_def)

lemma cone_parent: "p \<in> set (parents_of d t m) \<Longrightarrow> cone d t p \<subseteq> cone d t m"
  by (auto simp: cone_def parent_edges_def intro: converse_rtrancl_into_rtrancl)

lemma cone_unfold: "cone d t m = insert m (\<Union>p \<in> set (parents_of d t m). cone d t p)"
proof (rule antisym)
  show "cone d t m \<subseteq> insert m (\<Union>p \<in> set (parents_of d t m). cone d t p)"
    by (auto simp: cone_def parent_edges_def elim: converse_rtranclE)
qed (use cone_parent in fastforce)

lemma cone_trans: "x \<in> cone d t m \<Longrightarrow> cone d t x \<subseteq> cone d t m"
  by (auto simp: cone_def intro: rtrancl_trans)

lemma cone_step: "x \<in> cone d t m \<Longrightarrow> p \<in> set (parents_of d t x) \<Longrightarrow> p \<in> cone d t m"
  by (auto simp: cone_def parent_edges_def intro: rtrancl_into_rtrancl)

lemma ranked_cone: "ranked d t rank \<Longrightarrow> x \<in> cone d t m \<Longrightarrow> x = m \<or> rank x < rank m"
proof -
  assume r: "ranked d t rank" and "x \<in> cone d t m"
  then have "(m, x) \<in> (parent_edges d t)\<^sup>*" by (simp add: cone_def)
  then show ?thesis
    using r by (induction rule: rtrancl_induct) (auto simp: ranked_def parent_edges_def intro: less_trans)
qed

section \<open>Visiting one message\<close>

text \<open>How the traversal goes on after applying some messages: with an error, with a missing
  message, or with the rest of the stack.\<close>

definition resume ::
  "deps \<Rightarrow> hash_iter \<Rightarrow> TangleView \<Rightarrow> InnerStorage \<Rightarrow> MessageId list \<Rightarrow> MessageId + MessageId set \<Rightarrow>
   MessageId list \<Rightarrow> WhiteFlagMetadata \<Rightarrow> (LedgerError + WhiteFlagMetadata) option" where
  "resume d h t s ord out rest md =
     (case apply_messages d h t s ord md of
        Inl e \<Rightarrow> Some (Inl e)
      | Inr md' \<Rightarrow>
          (case out of
             Inl x \<Rightarrow> Some (Inl (MissingMessage x))
           | Inr v \<Rightarrow> traverse_past_cone d h t s v rest md'))"

definition visits ::
  "deps \<Rightarrow> TangleView \<Rightarrow> MessageId set \<Rightarrow> MessageId \<Rightarrow> MessageId list \<Rightarrow> MessageId + MessageId set \<Rightarrow> bool" where
  "visits d t v m ord out \<longleftrightarrow>
     (\<forall>h s rest md. traverse_past_cone d h t s v (m # rest) md = resume d h t s ord out rest md) \<and>
     distinct ord \<and> parents_first d t v ord \<and> set ord \<subseteq> {x \<in> cone d t m - v. pending d t x} \<and>
     (case out of
        Inl x \<Rightarrow> x \<in> cone d t m \<and> \<not> known t x
      | Inr v' \<Rightarrow> v' = v \<union> cone d t m \<and> set ord = {x \<in> cone d t m - v. pending d t x} \<and>
          (\<forall>x \<in> cone d t m - v. known t x))"

lemmas traverse_simps = traverse_past_cone.simps [of _ _ _ _ _ "[]"] traverse_past_cone.simps [of _ _ _ _ _ "_ # _"]

lemma resume_append:
  assumes "\<And>md. traverse_past_cone d h t s v rest md = resume d h t s ys out rest' md"
  shows "resume d h t s xs (Inr v) rest md = resume d h t s (xs @ ys) out rest' md"
  using assms by (auto simp: resume_def apply_messages_append split: sum.splits)

lemma visits_skip:
  assumes "\<not> pending d t m"
  shows "\<exists>out. visits d t v m [] out"
proof (cases "view_vertex t m")
  case None
  with assms have c: "cone d t m = {m}" by (subst cone_unfold) (simp add: parents_of_def)
  show ?thesis
  proof (cases "view_is_solid_entry_point t m")
    case True
    with None assms c show ?thesis
      by (intro exI [of _ "Inr (insert m v)"]) (auto simp: visits_def resume_def traverse_simps known_def)
  next
    case False
    with None c show ?thesis
      by (intro exI [of _ "Inl m"]) (auto simp: visits_def resume_def traverse_simps known_def)
  qed
next
  case (Some x)
  with assms have c: "cone d t m = {m}" by (subst cone_unfold) (simp add: parents_of_def)
  with Some assms show ?thesis
    by (intro exI [of _ "Inr (insert m v)"])
      (auto simp: visits_def resume_def traverse_simps pending_def known_def split: prod.splits)
qed

definition parent_closed :: "deps \<Rightarrow> TangleView \<Rightarrow> MessageId set \<Rightarrow> bool" where
  "parent_closed d t v \<longleftrightarrow> (\<forall>x \<in> v. set (parents_of d t x) \<subseteq> v)"

lemma parent_closed_cone: "parent_closed d t v \<Longrightarrow> x \<in> v \<Longrightarrow> cone d t x \<subseteq> v"
proof
  fix y
  assume v: "parent_closed d t v" "x \<in> v" and "y \<in> cone d t x"
  then have "(x, y) \<in> (parent_edges d t)\<^sup>*" by (simp add: cone_def)
  then show "y \<in> v"
    using v by (induction rule: rtrancl_induct) (auto simp: parent_closed_def parent_edges_def)
qed

lemma parent_closed_Un_cone: "parent_closed d t v \<Longrightarrow> parent_closed d t (v \<union> cone d t m)"
  using cone_step [of _ d t m] by (auto simp: parent_closed_def)

lemma traverse_pending:
  assumes "pending d t m" and "find (\<lambda>p. p \<notin> v) (parents_of d t m) = Some p"
  shows "traverse_past_cone d h t s v (m # rest) md = traverse_past_cone d h t s v (p # m # rest) md"
  using assms by (subst traverse_past_cone.simps) (auto simp: pending_def parents_of_def split: option.splits)

lemma visits_last:
  assumes m: "pending d t m" "m \<notin> v" and v: "parent_closed d t v" and none: "set (parents_of d t m) \<subseteq> v"
  shows "visits d t v m [m] (Inr (v \<union> cone d t m))"
proof -
  have c: "cone d t m - v = {m}"
    using none parent_closed_cone [OF v] m(2) by (subst cone_unfold) auto
  then have c': "v \<union> cone d t m = insert m v" by auto
  obtain msg meta where vm: "view_vertex t m = Some (msg, meta)"
    using m(1) by (auto simp: pending_def split: option.splits)
  have "find (\<lambda>p. p \<notin> v) (Parents_ids (Message_parents msg)) = None"
    using none m(1) vm by (auto simp: find_None_iff parents_of_def)
  then have "traverse_past_cone d h t s v (m # rest) md = resume d h t s [m] (Inr (insert m v)) rest md" for h s rest md
    using m(1) vm by (subst traverse_past_cone.simps) (auto simp: resume_def pending_def split: sum.splits)
  with m none vm show ?thesis unfolding c' by (auto simp: visits_def known_def c c' [symmetric])
qed

lemma visits_append:
  assumes v: "parent_closed d t v" and p: "p \<in> set (parents_of d t m)" and m: "m \<notin> v"
    and run: "\<And>h s rest md. traverse_past_cone d h t s v (m # rest) md = traverse_past_cone d h t s v (p # m # rest) md"
    and vp: "visits d t v p xs (Inr v1)" and vm: "visits d t v1 m ys out"
  shows "visits d t v m (xs @ ys) out"
proof -
  have v1: "v1 = v \<union> cone d t p" and xs: "set xs = {x \<in> cone d t p - v. pending d t x}"
    using vp by (simp_all add: visits_def)
  have sub: "cone d t p \<subseteq> cone d t m" using cone_parent [OF p] .
  have "parents_first d t (v \<union> set xs) ys"
    using vm by (auto simp: visits_def v1 xs intro: parents_first_pending)
  moreover have "set xs \<union> {x \<in> cone d t m - v1. pending d t x} = {x \<in> cone d t m - v. pending d t x}"
    using sub xs v1 by auto
  moreover have "v1 \<union> cone d t m = v \<union> cone d t m" using sub v1 by auto
  moreover have "\<forall>x \<in> cone d t p - v. known t x" using vp by (simp add: visits_def)
  moreover have "traverse_past_cone d h t s v (m # rest) md = resume d h t s (xs @ ys) out rest md" for h s rest md
    using vp vm unfolding run by (simp add: visits_def resume_append)
  ultimately show ?thesis
    using vp vm sub v1 by (auto simp: visits_def parents_first_append split: sum.splits)
qed

lemma visits_exists:
  assumes r: "ranked d t rank"
  shows "parent_closed d t v \<Longrightarrow> m \<notin> v \<Longrightarrow> \<exists>ord out. visits d t v m ord out"
proof (induction "rank m" arbitrary: m v rule: less_induct)
  case (less m)
  show ?case
  proof (cases "pending d t m")
    case False
    then show ?thesis using visits_skip by blast
  next
    case True
    show ?thesis
      using less.prems
    proof (induction "card (set (parents_of d t m) - v)" arbitrary: v rule: less_induct)
      case inner: (less v)
      show ?case
      proof (cases "find (\<lambda>p. p \<notin> v) (parents_of d t m)")
        case None
        then have "set (parents_of d t m) \<subseteq> v" by (auto simp: find_None_iff)
        with True inner.prems show ?thesis using visits_last by blast
      next
        case (Some p)
        then have p: "p \<in> set (parents_of d t m)" "p \<notin> v" by (auto simp: find_Some_iff)
        have "rank p < rank m" using r p(1) by (simp add: ranked_def)
        from less.hyps [OF this inner.prems(1) p(2)] obtain xs out where vp: "visits d t v p xs out" by blast
        note run = traverse_pending [OF True Some]
        show ?thesis
        proof (cases out)
          case (Inl x)
          with vp have "visits d t v m xs (Inl x)"
            using cone_parent [OF p(1)] by (auto simp: visits_def run resume_def split: sum.splits)
          then show ?thesis by blast
        next
          case (Inr v1)
          with vp have v1: "v1 = v \<union> cone d t p" by (simp add: visits_def)
          have "m \<notin> v1" using inner.prems(2) ranked_cone [OF r, of m p] \<open>rank p < rank m\<close> by (auto simp: v1)
          moreover have "parent_closed d t v1" using parent_closed_Un_cone [OF inner.prems(1)] by (simp add: v1)
          moreover have "card (set (parents_of d t m) - v1) < card (set (parents_of d t m) - v)"
            by (rule psubset_card_mono) (use p v1 in auto)
          ultimately obtain ys out' where "visits d t v1 m ys out'" using inner.hyps by blast
          from visits_append [OF inner.prems(1) p(1) inner.prems(2) run vp [unfolded Inr] this]
          show ?thesis by blast
        qed
      qed
    qed
  qed
qed

section \<open>The whole traversal\<close>

definition cones :: "deps \<Rightarrow> TangleView \<Rightarrow> MessageId list \<Rightarrow> MessageId set" where
  "cones d t roots = (\<Union>r \<in> set roots. cone d t r)"

text \<open>No root lies in the past cone of an earlier one.\<close>

fun independent :: "deps \<Rightarrow> TangleView \<Rightarrow> MessageId set \<Rightarrow> MessageId list \<Rightarrow> bool" where
  "independent d t v [] = True"
| "independent d t v (r # roots) \<longleftrightarrow> r \<notin> v \<and> independent d t (v \<union> cone d t r) roots"

definition walks ::
  "deps \<Rightarrow> TangleView \<Rightarrow> MessageId set \<Rightarrow> MessageId list \<Rightarrow> MessageId list \<Rightarrow> MessageId + MessageId set \<Rightarrow> bool" where
  "walks d t v roots ord out \<longleftrightarrow>
     (\<forall>h s md. traverse_past_cone d h t s v roots md = resume d h t s ord out [] md) \<and>
     parents_first d t v ord \<and> set ord \<subseteq> {x \<in> cones d t roots. pending d t x} \<and>
     (independent d t v roots \<longrightarrow> distinct ord \<and> set ord \<inter> v = {}) \<and>
     (case out of
        Inl x \<Rightarrow> x \<in> cones d t roots \<and> \<not> known t x
      | Inr v' \<Rightarrow> v' = v \<union> cones d t roots \<and> {x \<in> cones d t roots - v. pending d t x} \<subseteq> set ord \<and>
          (\<forall>x \<in> cones d t roots - v. known t x))"

lemma revisits:
  assumes v: "parent_closed d t v" and r: "r \<in> v"
  shows "\<exists>out. (\<forall>h s rest md. traverse_past_cone d h t s v (r # rest) md =
      resume d h t s (if pending d t r then [r] else []) out rest md) \<and>
    (case out of Inl x \<Rightarrow> x = r \<and> \<not> known t r | Inr v' \<Rightarrow> v' = v)"
proof (cases "pending d t r")
  case False
  then obtain out where "visits d t v r [] out" using visits_skip by blast
  moreover from False have "cone d t r = {r}" by (subst cone_unfold) (simp add: parents_of_def)
  ultimately show ?thesis using False r
    by (intro exI [of _ out]) (auto simp: visits_def insert_absorb split: sum.splits)
next
  case True
  then obtain msg meta where vm: "view_vertex t r = Some (msg, meta)"
    by (auto simp: pending_def split: option.splits)
  have "set (parents_of d t r) \<subseteq> v" using v r by (auto simp: parent_closed_def)
  then have "find (\<lambda>p. p \<notin> v) (Parents_ids (Message_parents msg)) = None"
    using True vm by (auto simp: find_None_iff parents_of_def)
  then have "traverse_past_cone d h t s v (r # rest) md = resume d h t s [r] (Inr v) rest md" for h s rest md
    using True vm r
    by (subst traverse_past_cone.simps) (auto simp: resume_def pending_def insert_absorb split: sum.splits)
  then show ?thesis using True by (intro exI [of _ "Inr v"]) simp
qed

lemma walks_Cons:
  assumes run: "\<And>h s rest md. traverse_past_cone d h t s v (r # rest) md = resume d h t s xs (Inr w) rest md"
    and w: "w = v \<union> cone d t r"
    and xs: "parents_first d t v xs" "set xs \<subseteq> {x \<in> cone d t r. pending d t x}"
      "{x \<in> cone d t r - v. pending d t x} \<subseteq> set xs" "r \<notin> v \<Longrightarrow> distinct xs \<and> set xs \<inter> v = {}"
      "\<forall>x \<in> cone d t r - v. known t x"
    and ws: "walks d t w roots ys out"
  shows "walks d t v (r # roots) (xs @ ys) out"
proof -
  have "traverse_past_cone d h t s v (r # roots) md = resume d h t s (xs @ ys) out [] md" for h s md
    using ws unfolding run by (simp add: walks_def resume_append)
  moreover have "parents_first d t (v \<union> set xs) ys"
    using ws w xs(3) by (auto simp: walks_def intro: parents_first_pending)
  moreover have "distinct (xs @ ys) \<and> set (xs @ ys) \<inter> v = {}" if "independent d t v (r # roots)"
    using that ws xs(2,4) w by (auto simp: walks_def)
  moreover have "case out of
        Inl x \<Rightarrow> x \<in> cones d t (r # roots) \<and> \<not> known t x
      | Inr v' \<Rightarrow> v' = v \<union> cones d t (r # roots) \<and> {x \<in> cones d t (r # roots) - v. pending d t x} \<subseteq> set (xs @ ys) \<and>
          (\<forall>x \<in> cones d t (r # roots) - v. known t x)"
    using ws w xs(3,5) by (auto simp: walks_def cones_def split: sum.splits)
  ultimately show ?thesis
    using ws xs(1,2) by (auto simp: walks_def parents_first_append cones_def)
qed

lemma walks_exists:
  assumes r: "ranked d t rank"
  shows "parent_closed d t v \<Longrightarrow> \<exists>ord out. walks d t v roots ord out"
proof (induction roots arbitrary: v)
  case Nil
  have "walks d t v [] [] (Inr v)" by (simp add: walks_def resume_def cones_def)
  then show ?case by blast
next
  case (Cons m roots)
  obtain xs out where out: "\<And>h s rest md. traverse_past_cone d h t s v (m # rest) md = resume d h t s xs out rest md"
    and xs: "parents_first d t v xs" "set xs \<subseteq> {x \<in> cone d t m. pending d t x}"
      "m \<notin> v \<Longrightarrow> distinct xs \<and> set xs \<inter> v = {}"
    and res: "case out of Inl x \<Rightarrow> x \<in> cone d t m \<and> \<not> known t x
      | Inr w \<Rightarrow> w = v \<union> cone d t m \<and> {x \<in> cone d t m - v. pending d t x} \<subseteq> set xs \<and>
          (\<forall>x \<in> cone d t m - v. known t x)"
  proof (cases "m \<in> v")
    case False
    then obtain xs out where "visits d t v m xs out" using visits_exists [OF r Cons.prems] by blast
    then show ?thesis by (intro that [of xs out]) (auto simp: visits_def split: sum.splits)
  next
    case True
    with Cons.prems have sub: "cone d t m \<subseteq> v" and par: "set (parents_of d t m) \<subseteq> v"
      using parent_closed_cone by (auto simp: parent_closed_def)
    from revisits [OF Cons.prems True] obtain out
      where "\<And>h s rest md. traverse_past_cone d h t s v (m # rest) md =
          resume d h t s (if pending d t m then [m] else []) out rest md"
        and "case out of Inl x \<Rightarrow> x = m \<and> \<not> known t m | Inr v' \<Rightarrow> v' = v" by blast
    with sub par True show ?thesis
      by (intro that [of "if pending d t m then [m] else []" out]) (auto split: sum.splits)
  qed
  show ?case
  proof (cases out)
    case (Inl x)
    with out xs res have "walks d t v (m # roots) xs (Inl x)"
      by (auto simp: walks_def resume_def cones_def split: sum.splits)
    then show ?thesis by blast
  next
    case (Inr w)
    with res have w: "w = v \<union> cone d t m" "{x \<in> cone d t m - v. pending d t x} \<subseteq> set xs"
      "\<forall>x \<in> cone d t m - v. known t x" by simp_all
    from Cons.IH [OF parent_closed_Un_cone [OF Cons.prems]] obtain ys out' where "walks d t w roots ys out'"
      unfolding w(1) by blast
    from walks_Cons [OF out [unfolded Inr] w(1) xs(1,2) w(2) xs(3) w(3) this] show ?thesis by blast
  qed
qed

lemma parent_closed_empty: "parent_closed d t {}"
  by (simp add: parent_closed_def)

lemmas walks_from_empty = walks_exists [OF _ parent_closed_empty]

lemma resume_end: "resume d h t s ord (Inr v) [] md = Some (apply_messages d h t s ord md)"
  by (auto simp: resume_def traverse_simps split: sum.splits)

lemma traverse_ends:
  assumes "ranked d t rank"
  shows "\<exists>r. traverse_past_cone d h t s {} roots md = Some r"
proof -
  from walks_from_empty [OF assms] obtain ord out where "walks d t {} roots ord out" by blast
  then show ?thesis
    by (cases out) (auto simp: walks_def resume_end, auto simp: resume_def split: sum.splits)
qed

section \<open>A concrete tangle\<close>

text \<open>A solid entry point, a message on top of it and a message on top of that one.\<close>

definition mid :: "byte \<Rightarrow> MessageId" where
  "mid n = MessageId (replicate 32 n)"

definition plain_message :: "MessageId list \<Rightarrow> Message" where
  "plain_message parents = \<lparr>Message_network_id = 1, Message_parents = Parents parents,
     Message_payload = None, Message_nonce = 0\<rparr>"

definition sample_view :: TangleView where
  "sample_view =
     \<lparr>view_vertex = [mid 1 \<mapsto> (plain_message [mid 0], MessageMetadata_default),
        mid 2 \<mapsto> (plain_message [mid 1], MessageMetadata_default)],
      view_is_solid_entry_point = (\<lambda>m. m = mid 0)\<rparr>"

definition sample_rank :: "MessageId \<Rightarrow> nat" where
  "sample_rank m = unat (hd (MessageId_bytes m))"

lemma mid_eq [simp]: "mid n = mid k \<longleftrightarrow> n = k"
  by (simp add: mid_def replicate_eq_replicate)

lemma sample_pending: "pending sample_deps sample_view m \<longleftrightarrow> m = mid 1 \<or> m = mid 2"
  by (auto simp: pending_def sample_view_def MessageMetadata_default_def Flags_default_def
      Flags_is_referenced_def REFERENCED_def sample_deps_def)

lemma sample_parents:
  "parents_of sample_deps sample_view m = (if m = mid 1 then [mid 0] else if m = mid 2 then [mid 1] else [])"
  using sample_pending [of m] by (auto simp: parents_of_def sample_view_def plain_message_def)

lemma sample_ranked: "ranked sample_deps sample_view sample_rank"
  by (auto simp: ranked_def sample_parents sample_rank_def mid_def split: if_splits)

lemma sample_cone:
  "cone sample_deps sample_view (mid 0) = {mid 0}"
  "cone sample_deps sample_view (mid 1) = {mid 1, mid 0}"
  "cone sample_deps sample_view (mid 2) = {mid 2, mid 1, mid 0}"
proof -
  show c0: "cone sample_deps sample_view (mid 0) = {mid 0}" by (subst cone_unfold) (simp add: sample_parents)
  then show c1: "cone sample_deps sample_view (mid 1) = {mid 1, mid 0}"
    by (subst cone_unfold) (simp add: sample_parents)
  then show "cone sample_deps sample_view (mid 2) = {mid 2, mid 1, mid 0}"
    by (subst cone_unfold) (simp add: sample_parents)
qed

lemma sample_known: "x \<in> cone sample_deps sample_view (mid 2) \<Longrightarrow> known sample_view x"
  unfolding sample_cone by (auto simp: known_def sample_view_def)

section \<open>Properties\<close>

text \<open>C19. The White Flag computation returns: on a tangle whose messages have a rank that is smaller for
  their parents, the traversal ends whatever the ledger, the iteration orders and the parents of the
  milestone are, with the resulting metadata or with an error.\<close>

theorem white_flag_terminates:
  assumes "ranked d t rank"
  shows "\<exists>r. white_flag d h t s roots md = Some r"
  using traverse_ends [OF assms] by (fastforce simp: white_flag_def)

theorem white_flag_terminates_witness:
  "\<exists>r. white_flag sample_deps sorted_iter sample_view Storage_new [mid 2] (WhiteFlagMetadata_new (MilestoneIndex 8)) = Some r"
  using white_flag_terminates [OF sample_ranked] .

text \<open>C18. The traversal applies the unconfirmed messages of the past cone of the milestone, all of them
  and no others, parents before children; the order depends on the tangle only. If no parent of the
  milestone is in the past cone of an earlier one, every message is applied once.\<close>

theorem traversal_order:
  assumes "ranked d t rank" and "\<forall>x \<in> cones d t roots. known t x"
  shows "\<exists>ord. (\<forall>h s md. traverse_past_cone d h t s {} roots md = Some (apply_messages d h t s ord md)) \<and>
    set ord = {x \<in> cones d t roots. pending d t x} \<and> parents_first d t {} ord \<and>
    (independent d t {} roots \<longrightarrow> distinct ord)"
proof -
  from walks_from_empty [OF assms(1)] obtain ord out where w: "walks d t {} roots ord out" by blast
  with assms(2) obtain v where "out = Inr v" by (cases out) (auto simp: walks_def)
  with w show ?thesis by (intro exI [of _ ord]) (auto simp: walks_def resume_end)
qed

theorem traversal_order_witness:
  "\<exists>ord. (\<forall>h s md. traverse_past_cone sample_deps h sample_view s {} [mid 2] md =
       Some (apply_messages sample_deps h sample_view s ord md)) \<and>
     set ord = {mid 2, mid 1} \<and> parents_first sample_deps sample_view {} ord \<and> distinct ord"
proof -
  have "cones sample_deps sample_view [mid 2] = {mid 2, mid 1, mid 0}" by (simp add: cones_def sample_cone)
  moreover have "{x \<in> {mid 2, mid 1, mid 0}. pending sample_deps sample_view x} = {mid 2, mid 1}"
    by (auto simp: sample_pending)
  ultimately show ?thesis
    using traversal_order [OF sample_ranked, of "[mid 2]"] sample_known by (auto simp: sample_cone)
qed

text \<open>C20. The traversal fails if a message of the past cone is neither in the tangle nor a solid entry
  point.\<close>

theorem traversal_needs_cone:
  assumes "ranked d t rank" and "x \<in> cones d t roots" and "\<not> known t x"
  shows "\<exists>e. traverse_past_cone d h t s {} roots md = Some (Inl e)"
proof -
  from walks_from_empty [OF assms(1)] obtain ord out where w: "walks d t {} roots ord out" by blast
  with assms(2,3) obtain y where "out = Inl y" by (cases out) (auto simp: walks_def)
  with w show ?thesis by (auto simp: walks_def resume_def split: sum.splits)
qed

theorem traversal_needs_cone_witness:
  "\<exists>e. traverse_past_cone sample_deps sorted_iter sample_view Storage_new {} [mid 3]
     (WhiteFlagMetadata_new (MilestoneIndex 8)) = Some (Inl e)"
  using traversal_needs_cone [OF sample_ranked, of "mid 3" "[mid 3]"]
  by (simp add: cones_def known_def sample_view_def)



end
