(* ===== verification/Ledger_Confirmed.thy ===== *)
theory Ledger_Confirmed
  imports Ledger_Invariant Past_Cone
begin

text \<open>
  A milestone that is confirmed and applied keeps the invariant of the ledger, and the two checks at
  the end of the White Flag computation cannot fail.
\<close>

section \<open>The checks at the end\<close>

definition counts_ok :: "WhiteFlagMetadata \<Rightarrow> bool" where
  "counts_ok md \<longleftrightarrow>
     wf_referenced_messages md = length (wf_excluded_no_transaction_messages md) +
       length (wf_excluded_conflicting_messages md) + length (wf_included_messages md) \<and>
     finite (dom (wf_balance_diffs md)) \<and> diffs_amount (wf_balance_diffs md) = 0"

lemma entries_amount:
  assumes "hash_iter_spec h" and "finite (dom m)"
  shows "sum_list (map (BalanceDiff_amount \<circ> snd) (entries (iter_diffs h) m)) = diffs_amount m"
proof -
  have "distinct (iter_diffs h m)" "set (iter_diffs h m) = dom m"
    using hash_iter_specD(1) [OF assms(1)] assms(2) by (auto simp: keys_of_def)
  then show ?thesis
    by (simp add: entries_def comp_def sum_list_distinct_conv_sum_set diffs_amount_def)
qed

lemma apply_message_counts_ok:
  assumes h: "hash_iter_spec h" and C: "counts_ok md" and run: "apply_message d h s m msg md = Inr md'"
  shows "counts_ok md'"
  using run
proof (cases rule: apply_message_cases)
  case (included tx md1)
  let ?md = "wf_referenced_messages_update Suc md"
  from apply_transaction_included [OF h tx_essence_eq included(2)] obtain consumed x m' where
    check: "check_regular_essence d h s (tx_essence tx) (TransactionPayload_unlock_blocks tx) ?md = Inr (consumed, x)"
    and merge: "BalanceDiffs_merge (entries (iter_diffs h) x) (wf_balance_diffs ?md) = Inr m'"
    and md1: "md1 = transaction_recorded d s m tx (tx_essence tx) ?md m'" .
  have x: "finite (dom x)" "diffs_amount x = 0" using check_regular_essence_consumed [OF check] by simp_all
  have "(\<Sum>(a, y)\<leftarrow>entries (iter_diffs h) x. BalanceDiff_amount y) = 0"
    using entries_amount [OF h x(1)] x(2) by (simp add: comp_def case_prod_unfold)
  with C BalanceDiffs_merge_amount [OF merge] show ?thesis
    by (simp add: counts_ok_def included(3) md1 transaction_recorded_def)
qed (use C in \<open>simp_all add: counts_ok_def\<close>)

lemma counts_ok_new: "counts_ok (WhiteFlagMetadata_new index)"
  by (simp add: counts_ok_def WhiteFlagMetadata_new_def BalanceDiffs_new_def diffs_amount_def)

lemma traverse_counts_ok:
  assumes "hash_iter_spec h" and "counts_ok md" and "traverse_past_cone d h t s v ms md = Some (Inr md')"
  shows "counts_ok md'"
  using traverse_invariant [OF assms(3), where P = counts_ok] apply_message_counts_ok [OF assms(1)] assms(2)
  by fastforce

definition with_merkle_proof :: "deps \<Rightarrow> WhiteFlagMetadata \<Rightarrow> WhiteFlagMetadata" where
  "with_merkle_proof d md =
     md\<lparr>wf_merkle_proof := MerkleHasher_digest (blake2b256 d) (wf_included_messages md)\<rparr>"

lemma white_flag_checks_pass:
  assumes "hash_iter_spec h" and "counts_ok md"
  shows "white_flag_checks d h md = Inr (with_merkle_proof d md)"
  using assms entries_amount [OF assms(1), of "wf_balance_diffs md"]
  by (simp add: white_flag_checks_def with_merkle_proof_def Let_def counts_ok_def)

lemma white_flag_eq:
  assumes "hash_iter_spec h" and "counts_ok md"
  shows "white_flag d h t s roots md =
    map_option (map_sum (\<lambda>e. e) (with_merkle_proof d)) (traverse_past_cone d h t s {} roots md)"
proof (cases "traverse_past_cone d h t s {} roots md")
  case (Some r)
  then show ?thesis
    using traverse_counts_ok [OF assms] white_flag_checks_pass [OF assms(1)]
    by (cases r) (simp_all add: white_flag_def)
qed (simp add: white_flag_def)

section \<open>The invariant after a confirmation\<close>

lemma traverse_metadata_ok:
  assumes "hash_iter_spec h" and "ledger_ok d U s" and "ids_distinct d U K" and "view_ok U t"
    and "metadata_ok d U K s n md" and "traverse_past_cone d h t s v ms md = Some (Inr md')"
  shows "metadata_ok d U K s n md'"
  using traverse_invariant [OF assms(6), where P = "metadata_ok d U K s n"]
    apply_message_metadata_ok [OF assms(1-4)] assms(5)
  by fastforce

lemma white_flag_metadata_ok:
  assumes "hash_iter_spec h" and "ledger_ok d U s" and "ids_distinct d U K" and "view_ok U t"
    and "white_flag d h t s roots (WhiteFlagMetadata_new index) = Some (Inr md)"
  shows "metadata_ok d U K s 0 md"
proof -
  from assms(5) obtain md1 where
    run: "traverse_past_cone d h t s {} roots (WhiteFlagMetadata_new index) = Some (Inr md1)"
    and md: "md = with_merkle_proof d md1"
    unfolding white_flag_eq [OF assms(1) counts_ok_new]
    by (cases "traverse_past_cone d h t s {} roots (WhiteFlagMetadata_new index)")
      (auto simp: map_sum_def split: sum.splits)
  from traverse_metadata_ok [OF assms(1-4) metadata_ok_new [OF assms(2)] run]
  show ?thesis by (rule metadata_ok_cong [rotated 3]) (simp_all add: md with_merkle_proof_def)
qed

section \<open>Applying the milestone\<close>

lemma utxos_applied:
  assumes h: "hash_iter_spec h" and L: "ledger_ok d U s" and M: "metadata_ok d U K s n md"
    and run: "apply_milestone h index (wf_created_outputs md) (wf_consumed_outputs md) (wf_balance_diffs md) mig s = Inr s'"
  shows "utxos s' = (utxos s ++ wf_created_outputs md) |` (- dom (wf_consumed_outputs md))"
proof -
  have fin: "finite_milestone (wf_created_outputs md) (wf_consumed_outputs md) (wf_balance_diffs md)"
    using M by (simp add: metadata_ok_def)
  note eff = apply_milestone_effect [OF h fin run]
  show ?thesis
    by (rule ext) (auto simp: utxos_def restrict_map_def eff(2,4) map_add_def split: option.splits)
qed

lemma tally_applied:
  assumes h: "hash_iter_spec h" and L: "ledger_ok d U s" and M: "metadata_ok d U K s n md"
    and run: "apply_milestone h index (wf_created_outputs md) (wf_consumed_outputs md) (wf_balance_diffs md) mig s = Inr s'"
  shows "tally f (utxos s) + tally f (wf_created_outputs md) = tally f (utxos s') + tally f (wf_spent_outputs md)"
proof -
  let ?all = "utxos s ++ wf_created_outputs md" and ?D = "dom (wf_consumed_outputs md)"
  have fin: "finite (dom (utxos s))" "finite (dom (wf_created_outputs md))"
    using L M utxos_dom(1) [OF L] by (simp_all add: ledger_ok_def metadata_ok_def finite_milestone_def)
  have "dom (utxos s) \<inter> dom (wf_created_outputs md) = {}"
    using M utxos_created by (fastforce simp: metadata_ok_def created_ok_def)
  from tally_add [OF fin this] have "tally f ?all = tally f (utxos s) + tally f (wf_created_outputs md)" .
  moreover have spent: "?all i = Some x" if "wf_consumed_outputs md i = Some (x, y)" for i x y
  proof -
    have "wf_created_outputs md i = Some x \<or> wf_created_outputs md i = None \<and> utxos s i = Some x"
      using M that unfolding metadata_ok_def consumed_ok_def by blast
    then show ?thesis by (auto simp: map_add_def)
  qed
  then have "?D \<subseteq> dom ?all" by fastforce
  moreover have "?all |` ?D = wf_spent_outputs md"
  proof
    fix i
    show "(?all |` ?D) i = wf_spent_outputs md i"
      using spent [of i] by (cases "wf_consumed_outputs md i") (auto simp: wf_spent_outputs_def restrict_map_def)
  qed
  ultimately show ?thesis
    using tally_restrict [of ?all ?D f] fin by (simp add: utxos_applied [OF h L M run])
qed

text \<open>The balance of an address after the milestone, entry by entry.\<close>

lemma output_fine_applied:
  assumes h: "hash_iter_spec h" and L: "ledger_ok d U s" and M: "metadata_ok d U K s n md"
    and run: "apply_milestone h index (wf_created_outputs md) (wf_consumed_outputs md) (wf_balance_diffs md) mig s = Inr s'"
    and x: "utxos s' i = Some x"
  shows "output_fine (CreatedOutput_inner x)"
proof -
  from x have "wf_created_outputs md i = Some x \<or> utxos s i = Some x"
    by (auto simp: utxos_applied [OF h L M run] restrict_map_def map_add_def split: if_splits option.splits)
  moreover have "created_ok d U K s md" using M by (simp add: metadata_ok_def)
  ultimately show ?thesis using utxos_dom(2) [OF L] by (auto simp: created_ok_def)
qed

lemma tally_delta_le_amount:
  assumes "\<And>i x. m i = Some x \<Longrightarrow> output_fine (CreatedOutput_inner x)"
  shows "tally (\<lambda>out. delta c out a) m \<le> tally (\<lambda>out. delta Coord_Amount out a) m"
proof -
  have "delta c out a \<le> delta Coord_Amount out a" if "output_fine out" for out
    using output_coord_le [OF that, of c] by (simp add: delta_def)
  then show ?thesis
    unfolding tally_def using assms by (intro sum_mono) (auto simp: out_at_def)
qed

lemma balance_at_applied_tally:
  assumes h: "hash_iter_spec h" and L: "ledger_ok d U s" and M: "metadata_ok d U K s n md"
    and run: "apply_milestone h index (wf_created_outputs md) (wf_consumed_outputs md) (wf_balance_diffs md) mig s = Inr s'"
  shows "balance_at s md c a = tally (\<lambda>out. delta c out a) (utxos s')"
proof -
  have "diff_at c (wf_balance_diffs md) a =
      tally (\<lambda>out. delta c out a) (wf_created_outputs md) - tally (\<lambda>out. delta c out a) (wf_spent_outputs md)"
    using M by (simp add: metadata_ok_def diffs_ok_def)
  moreover have "int (unat (balance_coord c (fetch_balance_or_default s a))) = tally (\<lambda>out. delta c out a) (utxos s)"
    using L by (simp add: ledger_ok_def balances_of_outputs_def)
  ultimately show ?thesis
    using tally_applied [OF h L M run, of "\<lambda>out. delta c out a"] by (simp add: balance_at_def)
qed

lemma fetch_balance_applied:
  assumes h: "hash_iter_spec h" and L: "ledger_ok d U s" and M: "metadata_ok d U K s n md"
    and run: "apply_milestone h index (wf_created_outputs md) (wf_consumed_outputs md) (wf_balance_diffs md) mig s = Inr s'"
  shows "int (unat (balance_coord c (fetch_balance_or_default s' a))) = balance_at s md c a"
proof -
  have fin: "finite_milestone (wf_created_outputs md) (wf_consumed_outputs md) (wf_balance_diffs md)"
    using M by (simp add: metadata_ok_def)
  note eff = apply_milestone_effect [OF h fin run]
  have small: "Balance_small (fetch_balance_or_default s a)"
    using ledger_ok_small [OF L] by (simp add: balances_small_def)
  show ?thesis
  proof (cases "wf_balance_diffs md a")
    case None
    then have "fetch_balance_or_default s' a = fetch_balance_or_default s a"
      using eff(5) [of a] by (simp add: fetch_balance_or_default_def fetch_balance_def Table_fetch_def)
    moreover have "diff_at c (wf_balance_diffs md) a = 0"
      using None by (cases c) (simp_all add: diff_at_def or_default_def BalanceDiff_default_def)
    ultimately show ?thesis by (simp add: balance_at_def)
  next
    case (Some x)
    then obtain b where b: "balance_after s a x = Inr b" using eff(6) [of a x] by (cases "balance_after s a x") auto
    have at: "int (unat (balance_coord c b)) = balance_at s md c a" for c
      using apply_diff_coord [OF small b [unfolded balance_after_def], of c] Some
      by (simp add: balance_at_def diff_at_def or_default_def)
    have f: "fetch_balance_or_default s' a = (if Balance_amount b \<noteq> 0 then b else Balance_default)"
      using eff(5) [of a] Some b
      by (simp add: fetch_balance_or_default_def fetch_balance_def Table_fetch_def stored_balance_def)
    show ?thesis
    proof (cases "Balance_amount b = 0")
      case True
      have "balance_at s md c a \<le> balance_at s md Coord_Amount a"
        unfolding balance_at_applied_tally [OF h L M run]
        by (rule tally_delta_le_amount) (rule output_fine_applied [OF h L M run])
      with True at [of Coord_Amount] have "balance_at s md c a \<le> 0" by simp
      with at [of c] have "balance_at s md c a = 0" by linarith
      moreover have "balance_coord c Balance_default = 0" by (cases c) (simp_all add: Balance_default_def)
      ultimately show ?thesis using f True by simp
    qed (use f at in simp)
  qed
qed

lemma inputs_spent_applied:
  assumes h: "hash_iter_spec h" and L: "ledger_ok d U s" and M: "metadata_ok d U K s n md"
    and ids: "ids_distinct d U K"
    and run: "apply_milestone h index (wf_created_outputs md) (wf_consumed_outputs md) (wf_balance_diffs md) mig s = Inr s'"
  shows "inputs_spent d U s'"
proof -
  have fin: "finite_milestone (wf_created_outputs md) (wf_consumed_outputs md) (wf_balance_diffs md)"
    and C: "created_ok d U K s md" "consumed_ok s md"
    using M by (simp_all add: metadata_ok_def)
  note eff = apply_milestone_effect [OF h fin run]
  show ?thesis
    unfolding inputs_spent_def
  proof (intro ballI allI impI)
    fix tx i j
    assume tx: "tx \<in> U" and i: "output_id_to_created_output s' i \<noteq> None"
      "OutputId_transaction_id i = TransactionPayload_id d tx" and j: "j \<in> input_ids (tx_inputs tx)"
    show "output_id_to_created_output s' j \<noteq> None \<and> j \<notin> unspent_ids s'"
    proof (cases "wf_created_outputs md i")
      case None
      with i(1) have "output_id_to_created_output s i \<noteq> None" by (simp add: eff(2) map_add_def)
      with L tx i(2) j have "output_id_to_created_output s j \<noteq> None" "j \<notin> unspent_ids s"
        by (auto simp: ledger_ok_def inputs_spent_def)
      then show ?thesis using C(1) by (auto simp: eff(2,4) map_add_def created_ok_def split: option.splits)
    next
      case (Some x)
      then obtain tx' where "tx' \<in> U" "TransactionPayload_id d tx' = TransactionPayload_id d tx"
        "input_ids (tx_inputs tx') \<subseteq> dom (wf_consumed_outputs md)"
        using C(1) i(2) tx ids unfolding created_ok_def ids_distinct_def by force
      then have "j \<in> dom (wf_consumed_outputs md)" using ids tx j by (auto simp: ids_distinct_def inj_on_def)
      then obtain x y where xy: "wf_consumed_outputs md j = Some (x, y)" by auto
      with C(2) have "wf_created_outputs md j = Some x \<or> wf_created_outputs md j = None \<and> utxos s j = Some x"
        unfolding consumed_ok_def by blast
      then have "output_id_to_created_output s' j \<noteq> None"
        using utxos_created [of s j x] by (auto simp: eff(2) map_add_def)
      with xy show ?thesis by (auto simp: eff(4))
    qed
  qed
qed

lemma ledger_ok_applied:
  assumes h: "hash_iter_spec h" and L: "ledger_ok d U s" and M: "metadata_ok d U K s n md"
    and ids: "ids_distinct d U K"
    and run: "apply_milestone h index (wf_created_outputs md) (wf_consumed_outputs md) (wf_balance_diffs md) mig s = Inr s'"
    and treasury: "\<not> isl (fetch_unspent_treasury_output s')" "treasury_amount s' + n = treasury_amount s"
  shows "ledger_ok d U s'"
proof -
  have fin: "finite_milestone (wf_created_outputs md) (wf_consumed_outputs md) (wf_balance_diffs md)"
    using M by (simp add: metadata_ok_def)
  note fin' = fin [unfolded finite_milestone_def]
  note eff = apply_milestone_effect [OF h fin run] and bal = fetch_balance_applied [OF h L M run]
  have "finite (unspent_ids s')" using L fin' by (simp add: eff(4) ledger_ok_def)
  moreover have "finite (dom (address_to_balance s'))"
  proof -
    have "dom (address_to_balance s') \<subseteq> dom (address_to_balance s) \<union> dom (wf_balance_diffs md)"
      using eff(5) by (auto split: option.splits)
    then show ?thesis using L fin' by (auto simp: ledger_ok_def intro: finite_subset)
  qed
  moreover have "\<exists>x. output_id_to_created_output s' i = Some x \<and> output_fine (CreatedOutput_inner x)"
    if i: "i \<in> unspent_ids s'" for i
  proof -
    have "output_id_to_created_output s' i \<noteq> None"
      using i L by (auto simp: eff(2,4) map_add_def ledger_ok_def split: option.splits)
    then obtain x where x: "output_id_to_created_output s' i = Some x" by auto
    then have "utxos s' i = Some x" using i by (simp add: utxos_def)
    with x output_fine_applied [OF h L M run] show ?thesis by blast
  qed
  moreover have "balances_of_outputs s'"
    unfolding balances_of_outputs_def bal balance_at_applied_tally [OF h L M run] by simp
  moreover have "Balance_amount b \<noteq> 0 \<and> dust_ok b" if b: "address_to_balance s' a = Some b" for a b
  proof
    have f: "fetch_balance_or_default s' a = b"
      using b by (simp add: fetch_balance_or_default_def fetch_balance_def Table_fetch_def)
    show "dust_ok b"
      using bal [of Coord_Allowance a] bal [of Coord_Dust a] M by (simp add: f dust_ok_rule metadata_ok_def)
    show "Balance_amount b \<noteq> 0"
      using eff(5) [of a] b L by (auto simp: stored_balance_def ledger_ok_def split: option.splits if_splits)
  qed
  moreover have "tally output_amount (utxos s') + treasury_amount s' = unat IOTA_SUPPLY"
    using tally_applied [OF h L M run, of output_amount] L M treasury(2)
    by (simp add: ledger_ok_def metadata_ok_def)
  ultimately show ?thesis
    using treasury(1) inputs_spent_applied [OF h L M ids run] by (simp add: ledger_ok_def)
qed

end
