(* ===== verification/Tangle_Model.thy ===== *)
theory Tangle_Model
  imports Ledger_Storage
begin

text \<open>
  The tangle of bee-tangle: vertices (vec_set.rs, vertex.rs), the partitioned cache of vertices
  (vertices.rs) and the tangle itself (config.rs, tangle.rs), which answers from the cache, falls
  back to the storage and evicts vertices when the cache is too large.

  Operations are sequences of steps under the locks of the source; one operation is modelled as one
  function on the state. The hash function of the cache, the order in which a raw table is iterated
  and the random choices of the eviction are parts of the state that nothing is assumed about, except
  that a table is iterated over its keys. \<open>None\<close> is a panic. The storage is the in-memory backend,
  whose operations do not fail.
\<close>

section \<open>Vertices\<close>

definition VecSet_insert :: "'a \<Rightarrow> 'a list \<Rightarrow> 'a list" where
  "VecSet_insert item items = (if item \<in> set items then items else items @ [item])"

record Vertex =
  Vertex_message_and_metadata :: "(Message \<times> MessageMetadata) option"
  Vertex_children :: "MessageId list"
  Vertex_children_exhaustive :: bool
  Vertex_eviction_blocks :: int

definition Vertex_empty :: Vertex where
  "Vertex_empty = \<lparr>Vertex_message_and_metadata = None, Vertex_children = [], Vertex_children_exhaustive = False,
     Vertex_eviction_blocks = 0\<rparr>"

definition Vertex_message :: "Vertex \<Rightarrow> Message option" where
  "Vertex_message self = map_option fst (Vertex_message_and_metadata self)"

definition Vertex_metadata :: "Vertex \<Rightarrow> MessageMetadata option" where
  "Vertex_metadata self = map_option snd (Vertex_message_and_metadata self)"

definition Vertex_add_child :: "MessageId \<Rightarrow> Vertex \<Rightarrow> Vertex" where
  "Vertex_add_child child self = self\<lparr>Vertex_children := VecSet_insert child (Vertex_children self)\<rparr>"

definition Vertex_set_exhaustive :: "Vertex \<Rightarrow> Vertex" where
  "Vertex_set_exhaustive self = self\<lparr>Vertex_children_exhaustive := True\<rparr>"

definition Vertex_insert_message_and_metadata :: "Message \<Rightarrow> MessageMetadata \<Rightarrow> Vertex \<Rightarrow> Vertex" where
  "Vertex_insert_message_and_metadata message metadata self =
     self\<lparr>Vertex_message_and_metadata := Some (message, metadata)\<rparr>"

definition Vertex_prevent_eviction :: "Vertex \<Rightarrow> Vertex" where
  "Vertex_prevent_eviction self = self\<lparr>Vertex_eviction_blocks := Vertex_eviction_blocks self + 1\<rparr>"

definition Vertex_allow_eviction :: "Vertex \<Rightarrow> Vertex option" where
  "Vertex_allow_eviction self =
     (let self = self\<lparr>Vertex_eviction_blocks := Vertex_eviction_blocks self - 1\<rparr> in
      if Vertex_eviction_blocks self \<ge> 0 then Some self else None)"

definition Vertex_can_evict :: "Vertex \<Rightarrow> bool" where
  "Vertex_can_evict self \<longleftrightarrow> Vertex_eviction_blocks self = 0"

section \<open>The cache\<close>

type_synonym RawTable = "MessageId \<rightharpoonup> Vertex"

text \<open>A random choice: a number that is reduced to the index of a table, and whether the lock of that
  table is free.\<close>

type_synonym rng = "nat \<Rightarrow> nat \<times> bool"

definition rng_advance :: "rng \<Rightarrow> rng" where
  "rng_advance r = (\<lambda>n. r (Suc n))"

record Vertices =
  Vertices_hash_builder :: "MessageId \<Rightarrow> u64"
  Vertices_table_iter :: "RawTable \<Rightarrow> MessageId list"
  Vertices_tables :: "RawTable list"
  Vertices_len :: nat

definition Vertices_new :: "(MessageId \<Rightarrow> u64) \<Rightarrow> (RawTable \<Rightarrow> MessageId list) \<Rightarrow> nat \<Rightarrow> Vertices" where
  "Vertices_new hash iter num_partitions = \<lparr>Vertices_hash_builder = hash, Vertices_table_iter = iter,
     Vertices_tables = replicate num_partitions Map.empty, Vertices_len = 0\<rparr>"

definition Vertices_get_table :: "Vertices \<Rightarrow> MessageId \<Rightarrow> nat" where
  "Vertices_get_table self message_id =
     unat (Vertices_hash_builder self message_id) mod length (Vertices_tables self)"

definition Vertices_get :: "Vertices \<Rightarrow> MessageId \<Rightarrow> Vertex option" where
  "Vertices_get self message_id = (Vertices_tables self ! Vertices_get_table self message_id) message_id"

text \<open>Writing through the guard that \<open>get_mut\<close> returns.\<close>

definition Vertices_set :: "MessageId \<Rightarrow> Vertex \<Rightarrow> Vertices \<Rightarrow> Vertices" where
  "Vertices_set message_id vertex self =
     (let i = Vertices_get_table self message_id in
      self\<lparr>Vertices_tables := (Vertices_tables self)[i := (Vertices_tables self ! i)(message_id \<mapsto> vertex)]\<rparr>)"

definition Vertices_get_mut_or_empty :: "MessageId \<Rightarrow> Vertices \<Rightarrow> Vertex \<times> Vertices" where
  "Vertices_get_mut_or_empty message_id self =
     (case Vertices_get self message_id of
        Some vertex \<Rightarrow> (vertex, self)
      | None \<Rightarrow> (Vertex_empty, (Vertices_set message_id Vertex_empty self)\<lparr>Vertices_len := Vertices_len self + 1\<rparr>))"

fun Vertices_pop_random :: "nat \<Rightarrow> rng \<Rightarrow> Vertices \<Rightarrow> rng \<times> Vertices \<times> Vertex option" where
  "Vertices_pop_random 0 rng self = (rng, self, None)"
| "Vertices_pop_random (Suc retries) rng self =
     (let index = fst (rng 0) mod length (Vertices_tables self);
          table = Vertices_tables self ! index;
          evictable = find (\<lambda>m. case table m of Some vertex \<Rightarrow> Vertex_can_evict vertex | None \<Rightarrow> False)
            (Vertices_table_iter self table)
      in
      case (if snd (rng 0) then evictable else None) of
        Some m \<Rightarrow>
          (rng_advance rng,
           self\<lparr>Vertices_len := Vertices_len self - 1,
             Vertices_tables := (Vertices_tables self)[index := table(m := None)]\<rparr>, table m)
      | None \<Rightarrow> Vertices_pop_random retries (rng_advance rng) self)"

section \<open>Configuration\<close>

definition DEFAULT_BELOW_MAX_DEPTH :: u32 where
  "DEFAULT_BELOW_MAX_DEPTH = 15"

definition DEFAULT_NUM_PARTITIONS :: nat where
  "DEFAULT_NUM_PARTITIONS = 16"

definition DEFAULT_MAX_EVICTION_RETRIES :: nat where
  "DEFAULT_MAX_EVICTION_RETRIES = 10"

record TangleConfig =
  below_max_depth :: u32
  num_partitions :: nat
  max_eviction_retries :: nat

record TangleConfigBuilder =
  builder_below_max_depth :: "u32 option"
  builder_num_partitions :: "nat option"
  builder_max_eviction_retries :: "nat option"

definition unwrap_or :: "'a \<Rightarrow> 'a option \<Rightarrow> 'a" where
  "unwrap_or other x = (case x of Some y \<Rightarrow> y | None \<Rightarrow> other)"

definition TangleConfigBuilder_finish :: "TangleConfigBuilder \<Rightarrow> TangleConfig" where
  "TangleConfigBuilder_finish self =
     \<lparr>below_max_depth = unwrap_or DEFAULT_BELOW_MAX_DEPTH (builder_below_max_depth self),
      num_partitions = unwrap_or DEFAULT_NUM_PARTITIONS (builder_num_partitions self),
      max_eviction_retries = unwrap_or DEFAULT_MAX_EVICTION_RETRIES (builder_max_eviction_retries self)\<rparr>"

section \<open>The tangle\<close>

definition DEFAULT_CACHE_LEN :: nat where
  "DEFAULT_CACHE_LEN = 100000"

definition SYNCED_THRESHOLD :: u32 where
  "SYNCED_THRESHOLD = 2"

definition CONFIRMED_THRESHOLD :: u32 where
  "CONFIRMED_THRESHOLD = 2"

record Tangle =
  config :: TangleConfig
  vertices :: Vertices
  max_len :: nat
  storage :: InnerStorage
  milestones :: "MilestoneIndex \<rightharpoonup> Milestone"
  solid_entry_points :: "SolidEntryPoint \<rightharpoonup> MilestoneIndex"
  latest_milestone_index :: MilestoneIndex
  solid_milestone_index :: MilestoneIndex
  confirmed_milestone_index :: MilestoneIndex
  snapshot_index :: MilestoneIndex
  pruning_index :: MilestoneIndex
  entry_point_index :: MilestoneIndex
  random :: rng

definition Tangle_new ::
  "(MessageId \<Rightarrow> u64) \<Rightarrow> (RawTable \<Rightarrow> MessageId list) \<Rightarrow> rng \<Rightarrow> TangleConfig \<Rightarrow> InnerStorage \<Rightarrow> Tangle" where
  "Tangle_new hash iter rng c s = \<lparr>config = c, vertices = Vertices_new hash iter (num_partitions c),
     max_len = DEFAULT_CACHE_LEN, storage = s, milestones = Map.empty, solid_entry_points = Map.empty,
     latest_milestone_index = MilestoneIndex 0, solid_milestone_index = MilestoneIndex 0,
     confirmed_milestone_index = MilestoneIndex 0, snapshot_index = MilestoneIndex 0,
     pruning_index = MilestoneIndex 0, entry_point_index = MilestoneIndex 0, random = rng\<rparr>"

definition Tangle_storage_get :: "Tangle \<Rightarrow> MessageId \<Rightarrow> (Message \<times> MessageMetadata) option" where
  "Tangle_storage_get self m =
     (case Table_fetch (message_id_to_message (storage self)) m of
        Some msg \<Rightarrow> map_option (\<lambda>meta. (msg, meta)) (Table_fetch (message_id_to_metadata (storage self)) m)
      | None \<Rightarrow> None)"

definition Tangle_storage_insert :: "MessageId \<Rightarrow> Message \<Rightarrow> MessageMetadata \<Rightarrow> Tangle \<Rightarrow> Tangle" where
  "Tangle_storage_insert m msg meta self = self\<lparr>storage := (storage self)
     \<lparr>message_id_to_message := Table_insert m msg (message_id_to_message (storage self)),
      message_id_to_metadata := Table_insert m meta (message_id_to_metadata (storage self))\<rparr>\<rparr>"

text \<open>The size the eviction brings the cache down to is nine tenths of the maximum; for the sizes in
  use the floating point computation of the source gives the quotient below.\<close>

lemma pop_random_len:
  "Vertices_pop_random retries rng self = (rng', self', Some v) \<Longrightarrow> Vertices_len self' = Vertices_len self - 1"
  by (induction retries rng self rule: Vertices_pop_random.induct)
    (auto simp: Let_def find_Some_iff split: option.splits if_splits)

function eviction_loop :: "nat \<Rightarrow> nat \<Rightarrow> rng \<Rightarrow> Vertices \<Rightarrow> rng \<times> Vertices" where
  "eviction_loop retries target rng vs =
     (if target < Vertices_len vs
      then case Vertices_pop_random retries rng vs of
             (rng, vs', Some _) \<Rightarrow> eviction_loop retries target rng vs'
           | (rng, vs', None) \<Rightarrow> (rng, vs')
      else (rng, vs))"
  by pat_completeness auto

termination
  by (relation "measure (\<lambda>(_, _, _, vs). Vertices_len vs)") (auto dest!: pop_random_len [OF sym])

declare eviction_loop.simps [simp del]

definition Tangle_perform_eviction :: "Tangle \<Rightarrow> Tangle" where
  "Tangle_perform_eviction self =
     (if max_len self < Vertices_len (vertices self)
      then case eviction_loop (max_eviction_retries (config self)) (9 * max_len self div 10) (random self) (vertices self)
           of (rng, vs) \<Rightarrow> self\<lparr>vertices := vs, random := rng\<rparr>
      else self)"

fun add_children :: "MessageId \<Rightarrow> MessageId list \<Rightarrow> Vertices \<Rightarrow> Vertices" where
  "add_children child [] vs = vs"
| "add_children child (parent # parents) vs =
     (case Vertices_get_mut_or_empty parent vs of (vertex, vs) \<Rightarrow>
        add_children child parents (Vertices_set parent (Vertex_add_child child vertex) vs))"

definition Tangle_insert_inner ::
  "MessageId \<Rightarrow> Message \<Rightarrow> MessageMetadata \<Rightarrow> bool \<Rightarrow> Tangle \<Rightarrow> Message option \<times> Tangle" where
  "Tangle_insert_inner message_id message metadata prevent_eviction self =
     (case Vertices_get_mut_or_empty message_id (vertices self) of (vertex, vs) \<Rightarrow>
      let vertex = (if prevent_eviction then Vertex_prevent_eviction vertex else vertex) in
      if Vertex_message vertex \<noteq> None
      then (None, Tangle_perform_eviction (self\<lparr>vertices := Vertices_set message_id vertex vs\<rparr>))
      else
        let vertex = Vertex_insert_message_and_metadata message metadata vertex;
            vs = Vertices_set message_id vertex vs;
            vs = add_children message_id (Parents_ids (Message_parents message)) vs
        in (Vertex_message vertex, Tangle_perform_eviction (self\<lparr>vertices := vs\<rparr>)))"

definition Tangle_contains_inner :: "Tangle \<Rightarrow> MessageId \<Rightarrow> bool" where
  "Tangle_contains_inner self message_id \<longleftrightarrow>
     (case Vertices_get (vertices self) message_id of Some v \<Rightarrow> Vertex_message v \<noteq> None | None \<Rightarrow> False)"

definition Tangle_pull_message :: "MessageId \<Rightarrow> bool \<Rightarrow> Tangle \<Rightarrow> bool \<times> Tangle" where
  "Tangle_pull_message message_id prevent_eviction self =
     (if Tangle_contains_inner self message_id
      then (True,
        if prevent_eviction
        then self\<lparr>vertices := Vertices_set message_id
          (Vertex_prevent_eviction (the (Vertices_get (vertices self) message_id))) (vertices self)\<rparr>
        else self)
      else case Tangle_storage_get self message_id of
        Some (msg, metadata) \<Rightarrow> (True, snd (Tangle_insert_inner message_id msg metadata prevent_eviction self))
      | None \<Rightarrow> (False, self))"

text \<open>\<open>get_with\<close> and \<open>get_vertex\<close>: the vertex, pulled from the storage if need be.\<close>

definition Tangle_get_vertex :: "MessageId \<Rightarrow> Tangle \<Rightarrow> (Vertex option \<times> Tangle) option" where
  "Tangle_get_vertex message_id self =
     (case Tangle_pull_message message_id True self of (exists, self) \<Rightarrow>
      case Vertices_get (vertices self) message_id of
        None \<Rightarrow> Some (None, self)
      | Some v \<Rightarrow>
          if exists
          then map_option (\<lambda>v. (Some v, self\<lparr>vertices := Vertices_set message_id v (vertices self)\<rparr>))
                 (Vertex_allow_eviction v)
          else Some (Some v, self))"

definition Tangle_get :: "MessageId \<Rightarrow> Tangle \<Rightarrow> (Message option \<times> Tangle) option" where
  "Tangle_get message_id self =
     map_option (\<lambda>(v, self). (Option.bind v Vertex_message, self)) (Tangle_get_vertex message_id self)"

definition Tangle_get_metadata :: "MessageId \<Rightarrow> Tangle \<Rightarrow> (MessageMetadata option \<times> Tangle) option" where
  "Tangle_get_metadata message_id self =
     map_option (\<lambda>(v, self). (Option.bind v Vertex_metadata, self)) (Tangle_get_vertex message_id self)"

definition Tangle_contains :: "MessageId \<Rightarrow> Tangle \<Rightarrow> bool \<times> Tangle" where
  "Tangle_contains message_id self =
     (if Tangle_contains_inner self message_id then (True, self)
      else Tangle_pull_message message_id False self)"

fun insert_approvers :: "MessageId \<Rightarrow> MessageId list \<Rightarrow> InnerStorage \<Rightarrow> InnerStorage" where
  "insert_approvers child [] s = s"
| "insert_approvers child (parent # parents) s =
     insert_approvers child parents
       (s\<lparr>message_id_to_message_id := VecBinTable_insert (parent, child) () (message_id_to_message_id s)\<rparr>)"

definition Tangle_insert ::
  "Message \<Rightarrow> MessageId \<Rightarrow> MessageMetadata \<Rightarrow> Tangle \<Rightarrow> (Message option \<times> Tangle) option" where
  "Tangle_insert message message_id metadata self =
     (case Tangle_pull_message message_id True self of (exists, self) \<Rightarrow>
      case Tangle_insert_inner message_id message metadata (\<not> exists) self of (msg, self) \<Rightarrow>
      Option.bind (Vertices_get (vertices self) message_id) (\<lambda>v.
      Option.bind (Vertex_allow_eviction v) (\<lambda>v.
      let self = self\<lparr>vertices := Vertices_set message_id v (vertices self)\<rparr> in
      if msg \<noteq> None
      then let self = self\<lparr>storage := insert_approvers message_id (Parents_ids (Message_parents message)) (storage self)\<rparr>
           in Some (msg, Tangle_storage_insert message_id message metadata self)
      else Some (msg, self))))"

definition Tangle_update_metadata ::
  "MessageId \<Rightarrow> (MessageMetadata \<Rightarrow> MessageMetadata) \<Rightarrow> Tangle \<Rightarrow> Tangle option" where
  "Tangle_update_metadata message_id update self =
     (case Tangle_pull_message message_id True self of (exists, self) \<Rightarrow>
      case Vertices_get (vertices self) message_id of
        None \<Rightarrow> Some self
      | Some vertex \<Rightarrow>
          Option.bind (if exists then Vertex_allow_eviction vertex else Some vertex) (\<lambda>vertex.
          let vertex = Vertex_message_and_metadata_update (map_option (apsnd update)) vertex;
              self = self\<lparr>vertices := Vertices_set message_id vertex (vertices self)\<rparr>
          in Some (case Vertex_message_and_metadata vertex of
                     Some (msg, meta) \<Rightarrow> Tangle_storage_insert message_id msg meta self
                   | None \<Rightarrow> self)))"

text \<open>The children of a message, from the cache if it is known to hold all of them.\<close>

definition Tangle_get_children :: "MessageId \<Rightarrow> Tangle \<Rightarrow> MessageId list \<times> Tangle" where
  "Tangle_get_children message_id self =
     (let exhaustive = Option.bind (Vertices_get (vertices self) message_id)
            (\<lambda>v. if Vertex_children_exhaustive v then Some v else None) in
      case exhaustive of
        Some vertex \<Rightarrow> (Vertex_children vertex, self)
      | None \<Rightarrow>
          (let to_insert = or_empty (VecBinTable_fetch (message_id_to_message_id (storage self)) message_id) in
           case Vertices_get_mut_or_empty message_id (vertices self) of (vertex, vs) \<Rightarrow>
           let vertex = fold Vertex_add_child to_insert (Vertex_set_exhaustive vertex)
           in (Vertex_children vertex, self\<lparr>vertices := Vertices_set message_id vertex vs\<rparr>)))"

section \<open>Milestones, indices and solid entry points\<close>

definition Tangle_add_milestone :: "deps \<Rightarrow> MilestoneIndex \<Rightarrow> Milestone \<Rightarrow> Tangle \<Rightarrow> Tangle option" where
  "Tangle_add_milestone d idx milestone self =
     Option.bind (Tangle_update_metadata (Milestone_message_id milestone) (\<lambda>metadata.
       metadata\<lparr>MessageMetadata_flags := Flags_set_milestone d True (MessageMetadata_flags metadata),
         MessageMetadata_milestone_index := Some idx,
         MessageMetadata_omrsi := Some (IndexId idx (Milestone_message_id milestone)),
         MessageMetadata_ymrsi := Some (IndexId idx (Milestone_message_id milestone))\<rparr>) self) (\<lambda>self.
     Some (self\<lparr>storage := (storage self)\<lparr>milestone_index_to_milestone :=
         Table_insert idx milestone (milestone_index_to_milestone (storage self))\<rparr>,
       milestones := (milestones self)(idx \<mapsto> milestone)\<rparr>))"

definition Tangle_remove_milestone :: "MilestoneIndex \<Rightarrow> Tangle \<Rightarrow> Tangle" where
  "Tangle_remove_milestone index self = self\<lparr>milestones := (milestones self)(index := None)\<rparr>"

definition Tangle_pull_milestone :: "MilestoneIndex \<Rightarrow> Tangle \<Rightarrow> MessageId option \<times> Tangle" where
  "Tangle_pull_milestone idx self =
     (case Table_fetch (milestone_index_to_milestone (storage self)) idx of
        Some milestone \<Rightarrow>
          (let entry = unwrap_or milestone (milestones self idx) in
           (Some (Milestone_message_id entry), self\<lparr>milestones := (milestones self)(idx \<mapsto> entry)\<rparr>))
      | None \<Rightarrow> (None, self))"

definition Tangle_get_milestone_message_id :: "MilestoneIndex \<Rightarrow> Tangle \<Rightarrow> MessageId option \<times> Tangle" where
  "Tangle_get_milestone_message_id index self =
     (case milestones self index of
        Some m \<Rightarrow> (Some (Milestone_message_id m), self)
      | None \<Rightarrow> Tangle_pull_milestone index self)"

definition Tangle_get_milestone_message :: "MilestoneIndex \<Rightarrow> Tangle \<Rightarrow> (Message option \<times> Tangle) option" where
  "Tangle_get_milestone_message index self =
     (case Tangle_get_milestone_message_id index self of
        (None, self) \<Rightarrow> Some (None, self)
      | (Some hash, self) \<Rightarrow> Tangle_get hash self)"

definition Tangle_contains_milestone :: "MilestoneIndex \<Rightarrow> Tangle \<Rightarrow> bool \<times> Tangle" where
  "Tangle_contains_milestone idx self =
     (if milestones self idx \<noteq> None then (True, self)
      else case Tangle_pull_milestone idx self of (m, self) \<Rightarrow> (m \<noteq> None, self))"

definition saturating_sub_u32 :: "u32 \<Rightarrow> u32 \<Rightarrow> u32" where
  "saturating_sub_u32 a b = (if b \<le> a then a - b else 0)"

definition Tangle_get_sync_threshold :: "Tangle \<Rightarrow> u32" where
  "Tangle_get_sync_threshold self =
     saturating_sub_u32 (MilestoneIndex_value (latest_milestone_index self))
       (MilestoneIndex_value (solid_milestone_index self))"

text \<open>The new size of the cache: with a threshold beyond 198 the floating point sum of the source is
  above the maximum, below it is exact.\<close>

definition Tangle_update_solid_milestone_index :: "MilestoneIndex \<Rightarrow> Tangle \<Rightarrow> Tangle" where
  "Tangle_update_solid_milestone_index new_index self =
     (let self = self\<lparr>solid_milestone_index := new_index\<rparr> in
      self\<lparr>max_len := max (min (1000 + unat (Tangle_get_sync_threshold self) * 500) DEFAULT_CACHE_LEN) 8192\<rparr>)"

definition Tangle_is_synced_threshold :: "u32 \<Rightarrow> Tangle \<Rightarrow> bool" where
  "Tangle_is_synced_threshold threshold self \<longleftrightarrow>
     MilestoneIndex_value (solid_milestone_index self) \<ge>
       saturating_sub_u32 (MilestoneIndex_value (latest_milestone_index self)) threshold"

definition Tangle_is_confirmed_threshold :: "u32 \<Rightarrow> Tangle \<Rightarrow> bool" where
  "Tangle_is_confirmed_threshold threshold self \<longleftrightarrow>
     MilestoneIndex_value (confirmed_milestone_index self) \<ge>
       saturating_sub_u32 (MilestoneIndex_value (latest_milestone_index self)) threshold"

definition Tangle_is_synced :: "Tangle \<Rightarrow> bool" where
  "Tangle_is_synced self = Tangle_is_synced_threshold SYNCED_THRESHOLD self"

definition Tangle_is_confirmed :: "Tangle \<Rightarrow> bool" where
  "Tangle_is_confirmed self = Tangle_is_confirmed_threshold CONFIRMED_THRESHOLD self"

definition Tangle_replace_solid_entry_points ::
  "(SolidEntryPoint \<times> MilestoneIndex) list \<Rightarrow> Tangle \<Rightarrow> Tangle" where
  "Tangle_replace_solid_entry_points new_seps self =
     self\<lparr>solid_entry_points := fold (\<lambda>(sep, index) m. m(sep \<mapsto> index)) new_seps Map.empty\<rparr>"

definition Tangle_is_solid_entry_point :: "Tangle \<Rightarrow> MessageId \<Rightarrow> bool" where
  "Tangle_is_solid_entry_point self m \<longleftrightarrow> solid_entry_points self (SolidEntryPoint m) \<noteq> None"

definition Tangle_is_solid_message :: "deps \<Rightarrow> MessageId \<Rightarrow> Tangle \<Rightarrow> (bool \<times> Tangle) option" where
  "Tangle_is_solid_message d m self =
     (if Tangle_is_solid_entry_point self m then Some (True, self)
      else map_option (\<lambda>(meta, self).
        (unwrap_or False (map_option (\<lambda>metadata. Flags_is_solid d (MessageMetadata_flags metadata)) meta), self))
        (Tangle_get_metadata m self))"

definition Tangle_omrsi :: "MessageId \<Rightarrow> Tangle \<Rightarrow> (IndexId option \<times> Tangle) option" where
  "Tangle_omrsi m self =
     (case solid_entry_points self (SolidEntryPoint m) of
        Some sep \<Rightarrow> Some (Some (IndexId sep m), self)
      | None \<Rightarrow> map_option (\<lambda>(meta, self). (Option.bind meta MessageMetadata_omrsi, self)) (Tangle_get_metadata m self))"

definition Tangle_ymrsi :: "MessageId \<Rightarrow> Tangle \<Rightarrow> (IndexId option \<times> Tangle) option" where
  "Tangle_ymrsi m self =
     (case solid_entry_points self (SolidEntryPoint m) of
        Some sep \<Rightarrow> Some (Some (IndexId sep m), self)
      | None \<Rightarrow> map_option (\<lambda>(meta, self). (Option.bind meta MessageMetadata_ymrsi, self)) (Tangle_get_metadata m self))"

end
