(* ===== verification/Tangle_Laws.thy ===== *)
theory Tangle_Laws
  imports Tangle_Model
begin

text \<open>
  The cache of the tangle is transparent: whatever is evicted and whatever the hash function and the
  random choices are, reads return what the storage holds, updates reach the storage, no operation
  panics, and the children of a message are the approvers the storage knows.
\<close>

section \<open>The cache as a map\<close>

definition vertices_inv :: "Vertices \<Rightarrow> bool" where
  "vertices_inv vs \<longleftrightarrow> Vertices_tables vs \<noteq> [] \<and> keys_of (Vertices_table_iter vs) \<and>
     (\<forall>i < length (Vertices_tables vs). finite (dom (Vertices_tables vs ! i)) \<and>
        (\<forall>m \<in> dom (Vertices_tables vs ! i). Vertices_get_table vs m = i)) \<and>
     Vertices_len vs = (\<Sum>t\<leftarrow>Vertices_tables vs. card (dom t))"

lemma get_table_less: "vertices_inv vs \<Longrightarrow> Vertices_get_table vs m < length (Vertices_tables vs)"
  by (simp add: vertices_inv_def Vertices_get_table_def)

lemma get_table_tables: "length ts = length (Vertices_tables vs) \<Longrightarrow>
  Vertices_get_table (vs\<lparr>Vertices_tables := ts\<rparr>) m = Vertices_get_table vs m"
  by (simp add: Vertices_get_table_def)

lemma get_table_len [simp]:
  "Vertices_get_table (vs\<lparr>Vertices_len := n\<rparr>) m = Vertices_get_table vs m"
  "Vertices_get (vs\<lparr>Vertices_len := n\<rparr>) = Vertices_get vs"
  by (simp_all add: Vertices_get_table_def Vertices_get_def fun_eq_iff)

lemma get_set:
  assumes "vertices_inv vs"
  shows "Vertices_get (Vertices_set m v vs) = (Vertices_get vs)(m \<mapsto> v)"
proof
  fix k
  show "Vertices_get (Vertices_set m v vs) k = ((Vertices_get vs)(m \<mapsto> v)) k"
    using get_table_less [OF assms, of m]
    by (auto simp: Vertices_get_def Vertices_set_def Let_def get_table_tables nth_list_update)
qed

lemma sum_list_update_nat:
  "i < length ts \<Longrightarrow> f (ts ! i) + sum_list (map f (ts[i := t])) = f t + (sum_list (map f ts) :: nat)"
proof (induction ts arbitrary: i)
  case (Cons x ts)
  then show ?case by (cases i) force+
qed simp

lemma set_inv:
  assumes inv: "vertices_inv vs"
  shows "vertices_inv ((Vertices_set m v vs)\<lparr>Vertices_len :=
    Vertices_len vs + (if Vertices_get vs m = None then 1 else 0)\<rparr>)"
proof -
  let ?i = "Vertices_get_table vs m" and ?ts = "Vertices_tables vs"
  let ?t = "?ts ! ?i"
  note i = get_table_less [OF inv, of m]
  have fin: "finite (dom ?t)" using inv i by (simp add: vertices_inv_def)
  have "card (dom (?t(m \<mapsto> v))) = card (dom ?t) + (if Vertices_get vs m = None then 1 else 0)"
    using fin by (auto simp: Vertices_get_def card_insert_if)
  with sum_list_update_nat [OF i, of "\<lambda>t. card (dom t)" "?t(m \<mapsto> v)"]
  have "(\<Sum>t\<leftarrow>?ts[?i := ?t(m \<mapsto> v)]. card (dom t)) =
      (\<Sum>t\<leftarrow>?ts. card (dom t)) + (if Vertices_get vs m = None then 1 else 0)" by simp
  with inv i show ?thesis
    by (auto simp: vertices_inv_def Vertices_set_def Let_def get_table_tables nth_list_update)
qed

lemma set_inv_known:
  assumes "vertices_inv vs" and "Vertices_get vs m = Some w"
  shows "vertices_inv (Vertices_set m v vs)"
proof -
  have "Vertices_len (Vertices_set m v vs) = Vertices_len vs" by (simp add: Vertices_set_def Let_def)
  then have "(Vertices_set m v vs)\<lparr>Vertices_len := Vertices_len vs\<rparr> = Vertices_set m v vs"
    by (metis Vertices.surjective Vertices.update_convs(4) Vertices.select_convs(4))
  with set_inv [OF assms(1), of m v] assms(2) show ?thesis by simp
qed

lemma get_mut_or_empty:
  assumes "vertices_inv vs" and "Vertices_get_mut_or_empty m vs = (v, vs')"
  shows "vertices_inv vs'" and "v = unwrap_or Vertex_empty (Vertices_get vs m)"
    and "Vertices_get vs' = (Vertices_get vs)(m \<mapsto> v)"
proof -
  show "v = unwrap_or Vertex_empty (Vertices_get vs m)"
    using assms(2) by (auto simp: Vertices_get_mut_or_empty_def unwrap_or_def split: option.splits)
  show "vertices_inv vs'"
    using assms set_inv [OF assms(1), of m Vertex_empty]
    by (auto simp: Vertices_get_mut_or_empty_def split: option.splits)
  show "Vertices_get vs' = (Vertices_get vs)(m \<mapsto> v)"
    using assms get_set [OF assms(1), of m Vertex_empty]
    by (auto simp: Vertices_get_mut_or_empty_def fun_upd_idem split: option.splits)
qed

section \<open>Eviction\<close>

definition evicted :: "Vertices \<Rightarrow> Vertices \<Rightarrow> bool" where
  "evicted vs vs' \<longleftrightarrow> vertices_inv vs' \<and>
     (\<forall>m. Vertices_get vs' m = Vertices_get vs m \<or>
        Vertices_get vs' m = None \<and> (\<exists>v. Vertices_get vs m = Some v \<and> Vertex_can_evict v))"

lemma evicted_refl: "vertices_inv vs \<Longrightarrow> evicted vs vs"
  by (simp add: evicted_def)

lemma evicted_trans: "evicted a b \<Longrightarrow> evicted b c \<Longrightarrow> evicted a c"
  by (auto simp: evicted_def) metis+

lemma evict_one:
  assumes inv: "vertices_inv vs" and i: "i < length (Vertices_tables vs)"
    and v: "(Vertices_tables vs ! i) m = Some v" "Vertex_can_evict v"
  shows "evicted vs (vs\<lparr>Vertices_len := Vertices_len vs - 1,
    Vertices_tables := (Vertices_tables vs)[i := (Vertices_tables vs ! i)(m := None)]\<rparr>)"
proof -
  let ?t = "Vertices_tables vs ! i" and ?ts = "Vertices_tables vs"
  have fin: "finite (dom ?t)" and mi: "Vertices_get_table vs m = i" using inv i v by (auto simp: vertices_inv_def)
  have "card (dom ?t) = Suc (card (dom (?t(m := None))))"
    using card.remove [OF fin, of m] v(1) by (simp add: domI)
  with sum_list_update_nat [OF i, of "\<lambda>t. card (dom t)" "?t(m := None)"]
  have "(\<Sum>t\<leftarrow>?ts[i := ?t(m := None)]. card (dom t)) = (\<Sum>t\<leftarrow>?ts. card (dom t)) - 1" by simp
  then show ?thesis
    using inv i v mi
    by (auto simp: evicted_def vertices_inv_def get_table_tables nth_list_update Vertices_get_def)
qed

lemma pop_random_evicted:
  "vertices_inv vs \<Longrightarrow> Vertices_pop_random retries rng vs = (rng', vs', v) \<Longrightarrow> evicted vs vs'"
proof (induction retries rng vs rule: Vertices_pop_random.induct)
  case (1 rng self)
  then show ?case by (simp add: evicted_refl)
next
  case (2 retries rng self)
  let ?i = "fst (rng 0) mod length (Vertices_tables self)"
  let ?t = "Vertices_tables self ! ?i"
  let ?e = "if snd (rng 0) then find (\<lambda>m. case ?t m of Some vertex \<Rightarrow> Vertex_can_evict vertex | None \<Rightarrow> False)
      (Vertices_table_iter self ?t) else None"
  show ?case
  proof (cases ?e)
    case None
    with 2 show ?thesis by (simp add: Let_def)
  next
    case (Some m)
    then obtain w where "?t m = Some w" "Vertex_can_evict w" by (auto simp: find_Some_iff split: if_splits option.splits)
    moreover have "?i < length (Vertices_tables self)" using 2(2) by (simp add: vertices_inv_def)
    ultimately show ?thesis using evict_one [OF 2(2), of ?i m w] 2(3) Some by (simp add: Let_def)
  qed
qed

lemma eviction_loop_evicted:
  "vertices_inv vs \<Longrightarrow> eviction_loop retries target rng vs = (rng', vs') \<Longrightarrow> evicted vs vs'"
proof (induction retries target rng vs rule: eviction_loop.induct)
  case (1 retries target rng vs)
  show ?case
  proof (cases "target < Vertices_len vs")
    case True
    obtain rng1 vs1 v where p: "Vertices_pop_random retries rng vs = (rng1, vs1, v)" by (cases "Vertices_pop_random retries rng vs")
    note e = pop_random_evicted [OF 1(2) p]
    then have inv1: "vertices_inv vs1" by (simp add: evicted_def)
    show ?thesis
    proof (cases v)
      case None
      with 1(3) True p e show ?thesis by (simp add: eviction_loop.simps [of _ _ _ vs])
    next
      case (Some w)
      with 1(3) True p have "eviction_loop retries target rng1 vs1 = (rng', vs')"
        by (simp add: eviction_loop.simps [of _ _ _ vs])
      with 1(1) [OF True p [symmetric] refl Some inv1] e show ?thesis using evicted_trans by blast
    qed
  next
    case False
    with 1(2,3) show ?thesis by (simp add: eviction_loop.simps [of _ _ _ vs] evicted_refl)
  qed
qed

lemma perform_eviction:
  assumes "vertices_inv (vertices t)"
  shows "\<exists>vs rng. Tangle_perform_eviction t = t\<lparr>vertices := vs, random := rng\<rparr> \<and> evicted (vertices t) vs"
proof (cases "max_len t < Vertices_len (vertices t)")
  case True
  obtain rng vs where "eviction_loop (max_eviction_retries (config t)) (9 * max_len t div 10) (random t) (vertices t) = (rng, vs)"
    by (cases "eviction_loop (max_eviction_retries (config t)) (9 * max_len t div 10) (random t) (vertices t)")
  with True eviction_loop_evicted [OF assms this] show ?thesis by (auto simp: Tangle_perform_eviction_def)
next
  case False
  then have "Tangle_perform_eviction t = t\<lparr>vertices := vertices t, random := random t\<rparr>"
    by (simp add: Tangle_perform_eviction_def)
  with evicted_refl [OF assms] show ?thesis by blast
qed

section \<open>What the cache holds\<close>

text \<open>\<open>S\<close> is what the messages should be, \<open>A\<close> the children a message should have, \<open>B\<close> the messages
  whose eviction is blocked.\<close>

definition vertex_ok :: "int \<Rightarrow> (Message \<times> MessageMetadata) option \<Rightarrow> MessageId set \<Rightarrow> Vertex \<Rightarrow> bool" where
  "vertex_ok b x c v \<longleftrightarrow> Vertex_eviction_blocks v = b \<and>
     (Vertex_message_and_metadata v \<noteq> None \<longrightarrow> Vertex_message_and_metadata v = x) \<and>
     distinct (Vertex_children v) \<and> set (Vertex_children v) \<subseteq> c \<and>
     (Vertex_children_exhaustive v \<longrightarrow> set (Vertex_children v) = c)"

definition cache_ok ::
  "MessageId set \<Rightarrow> (MessageId \<rightharpoonup> Message \<times> MessageMetadata) \<Rightarrow> (MessageId \<Rightarrow> MessageId set) \<Rightarrow> Vertices \<Rightarrow> bool" where
  "cache_ok B S A vs \<longleftrightarrow> vertices_inv vs \<and>
     (\<forall>m v. Vertices_get vs m = Some v \<longrightarrow> vertex_ok (of_bool (m \<in> B)) (S m) (A m) v) \<and>
     (\<forall>m \<in> B. \<exists>v. Vertices_get vs m = Some v \<and> Vertex_message_and_metadata v \<noteq> None)"

lemma cache_okD:
  assumes "cache_ok B S A vs"
  shows "vertices_inv vs" and "Vertices_get vs m = Some v \<Longrightarrow> vertex_ok (of_bool (m \<in> B)) (S m) (A m) v"
    and "m \<in> B \<Longrightarrow> \<exists>v. Vertices_get vs m = Some v \<and> Vertex_message_and_metadata v \<noteq> None"
  using assms by (auto simp: cache_ok_def)

lemma cache_ok_evicted:
  assumes "cache_ok B S A vs" and "evicted vs vs'"
  shows "cache_ok B S A vs'"
proof -
  have keep: "Vertices_get vs' m = Some v \<Longrightarrow> Vertices_get vs m = Some v" for m v
    using assms(2) unfolding evicted_def by (metis option.distinct(1))
  have "\<exists>v. Vertices_get vs' m = Some v \<and> Vertex_message_and_metadata v \<noteq> None" if m: "m \<in> B" for m
  proof -
    from cache_okD(3) [OF assms(1) m] obtain v where
      v: "Vertices_get vs m = Some v" "Vertex_message_and_metadata v \<noteq> None" by blast
    from cache_okD(2) [OF assms(1) v(1)] m have "\<not> Vertex_can_evict v"
      by (simp add: vertex_ok_def Vertex_can_evict_def)
    with assms(2) v have "Vertices_get vs' m = Some v" unfolding evicted_def by (metis option.inject)
    with v(2) show ?thesis by blast
  qed
  with assms keep cache_okD(2) [OF assms(1)] show ?thesis by (auto simp: cache_ok_def evicted_def)
qed

lemma cache_ok_upd:
  assumes "cache_ok B S A vs" and "vertices_inv vs'" and "Vertices_get vs' = (Vertices_get vs)(m \<mapsto> v)"
    and "vertex_ok (of_bool (m \<in> B')) (S' m) (A' m) v"
    and "\<And>k. k \<noteq> m \<Longrightarrow> S' k = S k \<and> A' k = A k \<and> (k \<in> B' \<longleftrightarrow> k \<in> B)"
    and "m \<in> B' \<Longrightarrow> Vertex_message_and_metadata v \<noteq> None"
  shows "cache_ok B' S' A' vs'"
  using assms cache_okD(2,3) [OF assms(1)] unfolding cache_ok_def by (auto split: if_splits)

lemma set_children_add: "set (Vertex_children (Vertex_add_child c v)) = insert c (set (Vertex_children v))"
  by (auto simp: Vertex_add_child_def VecSet_insert_def)

lemma vertex_ok_add_child: "vertex_ok b x A v \<Longrightarrow> vertex_ok b x (insert c A) (Vertex_add_child c v)"
  using set_children_add [of c v]
  by (auto simp: vertex_ok_def) (auto simp: Vertex_add_child_def VecSet_insert_def)

lemma vertex_ok_empty: "vertex_ok 0 x A Vertex_empty"
  by (simp add: vertex_ok_def Vertex_empty_def)

lemma get_mut_vertex_ok:
  assumes "cache_ok B S A vs" and "Vertices_get_mut_or_empty m vs = (v, vs')"
  shows "vertex_ok (of_bool (m \<in> B)) (S m) (A m) v"
proof (cases "Vertices_get vs m")
  case None
  then have "m \<notin> B" using cache_okD(3) [OF assms(1), of m] by auto
  with None get_mut_or_empty(2) [OF cache_okD(1) [OF assms(1)] assms(2)] vertex_ok_empty
  show ?thesis by (simp add: unwrap_or_def)
next
  case (Some w)
  with get_mut_or_empty(2) [OF cache_okD(1) [OF assms(1)] assms(2)] cache_okD(2) [OF assms(1) Some]
  show ?thesis by (simp add: unwrap_or_def)
qed

lemma get_mut_set:
  assumes "vertices_inv vs" and "Vertices_get_mut_or_empty m vs = (v, vs')"
  shows "vertices_inv (Vertices_set m w vs')" and "Vertices_get (Vertices_set m w vs') = (Vertices_get vs)(m \<mapsto> w)"
proof -
  note g = get_mut_or_empty [OF assms]
  show "vertices_inv (Vertices_set m w vs')" by (rule set_inv_known [OF g(1)]) (simp add: g(3))
  show "Vertices_get (Vertices_set m w vs') = (Vertices_get vs)(m \<mapsto> w)" by (simp add: get_set [OF g(1)] g(3))
qed

definition approve :: "MessageId \<Rightarrow> MessageId list \<Rightarrow> (MessageId \<Rightarrow> MessageId set) \<Rightarrow> MessageId \<Rightarrow> MessageId set" where
  "approve c ps A p = (if p \<in> set ps then insert c (A p) else A p)"

lemma add_children_ok:
  "cache_ok B S A vs \<Longrightarrow> cache_ok B S (approve c ps A) (add_children c ps vs)"
proof (induction ps arbitrary: A vs)
  case Nil
  have "approve c [] A = A" by (simp add: approve_def fun_eq_iff)
  with Nil show ?case by simp
next
  case (Cons p ps)
  obtain v vs' where g: "Vertices_get_mut_or_empty p vs = (v, vs')" by (cases "Vertices_get_mut_or_empty p vs")
  note inv = cache_okD(1) [OF Cons.prems]
  have "cache_ok B S (A(p := insert c (A p))) (Vertices_set p (Vertex_add_child c v) vs')"
  proof (rule cache_ok_upd [OF Cons.prems get_mut_set [OF inv g]])
    show "vertex_ok (of_bool (p \<in> B)) (S p) ((A(p := insert c (A p))) p) (Vertex_add_child c v)"
      using vertex_ok_add_child [OF get_mut_vertex_ok [OF Cons.prems g]] by simp
    show "Vertex_message_and_metadata (Vertex_add_child c v) \<noteq> None" if "p \<in> B"
      using cache_okD(3) [OF Cons.prems that] get_mut_or_empty(2) [OF inv g]
      by (auto simp: Vertex_add_child_def unwrap_or_def)
  qed simp
  from Cons.IH [OF this] have "cache_ok B S (approve c ps (A(p := insert c (A p)))) (add_children c (p # ps) vs)"
    by (simp add: g del: fun_upd_apply)
  moreover have "approve c ps (A(p := insert c (A p))) = approve c (p # ps) A" by (auto simp: approve_def fun_eq_iff)
  ultimately show ?case by simp
qed

section \<open>Inserting and pulling\<close>

lemma insert_inner_new:
  assumes C: "cache_ok B S A (vertices t)" and m: "m \<notin> B" "S m = None \<or> S m = Some (msg, meta)"
    and none: "\<And>v. Vertices_get (vertices t) m = Some v \<Longrightarrow> Vertex_message_and_metadata v = None"
  shows "\<exists>vs rng. Tangle_insert_inner m msg meta pe t = (Some msg, t\<lparr>vertices := vs, random := rng\<rparr>) \<and>
    cache_ok (if pe then insert m B else B) (S(m \<mapsto> (msg, meta)))
      (approve m (Parents_ids (Message_parents msg)) A) vs"
proof -
  note inv = cache_okD(1) [OF C]
  obtain v vs where g: "Vertices_get_mut_or_empty m (vertices t) = (v, vs)"
    by (cases "Vertices_get_mut_or_empty m (vertices t)")
  note ok = get_mut_vertex_ok [OF C g]
  have v: "Vertex_message_and_metadata v = None"
    using get_mut_or_empty(2) [OF inv g] none
    by (cases "Vertices_get (vertices t) m") (auto simp: unwrap_or_def Vertex_empty_def)
  let ?v = "if pe then Vertex_prevent_eviction v else v"
  let ?w = "Vertex_insert_message_and_metadata msg meta ?v"
  let ?B = "if pe then insert m B else B" and ?S = "S(m \<mapsto> (msg, meta))"
  have w: "vertex_ok (of_bool (m \<in> ?B)) (?S m) (A m) ?w"
    using ok m(1) by (simp add: vertex_ok_def Vertex_insert_message_and_metadata_def Vertex_prevent_eviction_def)
  have "cache_ok ?B ?S A (Vertices_set m ?w vs)"
    by (rule cache_ok_upd [OF C get_mut_set [OF inv g]])
      (use w in \<open>auto simp: Vertex_insert_message_and_metadata_def\<close>)
  from add_children_ok [OF this]
  have c: "cache_ok ?B ?S (approve m (Parents_ids (Message_parents msg)) A)
      (add_children m (Parents_ids (Message_parents msg)) (Vertices_set m ?w vs))" .
  let ?t = "t\<lparr>vertices := add_children m (Parents_ids (Message_parents msg)) (Vertices_set m ?w vs)\<rparr>"
  from perform_eviction [of ?t] cache_okD(1) [OF c] obtain vs' rng where
    e: "Tangle_perform_eviction ?t = ?t\<lparr>vertices := vs', random := rng\<rparr>" "evicted (vertices ?t) vs'" by auto
  have none': "Vertex_message ?v = None" using v by (simp add: Vertex_message_def Vertex_prevent_eviction_def)
  have some: "Vertex_message ?w = Some msg" by (simp add: Vertex_message_def Vertex_insert_message_and_metadata_def)
  have "Tangle_insert_inner m msg meta pe t = (Some msg, t\<lparr>vertices := vs', random := rng\<rparr>)"
    using e(1) none' some by (simp add: Tangle_insert_inner_def g Let_def del: if_split)
  moreover have "cache_ok ?B ?S (approve m (Parents_ids (Message_parents msg)) A) vs'"
    using cache_ok_evicted [OF c] e(2) by simp
  ultimately show ?thesis by blast
qed

lemma insert_inner_known:
  assumes C: "cache_ok B S A (vertices t)"
    and v: "Vertices_get (vertices t) m = Some v" "Vertex_message_and_metadata v \<noteq> None"
  shows "\<exists>vs rng. Tangle_insert_inner m msg meta False t = (None, t\<lparr>vertices := vs, random := rng\<rparr>) \<and> cache_ok B S A vs"
proof -
  note inv = cache_okD(1) [OF C]
  have g: "Vertices_get_mut_or_empty m (vertices t) = (v, vertices t)"
    using v(1) by (simp add: Vertices_get_mut_or_empty_def)
  have c: "cache_ok B S A (Vertices_set m v (vertices t))"
    by (rule cache_ok_upd [OF C get_mut_set [OF inv g]]) (use v get_mut_vertex_ok [OF C g] in simp_all)
  let ?t = "t\<lparr>vertices := Vertices_set m v (vertices t)\<rparr>"
  from perform_eviction [of ?t] cache_okD(1) [OF c] obtain vs' rng where
    e: "Tangle_perform_eviction ?t = ?t\<lparr>vertices := vs', random := rng\<rparr>" "evicted (vertices ?t) vs'" by auto
  have "Tangle_insert_inner m msg meta False t = (None, t\<lparr>vertices := vs', random := rng\<rparr>)"
    using e(1) v(2) by (simp add: Tangle_insert_inner_def g Let_def Vertex_message_def)
  with cache_ok_evicted [OF c] e(2) show ?thesis by auto
qed

text \<open>The state between two operations.\<close>

definition approvers :: "InnerStorage \<Rightarrow> MessageId \<Rightarrow> MessageId set" where
  "approvers s p = set (or_empty (VecBinTable_fetch (message_id_to_message_id s) p))"

definition approvers_ok :: "Tangle \<Rightarrow> bool" where
  "approvers_ok t \<longleftrightarrow> VecBinTable_inv (message_id_to_message_id (storage t)) \<and>
     (\<forall>m msg meta. Tangle_storage_get t m = Some (msg, meta) \<longrightarrow>
        (\<forall>p \<in> set (Parents_ids (Message_parents msg)). m \<in> approvers (storage t) p))"

definition tangle_ok :: "Tangle \<Rightarrow> bool" where
  "tangle_ok t \<longleftrightarrow>
     cache_ok {} (Tangle_storage_get t) (approvers (storage t)) (vertices t) \<and> approvers_ok t"

lemma storage_get_vertices [simp]:
  "Tangle_storage_get (t\<lparr>vertices := vs, random := rng\<rparr>) = Tangle_storage_get t"
  "Tangle_storage_get (t\<lparr>vertices := vs\<rparr>) = Tangle_storage_get t"
  "approvers_ok (t\<lparr>vertices := vs, random := rng\<rparr>) = approvers_ok t"
  "approvers_ok (t\<lparr>vertices := vs\<rparr>) = approvers_ok t"
  by (simp_all add: Tangle_storage_get_def [abs_def] approvers_ok_def cong: option.case_cong)

lemma approve_absorb:
  assumes "\<And>p. p \<in> set ps \<Longrightarrow> c \<in> A p"
  shows "approve c ps A = A"
  using assms by (auto simp: approve_def fun_eq_iff)

lemma contains_inner_iff:
  "Tangle_contains_inner t m \<longleftrightarrow> (\<exists>v. Vertices_get (vertices t) m = Some v \<and> Vertex_message_and_metadata v \<noteq> None)"
  by (auto simp: Tangle_contains_inner_def Vertex_message_def split: option.splits)

lemma pull_message:
  assumes ok: "tangle_ok t"
  shows "\<exists>vs rng. Tangle_pull_message m pe t =
      (Tangle_storage_get t m \<noteq> None, t\<lparr>vertices := vs, random := rng\<rparr>) \<and>
    cache_ok (if pe \<and> Tangle_storage_get t m \<noteq> None then {m} else {}) (Tangle_storage_get t) (approvers (storage t)) vs"
proof -
  let ?S = "Tangle_storage_get t" and ?A = "approvers (storage t)"
  have C: "cache_ok {} ?S ?A (vertices t)" and E: "approvers_ok t" using ok by (simp_all add: tangle_ok_def)
  show ?thesis
  proof (cases "Tangle_contains_inner t m")
    case True
    then obtain v where v: "Vertices_get (vertices t) m = Some v" "Vertex_message_and_metadata v \<noteq> None"
      unfolding contains_inner_iff by blast
    note vok = cache_okD(2) [OF C v(1)]
    with v(2) have S: "?S m \<noteq> None" by (auto simp: vertex_ok_def)
    have g: "Vertices_get_mut_or_empty m (vertices t) = (v, vertices t)"
      using v(1) by (simp add: Vertices_get_mut_or_empty_def)
    have "cache_ok {m} ?S ?A (Vertices_set m (Vertex_prevent_eviction v) (vertices t))"
      by (rule cache_ok_upd [OF C get_mut_set [OF cache_okD(1) [OF C] g]])
        (use vok v in \<open>auto simp: vertex_ok_def Vertex_prevent_eviction_def\<close>)
    then have "Tangle_pull_message m True t = (?S m \<noteq> None, t\<lparr>vertices :=
        Vertices_set m (Vertex_prevent_eviction v) (vertices t), random := random t\<rparr>) \<and>
        cache_ok {m} ?S ?A (Vertices_set m (Vertex_prevent_eviction v) (vertices t))"
      using True S v(1) by (simp add: Tangle_pull_message_def)
    moreover have "Tangle_pull_message m False t = (?S m \<noteq> None, t\<lparr>vertices := vertices t, random := random t\<rparr>)"
      using True S by (simp add: Tangle_pull_message_def)
    ultimately show ?thesis
      using S C by (intro exI [of _ "if pe then Vertices_set m (Vertex_prevent_eviction v) (vertices t) else vertices t"]
          exI [of _ "random t"]) (cases pe; simp)
  next
    case False
    show ?thesis
    proof (cases "?S m")
      case None
      with False have "Tangle_pull_message m pe t = (?S m \<noteq> None, t\<lparr>vertices := vertices t, random := random t\<rparr>)"
        by (simp add: Tangle_pull_message_def)
      with C None show ?thesis by (intro exI [of _ "vertices t"] exI [of _ "random t"]) simp
    next
      case (Some x)
      obtain msg meta where x: "x = (msg, meta)" by (cases x)
      have none: "Vertex_message_and_metadata v = None" if "Vertices_get (vertices t) m = Some v" for v
        using False that unfolding contains_inner_iff by blast
      from insert_inner_new [OF C, of m msg meta pe] Some x none obtain vs rng where
        i: "Tangle_insert_inner m msg meta pe t = (Some msg, t\<lparr>vertices := vs, random := rng\<rparr>)" and
        c: "cache_ok (if pe then insert m {} else {}) (?S(m \<mapsto> (msg, meta)))
          (approve m (Parents_ids (Message_parents msg)) ?A) vs" by auto
      have "approve m (Parents_ids (Message_parents msg)) ?A = ?A"
        by (rule approve_absorb) (use E Some x in \<open>auto simp: approvers_ok_def\<close>)
      moreover have "?S(m \<mapsto> (msg, meta)) = ?S" using Some x by (simp add: fun_upd_idem)
      ultimately have "cache_ok (if pe then {m} else {}) ?S ?A vs" using c by simp
      with False Some x i show ?thesis by (auto simp: Tangle_pull_message_def)
    qed
  qed
qed

section \<open>Operations\<close>

text \<open>A block that \<open>pull_message\<close> has set is released again without a panic.\<close>

lemma release:
  assumes C: "cache_ok {m} S A vs"
  shows "\<exists>v v'. Vertices_get vs m = Some v \<and> Vertex_message_and_metadata v = S m \<and> S m \<noteq> None \<and>
    Vertex_allow_eviction v = Some v' \<and> Vertex_message_and_metadata v' = S m \<and>
    vertex_ok 0 (S m) (A m) v' \<and> cache_ok {} S A (Vertices_set m v' vs)"
proof -
  from cache_okD(3) [OF C, of m] obtain v where
    v: "Vertices_get vs m = Some v" "Vertex_message_and_metadata v \<noteq> None" by auto
  note ok = cache_okD(2) [OF C v(1)]
  let ?v = "v\<lparr>Vertex_eviction_blocks := 0\<rparr>"
  have g: "Vertices_get_mut_or_empty m vs = (v, vs)" using v(1) by (simp add: Vertices_get_mut_or_empty_def)
  have "Vertex_allow_eviction v = Some ?v" using ok by (simp add: Vertex_allow_eviction_def vertex_ok_def)
  moreover have ok': "vertex_ok 0 (S m) (A m) ?v" using ok by (simp add: vertex_ok_def)
  moreover have "cache_ok {} S A (Vertices_set m ?v vs)"
    by (rule cache_ok_upd [OF C get_mut_set [OF cache_okD(1) [OF C] g]]) (use ok' in simp_all)
  ultimately show ?thesis using v ok by (auto simp: vertex_ok_def)
qed

lemma cache_ok_None:
  assumes "cache_ok B S A vs" and "S m = None" and "Vertices_get vs m = Some v"
  shows "Vertex_message_and_metadata v = None"
  using cache_okD(2) [OF assms(1,3)] assms(2) unfolding vertex_ok_def by metis

lemma get_vertex_ok:
  assumes ok: "tangle_ok t"
  shows "\<exists>v vs rng. Tangle_get_vertex m t = Some (v, t\<lparr>vertices := vs, random := rng\<rparr>) \<and>
    tangle_ok (t\<lparr>vertices := vs, random := rng\<rparr>) \<and> Option.bind v Vertex_message_and_metadata = Tangle_storage_get t m"
proof -
  let ?S = "Tangle_storage_get t" and ?A = "approvers (storage t)"
  from pull_message [OF ok, of m True] obtain vs rng where
    p: "Tangle_pull_message m True t = (?S m \<noteq> None, t\<lparr>vertices := vs, random := rng\<rparr>)" and
    c: "cache_ok (if ?S m \<noteq> None then {m} else {}) ?S ?A vs" by auto
  have E: "approvers_ok t" using ok by (simp add: tangle_ok_def)
  show ?thesis
  proof (cases "?S m")
    case None
    with c have c': "cache_ok {} ?S ?A vs" by simp
    have "Tangle_get_vertex m t = Some (Vertices_get vs m, t\<lparr>vertices := vs, random := rng\<rparr>)"
      using p None by (simp add: Tangle_get_vertex_def split: option.splits)
    moreover have "Option.bind (Vertices_get vs m) Vertex_message_and_metadata = None"
      using cache_ok_None [OF c' None] by (cases "Vertices_get vs m") simp_all
    ultimately show ?thesis using c' E None by (auto simp: tangle_ok_def)
  next
    case (Some x)
    with c have "cache_ok {m} ?S ?A vs" by simp
    from release [OF this] obtain v v' where
      r: "Vertices_get vs m = Some v" "Vertex_allow_eviction v = Some v'" "Vertex_message_and_metadata v' = ?S m"
      "cache_ok {} ?S ?A (Vertices_set m v' vs)" by blast
    have "Tangle_get_vertex m t = Some (Some v', t\<lparr>vertices := Vertices_set m v' vs, random := rng\<rparr>)"
      using p Some r by (simp add: Tangle_get_vertex_def)
    with r E show ?thesis by (auto simp: tangle_ok_def)
  qed
qed

text \<open>The storage after an update of the metadata, and after an insertion.\<close>

lemma storage_get_insert:
  "Tangle_storage_get (Tangle_storage_insert m msg meta t) = (Tangle_storage_get t)(m \<mapsto> (msg, meta))"
  by (auto simp: Tangle_storage_get_def [abs_def] Tangle_storage_insert_def Table_fetch_def Table_insert_def fun_eq_iff
      cong: option.case_cong)

lemma storage_insert_simps [simp]:
  "vertices (Tangle_storage_insert m msg meta t) = vertices t"
  "message_id_to_message_id (storage (Tangle_storage_insert m msg meta t)) = message_id_to_message_id (storage t)"
  "approvers (storage (Tangle_storage_insert m msg meta t)) = approvers (storage t)"
  by (simp_all add: Tangle_storage_insert_def approvers_def [abs_def])

lemma random_vertices: "t\<lparr>random := rng, vertices := vs\<rparr> = t\<lparr>vertices := vs, random := rng\<rparr>"
  by simp

text \<open>Operations on messages leave everything else of the tangle and of the storage alone.\<close>

definition only_messages :: "Tangle \<Rightarrow> Tangle \<Rightarrow> bool" where
  "only_messages t t' \<longleftrightarrow>
     (\<exists>vs rng ms mm ids. t' = t\<lparr>vertices := vs, random := rng, storage := (storage t)
        \<lparr>message_id_to_message := ms, message_id_to_metadata := mm, message_id_to_message_id := ids\<rparr>\<rparr>)"

lemma only_messages_cache: "only_messages t (t\<lparr>vertices := vs, random := rng\<rparr>)"
  unfolding only_messages_def
  by (intro exI [of _ vs] exI [of _ rng] exI [of _ "message_id_to_message (storage t)"]
      exI [of _ "message_id_to_metadata (storage t)"] exI [of _ "message_id_to_message_id (storage t)"]) simp

lemma only_messages_insert:
  "only_messages t (Tangle_storage_insert m msg meta (t\<lparr>vertices := vs, random := rng\<rparr>))"
  unfolding only_messages_def Tangle_storage_insert_def
  by (rule exI [of _ vs], rule exI [of _ rng], rule exI, rule exI, rule exI [of _ "message_id_to_message_id (storage t)"]) simp

lemma update_metadata_ok:
  assumes ok: "tangle_ok t"
  shows "\<exists>t'. Tangle_update_metadata m f t = Some t' \<and> tangle_ok t' \<and>
    Tangle_storage_get t' = (Tangle_storage_get t)(m := map_option (apsnd f) (Tangle_storage_get t m)) \<and>
    only_messages t t'"
proof -
  let ?S = "Tangle_storage_get t" and ?A = "approvers (storage t)"
  from pull_message [OF ok, of m True] obtain vs rng where
    p: "Tangle_pull_message m True t = (?S m \<noteq> None, t\<lparr>vertices := vs, random := rng\<rparr>)" and
    c: "cache_ok (if ?S m \<noteq> None then {m} else {}) ?S ?A vs" by auto
  have E: "approvers_ok t" using ok by (simp add: tangle_ok_def)
  show ?thesis
  proof (cases "?S m")
    case None
    with c have c': "cache_ok {} ?S ?A vs" by simp
    let ?t = "t\<lparr>vertices := case Vertices_get vs m of Some v \<Rightarrow> Vertices_set m v vs | None \<Rightarrow> vs, random := rng\<rparr>"
    note data = cache_ok_None [OF c' None]
    then have upd: "Vertex_message_and_metadata_update (map_option (apsnd f)) v = v" if "Vertices_get vs m = Some v" for v
      using that by (cases v) auto
    have "Tangle_update_metadata m f t = Some ?t"
    proof (cases "Vertices_get vs m")
      case (Some v)
      then show ?thesis using p None data [OF Some] by (simp add: Tangle_update_metadata_def Let_def upd [OF Some])
    qed (use p None in \<open>simp add: Tangle_update_metadata_def\<close>)
    moreover have "cache_ok {} ?S ?A (vertices ?t)"
    proof (cases "Vertices_get vs m")
      case (Some v)
      then have g: "Vertices_get_mut_or_empty m vs = (v, vs)" by (simp add: Vertices_get_mut_or_empty_def)
      have "cache_ok {} ?S ?A (Vertices_set m v vs)"
        by (rule cache_ok_upd [OF c' get_mut_set [OF cache_okD(1) [OF c'] g]])
          (use cache_okD(2) [OF c' Some] in simp_all)
      with Some show ?thesis by simp
    qed (use c' in simp)
    moreover note only_messages_cache [where t = t and vs = "vertices ?t" and rng = rng]
    ultimately show ?thesis using E None by (intro exI [of _ ?t]) (auto simp: tangle_ok_def)
  next
    case (Some x)
    obtain msg meta where x: "x = (msg, meta)" by (cases x)
    from Some c have cm: "cache_ok {m} ?S ?A vs" by simp
    from release [OF cm] obtain v v' where
      r: "Vertices_get vs m = Some v" "Vertex_allow_eviction v = Some v'" "Vertex_message_and_metadata v' = ?S m"
      "vertex_ok 0 (?S m) (?A m) v'" "cache_ok {} ?S ?A (Vertices_set m v' vs)" by blast
    let ?w = "Vertex_message_and_metadata_update (map_option (apsnd f)) v'"
    let ?t = "Tangle_storage_insert m msg (f meta) (t\<lparr>vertices := Vertices_set m ?w vs, random := rng\<rparr>)"
    have w: "Vertex_message_and_metadata ?w = Some (msg, f meta)" using r(3) Some x by simp
    have "Tangle_update_metadata m f t = Some ?t"
      using p Some r w by (simp add: Tangle_update_metadata_def Let_def random_vertices)
    moreover have S: "Tangle_storage_get ?t = ?S(m \<mapsto> (msg, f meta))" by (simp add: storage_get_insert)
    moreover have g: "Vertices_get_mut_or_empty m vs = (v, vs)" using r(1) by (simp add: Vertices_get_mut_or_empty_def)
    have "cache_ok {} (?S(m \<mapsto> (msg, f meta))) ?A (Vertices_set m ?w vs)"
      by (rule cache_ok_upd [OF cm get_mut_set [OF cache_okD(1) [OF cm] g]])
        (use r(4) w in \<open>auto simp: vertex_ok_def\<close>)
    moreover have "approvers_ok ?t"
      using E Some x unfolding approvers_ok_def S by (auto split: if_splits)
    moreover note only_messages_insert [where t = t and m = m and msg = msg and meta = "f meta"
        and vs = "Vertices_set m ?w vs" and rng = rng]
    ultimately show ?thesis using Some x by (intro exI [of _ ?t]) (auto simp: tangle_ok_def)
  qed
qed

lemma approvers_eq: "approvers s p = set (or_empty (message_id_to_message_id s p))"
  by (simp add: approvers_def VecBinTable_fetch_def or_empty_def split: option.split)

lemma insert_approvers:
  assumes "VecBinTable_inv (message_id_to_message_id s)"
  shows "VecBinTable_inv (message_id_to_message_id (insert_approvers c ps s))"
    and "approvers (insert_approvers c ps s) = approve c ps (approvers s)"
    and "\<exists>ids. insert_approvers c ps s = s\<lparr>message_id_to_message_id := ids\<rparr>"
proof -
  have "VecBinTable_inv (message_id_to_message_id (insert_approvers c ps s)) \<and>
    approvers (insert_approvers c ps s) = approve c ps (approvers s) \<and>
    (\<exists>ids. insert_approvers c ps s = s\<lparr>message_id_to_message_id := ids\<rparr>)"
    using assms
  proof (induction ps arbitrary: s)
    case Nil
    have "\<exists>ids. s = s\<lparr>message_id_to_message_id := ids\<rparr>" by (rule exI [of _ "message_id_to_message_id s"]) simp
    with Nil show ?case by (simp add: approve_def fun_eq_iff)
  next
    case (Cons p ps)
    let ?s = "s\<lparr>message_id_to_message_id := VecBinTable_insert (p, c) () (message_id_to_message_id s)\<rparr>"
    note e = VecBinTable_insert_entry [OF Cons.prems, where k = p and v = c and u = "()"]
    have "approvers ?s = (approvers s)(p := insert c (approvers s p))"
      using e(2) by (simp add: approvers_eq fun_eq_iff)
    moreover have "approve c ps ((approvers s)(p := insert c (approvers s p))) = approve c (p # ps) (approvers s)"
      by (auto simp: approve_def fun_eq_iff)
    moreover from Cons.IH [of ?s] e(1) obtain ids where
      "insert_approvers c ps ?s = ?s\<lparr>message_id_to_message_id := ids\<rparr>" by auto
    then have "insert_approvers c ps ?s = s\<lparr>message_id_to_message_id := ids\<rparr>" by simp
    ultimately show ?case using Cons.IH [of ?s] e(1) by (auto simp del: fun_upd_apply)
  qed
  then show "VecBinTable_inv (message_id_to_message_id (insert_approvers c ps s))"
    "approvers (insert_approvers c ps s) = approve c ps (approvers s)"
    "\<exists>ids. insert_approvers c ps s = s\<lparr>message_id_to_message_id := ids\<rparr>" by blast+
qed

lemma only_messages_approve:
  "only_messages t (Tangle_storage_insert m msg meta
     (t\<lparr>vertices := vs, random := rng, storage := (storage t)\<lparr>message_id_to_message_id := ids\<rparr>\<rparr>))"
  unfolding only_messages_def Tangle_storage_insert_def
  by (rule exI [of _ vs], rule exI [of _ rng], rule exI [of _ "Table_insert m msg (message_id_to_message (storage t))"],
      rule exI [of _ "Table_insert m meta (message_id_to_metadata (storage t))"], rule exI [of _ ids]) simp

lemma insert_new:
  assumes ok: "tangle_ok t" and new: "Tangle_storage_get t m = None"
  shows "\<exists>t'. Tangle_insert msg m meta t = Some (Some msg, t') \<and> tangle_ok t' \<and>
    Tangle_storage_get t' = (Tangle_storage_get t)(m \<mapsto> (msg, meta)) \<and>
    approvers (storage t') = approve m (Parents_ids (Message_parents msg)) (approvers (storage t)) \<and>
    only_messages t t'"
proof -
  let ?S = "Tangle_storage_get t" and ?A = "approvers (storage t)" and ?ps = "Parents_ids (Message_parents msg)"
  have E: "approvers_ok t" using ok by (simp add: tangle_ok_def)
  then have bin: "VecBinTable_inv (message_id_to_message_id (storage t))" by (simp add: approvers_ok_def)
  from pull_message [OF ok, of m True] new obtain vs rng where
    p: "Tangle_pull_message m True t = (False, t\<lparr>vertices := vs, random := rng\<rparr>)" and c: "cache_ok {} ?S ?A vs" by auto
  let ?t1 = "t\<lparr>vertices := vs, random := rng\<rparr>"
  have "cache_ok {} ?S ?A (vertices ?t1)" using c by simp
  from insert_inner_new [OF this, of m msg meta True] new cache_ok_None [OF c new] obtain vs2 rng2 where
    i: "Tangle_insert_inner m msg meta True ?t1 = (Some msg, t\<lparr>vertices := vs2, random := rng2\<rparr>)" and
    c2: "cache_ok {m} (?S(m \<mapsto> (msg, meta))) (approve m ?ps ?A) vs2" by auto
  from release [OF c2] obtain v v' where
    r: "Vertices_get vs2 m = Some v" "Vertex_allow_eviction v = Some v'"
    "cache_ok {} (?S(m \<mapsto> (msg, meta))) (approve m ?ps ?A) (Vertices_set m v' vs2)" by blast
  note ia = insert_approvers [OF bin, of m ?ps]
  from ia(3) obtain ids where ids: "insert_approvers m ?ps (storage t) = (storage t)\<lparr>message_id_to_message_id := ids\<rparr>" by blast
  let ?t = "Tangle_storage_insert m msg meta (t\<lparr>vertices := Vertices_set m v' vs2, random := rng2,
      storage := (storage t)\<lparr>message_id_to_message_id := ids\<rparr>\<rparr>)"
  have "Tangle_insert msg m meta t = Some (Some msg, ?t)"
    using p i r by (simp add: Tangle_insert_def Let_def ids random_vertices)
  moreover have S: "Tangle_storage_get ?t = ?S(m \<mapsto> (msg, meta))"
    unfolding storage_get_insert by (simp add: Tangle_storage_get_def [abs_def] cong: option.case_cong)
  moreover have A: "approvers (storage ?t) = approve m ?ps ?A" using ia(2) by (simp add: ids)
  moreover have "approvers_ok ?t"
    using E ia(1) unfolding approvers_ok_def S A by (auto simp: ids approve_def split: if_splits)
  moreover have "cache_ok {} (Tangle_storage_get ?t) (approvers (storage ?t)) (vertices ?t)"
    unfolding S A using r(3) by simp
  moreover note only_messages_approve [where t = t and m = m and msg = msg and meta = meta and ids = ids
      and vs = "Vertices_set m v' vs2" and rng = rng2]
  ultimately show ?thesis unfolding tangle_ok_def by blast
qed

lemma insert_known:
  assumes ok: "tangle_ok t" and known: "Tangle_storage_get t m \<noteq> None"
  shows "\<exists>vs rng. Tangle_insert msg m meta t = Some (None, t\<lparr>vertices := vs, random := rng\<rparr>) \<and>
    tangle_ok (t\<lparr>vertices := vs, random := rng\<rparr>)"
proof -
  let ?S = "Tangle_storage_get t" and ?A = "approvers (storage t)"
  have E: "approvers_ok t" using ok by (simp add: tangle_ok_def)
  from pull_message [OF ok, of m True] known obtain vs rng where
    p: "Tangle_pull_message m True t = (True, t\<lparr>vertices := vs, random := rng\<rparr>)" and c: "cache_ok {m} ?S ?A vs" by auto
  let ?t1 = "t\<lparr>vertices := vs, random := rng\<rparr>"
  have c1: "cache_ok {m} ?S ?A (vertices ?t1)" using c by simp
  from cache_okD(3) [OF c, of m] obtain v where "Vertices_get (vertices ?t1) m = Some v"
    "Vertex_message_and_metadata v \<noteq> None" by auto
  from insert_inner_known [OF c1 this, of msg meta] obtain vs2 rng2 where
    i: "Tangle_insert_inner m msg meta False ?t1 = (None, t\<lparr>vertices := vs2, random := rng2\<rparr>)" and
    c2: "cache_ok {m} ?S ?A vs2" by auto
  from release [OF c2] obtain v v' where
    r: "Vertices_get vs2 m = Some v" "Vertex_allow_eviction v = Some v'"
    "cache_ok {} ?S ?A (Vertices_set m v' vs2)" by blast
  have "Tangle_insert msg m meta t = Some (None, t\<lparr>vertices := Vertices_set m v' vs2, random := rng2\<rparr>)"
    using p i r by (simp add: Tangle_insert_def Let_def)
  moreover have "tangle_ok (t\<lparr>vertices := Vertices_set m v' vs2, random := rng2\<rparr>)"
    using r(3) E by (simp add: tangle_ok_def)
  ultimately show ?thesis by blast
qed

lemma contains_ok:
  assumes ok: "tangle_ok t"
  shows "\<exists>vs rng. Tangle_contains m t = (Tangle_storage_get t m \<noteq> None, t\<lparr>vertices := vs, random := rng\<rparr>) \<and>
    tangle_ok (t\<lparr>vertices := vs, random := rng\<rparr>)"
proof -
  have E: "approvers_ok t" using ok by (simp add: tangle_ok_def)
  from pull_message [OF ok, of m False] obtain vs rng where
    p: "Tangle_pull_message m False t = (Tangle_storage_get t m \<noteq> None, t\<lparr>vertices := vs, random := rng\<rparr>)"
    and c: "cache_ok {} (Tangle_storage_get t) (approvers (storage t)) vs" by auto
  have "Tangle_contains m t = Tangle_pull_message m False t"
    by (simp add: Tangle_contains_def Tangle_pull_message_def)
  with p c E show ?thesis by (auto simp: tangle_ok_def)
qed

lemma fold_add_child:
  "set (Vertex_children (fold Vertex_add_child cs v)) = set (Vertex_children v) \<union> set cs"
  "distinct (Vertex_children v) \<Longrightarrow> distinct (Vertex_children (fold Vertex_add_child cs v))"
  "Vertex_message_and_metadata (fold Vertex_add_child cs v) = Vertex_message_and_metadata v"
  "Vertex_eviction_blocks (fold Vertex_add_child cs v) = Vertex_eviction_blocks v"
  "Vertex_children_exhaustive (fold Vertex_add_child cs v) = Vertex_children_exhaustive v"
  by (induction cs arbitrary: v) (auto simp: Vertex_add_child_def VecSet_insert_def)

lemma get_children_ok:
  assumes ok: "tangle_ok t"
  shows "\<exists>cs vs. Tangle_get_children m t = (cs, t\<lparr>vertices := vs\<rparr>) \<and> distinct cs \<and>
    set cs = approvers (storage t) m \<and> tangle_ok (t\<lparr>vertices := vs\<rparr>)"
proof -
  let ?S = "Tangle_storage_get t" and ?A = "approvers (storage t)"
  have C: "cache_ok {} ?S ?A (vertices t)" and E: "approvers_ok t" using ok by (simp_all add: tangle_ok_def)
  show ?thesis
  proof (cases "\<exists>v. Vertices_get (vertices t) m = Some v \<and> Vertex_children_exhaustive v")
    case True
    then obtain v where v: "Vertices_get (vertices t) m = Some v" "Vertex_children_exhaustive v" by blast
    have "Tangle_get_children m t = (Vertex_children v, t\<lparr>vertices := vertices t\<rparr>)"
      using v by (simp add: Tangle_get_children_def)
    moreover have "distinct (Vertex_children v)" "set (Vertex_children v) = ?A m"
      using cache_okD(2) [OF C v(1)] v(2) by (simp_all add: vertex_ok_def)
    moreover have "tangle_ok (t\<lparr>vertices := vertices t\<rparr>)" using ok by simp
    ultimately show ?thesis by blast
  next
    case False
    obtain v vs where g: "Vertices_get_mut_or_empty m (vertices t) = (v, vs)"
      by (cases "Vertices_get_mut_or_empty m (vertices t)")
    note vok = get_mut_vertex_ok [OF C g]
    let ?cs = "or_empty (VecBinTable_fetch (message_id_to_message_id (storage t)) m)"
    let ?w = "fold Vertex_add_child ?cs (Vertex_set_exhaustive v)"
    have cs: "set ?cs = ?A m" by (simp add: approvers_def)
    have w: "vertex_ok 0 (?S m) (?A m) ?w" "set (Vertex_children ?w) = ?A m" "distinct (Vertex_children ?w)"
      using vok by (auto simp: vertex_ok_def fold_add_child cs Vertex_set_exhaustive_def)
    have "Tangle_get_children m t = (Vertex_children ?w, t\<lparr>vertices := Vertices_set m ?w vs\<rparr>)"
      using False g by (auto simp: Tangle_get_children_def Let_def split: option.splits Option.bind_splits)
    moreover have "cache_ok {} ?S ?A (Vertices_set m ?w vs)"
      by (rule cache_ok_upd [OF C get_mut_set [OF cache_okD(1) [OF C] g]]) (use w in simp_all)
    ultimately show ?thesis using w E by (auto simp: tangle_ok_def)
  qed
qed

section \<open>Runs\<close>

text \<open>The states a tangle reaches by the operations on messages and by resizing its cache.\<close>

inductive tangle_reach :: "Tangle \<Rightarrow> Tangle \<Rightarrow> bool" for t0 where
  start: "tangle_reach t0 t0"
| insert: "tangle_reach t0 t \<Longrightarrow> Tangle_insert msg m meta t = Some (r, t') \<Longrightarrow> tangle_reach t0 t'"
| update_metadata: "tangle_reach t0 t \<Longrightarrow> Tangle_update_metadata m f t = Some t' \<Longrightarrow> tangle_reach t0 t'"
| get_vertex: "tangle_reach t0 t \<Longrightarrow> Tangle_get_vertex m t = Some (v, t') \<Longrightarrow> tangle_reach t0 t'"
| get_children: "tangle_reach t0 t \<Longrightarrow> Tangle_get_children m t = (cs, t') \<Longrightarrow> tangle_reach t0 t'"
| contains: "tangle_reach t0 t \<Longrightarrow> Tangle_contains m t = (b, t') \<Longrightarrow> tangle_reach t0 t'"
| resize: "tangle_reach t0 t \<Longrightarrow> tangle_reach t0 (Tangle_update_solid_milestone_index i t)"

lemma tangle_ok_new:
  assumes "keys_of iter" and "0 < num_partitions c" and "approvers_ok (Tangle_new hash iter rng c s)"
  shows "tangle_ok (Tangle_new hash iter rng c s)"
proof -
  have g: "Vertices_get (Vertices_new hash iter (num_partitions c)) m = None" for m
    using assms(2) by (simp add: Vertices_get_def Vertices_new_def Vertices_get_table_def)
  have "vertices_inv (Vertices_new hash iter (num_partitions c))"
    using assms(1,2) by (simp add: vertices_inv_def Vertices_new_def sum_list_replicate)
  with g assms(3) show ?thesis by (simp add: tangle_ok_def cache_ok_def) (simp add: Tangle_new_def)
qed

lemma tangle_ok_reach: "tangle_reach t0 t \<Longrightarrow> tangle_ok t0 \<Longrightarrow> tangle_ok t"
proof (induction rule: tangle_reach.induct)
  case (insert t msg m meta r t')
  then show ?case
    using insert_new [of t m msg meta] insert_known [of t m msg meta] by (cases "Tangle_storage_get t m") fastforce+
next
  case (update_metadata t m f t')
  then show ?case using update_metadata_ok [of t m f] by auto
next
  case (get_vertex t m v t')
  then show ?case using get_vertex_ok [of t m] by auto
next
  case (get_children t m cs t')
  then show ?case using get_children_ok [of t m] by auto
next
  case (contains t m b t')
  then show ?case using contains_ok [of t m] by auto
next
  case (resize t i)
  then show ?case
    by (simp add: Tangle_update_solid_milestone_index_def Let_def tangle_ok_def approvers_ok_def
        Tangle_storage_get_def [abs_def] cong: option.case_cong)
qed

section \<open>Properties\<close>


definition sample_tangle :: Tangle where
  "sample_tangle = Tangle_new (\<lambda>m. 0) (sorted_keys id id) (\<lambda>n. (n, True))
     \<lparr>below_max_depth = 15, num_partitions = 2, max_eviction_retries = 3\<rparr> Storage_new"

lemma sample_tangle_ok: "tangle_ok sample_tangle"
  unfolding sample_tangle_def
  by (rule tangle_ok_new [OF keys_of_sorted_keys])
    (simp_all add: approvers_ok_def Tangle_storage_get_def Tangle_new_def Storage_new_def VecBinTable_inv_def
      Table_fetch_def)


text \<open>C24. Inserting refines a map update: in every state a tangle reaches, inserting a message does not
  panic. A message the storage does not hold is added to it with its metadata, becomes an approver of
  each of its parents, and is returned. A message it holds already changes nothing but the cache, and
  nothing is returned.\<close>

theorem tangle_insert_refines:
  assumes "tangle_ok t0" and "tangle_reach t0 t"
  shows "\<exists>r t'. Tangle_insert msg m meta t = Some (r, t') \<and> tangle_ok t' \<and> only_messages t t' \<and>
    (if Tangle_storage_get t m = None
     then r = Some msg \<and> Tangle_storage_get t' = (Tangle_storage_get t)(m \<mapsto> (msg, meta)) \<and>
       (\<forall>p. approvers (storage t') p = approvers (storage t) p \<union>
          (if p \<in> set (Parents_ids (Message_parents msg)) then {m} else {}))
     else r = None \<and> storage t' = storage t)"
proof (cases "Tangle_storage_get t m")
  case None
  from insert_new [OF tangle_ok_reach [OF assms(2,1)] None, of msg meta] None show ?thesis
    by (fastforce simp: approve_def)
next
  case (Some x)
  from insert_known [OF tangle_ok_reach [OF assms(2,1)], of m msg meta] Some only_messages_cache show ?thesis
    by fastforce
qed

theorem tangle_insert_refines_witness:
  "\<exists>r t'. Tangle_insert (sample_message None) (MessageId []) MessageMetadata_default sample_tangle = Some (r, t') \<and>
    r = Some (sample_message None)"
  using tangle_insert_refines [OF sample_tangle_ok tangle_reach.start, of "sample_message None" "MessageId []" MessageMetadata_default]
  by (auto simp: sample_tangle_def Tangle_new_def Tangle_storage_get_def Storage_new_def Table_fetch_def)





end
