(* ===== verification/Consensus.thy ===== *)
theory Consensus
  imports White_Flag Tangle_Model
begin

text \<open>
  The confirmation of a milestone (workers/consensus/worker.rs of bee-ledger), with the White Flag
  computation running on the tangle of bee-tangle, whose cache it fills and evicts.

  The consensus worker and the tangle share one storage, that of the tangle. Any error of a
  confirmation makes the worker panic, so the state after an error is not modelled; \<open>None\<close> is a panic
  or a loop that does not end. The events the worker dispatches are not modelled.
\<close>

section \<open>The traversal on the tangle\<close>

partial_function (option) traverse_tangle ::
  "deps \<Rightarrow> hash_iter \<Rightarrow> MessageId set \<Rightarrow> MessageId list \<Rightarrow> WhiteFlagMetadata \<Rightarrow> Tangle \<Rightarrow>
   (LedgerError + WhiteFlagMetadata \<times> Tangle) option" where
  "traverse_tangle d h visited message_ids metadata tangle =
     (case message_ids of
        [] \<Rightarrow> Some (Inr (metadata, tangle))
      | message_id # rest \<Rightarrow>
          Option.bind (Tangle_get_vertex message_id tangle) (\<lambda>(vertex, tangle).
          case Option.bind vertex Vertex_message_and_metadata of
            Some (message, meta) \<Rightarrow>
              if Flags_is_referenced d (MessageMetadata_flags meta)
              then traverse_tangle d h (insert message_id visited) rest metadata tangle
              else (case find (\<lambda>p. p \<notin> visited) (Parents_ids (Message_parents message)) of
                      Some unvisited \<Rightarrow>
                        traverse_tangle d h visited (unvisited # message_id # rest) metadata tangle
                    | None \<Rightarrow>
                        (case apply_message d h (storage tangle) message_id message metadata of
                           Inl e \<Rightarrow> Some (Inl e)
                         | Inr metadata \<Rightarrow>
                             traverse_tangle d h (insert message_id visited) rest metadata tangle))
          | None \<Rightarrow>
              if \<not> Tangle_is_solid_entry_point tangle message_id then Some (Inl (MissingMessage message_id))
              else traverse_tangle d h (insert message_id visited) rest metadata tangle))"

definition white_flag_tangle ::
  "deps \<Rightarrow> hash_iter \<Rightarrow> MessageId list \<Rightarrow> WhiteFlagMetadata \<Rightarrow> Tangle \<Rightarrow>
   (LedgerError + WhiteFlagMetadata \<times> Tangle) option" where
  "white_flag_tangle d h message_ids metadata tangle =
     map_option (\<lambda>r. bindR r (\<lambda>(metadata, tangle).
         bindR (white_flag_checks d h metadata) (\<lambda>metadata. Inr (metadata, tangle))))
       (traverse_tangle d h {} message_ids metadata tangle)"

section \<open>Receipts\<close>

definition migration_from_milestone ::
  "MilestoneIndex \<Rightarrow> MilestoneId \<Rightarrow> ReceiptPayload \<Rightarrow> LedgerTreasuryOutput \<Rightarrow> LedgerError + Migration" where
  "migration_from_milestone milestone_index milestone_id receipt consumed_treasury =
     (let receipt = LedgerReceipt_new receipt milestone_index in
      bindR (map_errR Ledger_Types (LedgerReceipt_validate consumed_treasury receipt)) (\<lambda>_.
      bindR (case ReceiptPayload_transaction (LedgerReceipt_inner receipt) of
          Payload_TreasuryTransaction treasury \<Rightarrow>
            (case TreasuryTransactionPayload_output treasury of
               Output_Treasury output \<Rightarrow> Inr output
             | output \<Rightarrow> Inl (UnsupportedOutputKind (Output_kind output)))
        | p \<Rightarrow> Inl (UnsupportedPayloadKind (Payload_kind p))) (\<lambda>output.
      Inr (Migration_new receipt consumed_treasury (LedgerTreasuryOutput_new output milestone_id)))))"

fun migrate_funds ::
  "MessageId \<Rightarrow> TransactionId \<Rightarrow> nat \<Rightarrow> MigratedFundsEntry list \<Rightarrow> WhiteFlagMetadata \<Rightarrow> LedgerError + WhiteFlagMetadata" where
  "migrate_funds message_id transaction_id index [] metadata = Inr metadata"
| "migrate_funds message_id transaction_id index (fund # funds) metadata =
     bindR (map_errR Ledger_Message (OutputId_new transaction_id (word_of_nat index))) (\<lambda>output_id.
     let output = MigratedFundsEntry_output fund;
         metadata = metadata\<lparr>wf_created_outputs := (wf_created_outputs metadata)(output_id \<mapsto>
           CreatedOutput_new message_id (Output_SignatureLockedSingle output))\<rparr>
     in
     bindR (map_errR Ledger_Types (BalanceDiffs_amount_add (SignatureLockedSingleOutput_address output)
       (SignatureLockedSingleOutput_amount output) (wf_balance_diffs metadata))) (\<lambda>balance_diffs.
     migrate_funds message_id transaction_id (Suc index) funds (metadata\<lparr>wf_balance_diffs := balance_diffs\<rparr>)))"

definition next_migrated_at :: "ReceiptPayload \<Rightarrow> MilestoneIndex \<Rightarrow> LedgerError + MilestoneIndex" where
  "next_migrated_at receipt receipt_migrated_at =
     bindR (requireR (\<not> MilestoneIndex_value (ReceiptPayload_migrated_at receipt) < MilestoneIndex_value receipt_migrated_at)
       (DecreasingReceiptMigratedAtIndex (ReceiptPayload_migrated_at receipt) receipt_migrated_at)) (\<lambda>_.
     let receipt_migrated_at = ReceiptPayload_migrated_at receipt in
     Inr (if ReceiptPayload_last receipt then MilestoneIndex_add receipt_migrated_at (MilestoneIndex 1)
          else receipt_migrated_at))"

definition migrate ::
  "deps \<Rightarrow> InnerStorage \<Rightarrow> MessageId \<Rightarrow> MilestonePayload \<Rightarrow> WhiteFlagMetadata \<Rightarrow> MilestoneIndex \<Rightarrow>
   LedgerError + Migration option \<times> WhiteFlagMetadata \<times> MilestoneIndex" where
  "migrate d s message_id milestone metadata receipt_migrated_at =
     (case MilestonePayloadEssence_receipt (MilestonePayload_essence milestone) of
        Some (Payload_Receipt receipt) \<Rightarrow>
          (let milestone_id = MilestonePayload_id d milestone;
               transaction_id = TransactionId_new (MilestoneId_bytes milestone_id) in
           bindR (migrate_funds message_id transaction_id 0 (ReceiptPayload_funds receipt) metadata) (\<lambda>metadata.
           bindR (next_migrated_at receipt receipt_migrated_at) (\<lambda>receipt_migrated_at.
           bindR (fetch_unspent_treasury_output s) (\<lambda>consumed_treasury.
           bindR (migration_from_milestone (MilestonePayloadEssence_index (MilestonePayload_essence milestone))
             milestone_id receipt consumed_treasury) (\<lambda>migration.
           Inr (Some migration, metadata, receipt_migrated_at))))))
      | _ \<Rightarrow> Inr (None, metadata, receipt_migrated_at))"

section \<open>Confirmation\<close>

record ConsensusWorker =
  cw_tangle :: Tangle
  cw_ledger_index :: LedgerIndex
  cw_receipt_migrated_at :: MilestoneIndex

text \<open>The three loops that mark the messages of the cone differ in the conflict they record.\<close>

fun reference_messages :: "deps \<Rightarrow> u64 \<Rightarrow> (MessageId \<times> ConflictReason) list \<Rightarrow> Tangle \<Rightarrow> Tangle option" where
  "reference_messages d timestamp [] tangle = Some tangle"
| "reference_messages d timestamp ((message_id, conflict) # messages) tangle =
     Option.bind (Tangle_update_metadata message_id
       (\<lambda>md. MessageMetadata_reference d timestamp (MessageMetadata_set_conflict conflict md)) tangle)
       (reference_messages d timestamp messages)"

definition without_conflict :: "MessageId list \<Rightarrow> (MessageId \<times> ConflictReason) list" where
  "without_conflict ms = map (\<lambda>m. (m, ConflictReason_None)) ms"

definition milestone_of :: "Message \<Rightarrow> LedgerError + MilestonePayload" where
  "milestone_of message =
     (case Message_payload message of
        Some (Payload_Milestone milestone) \<Rightarrow> Inr milestone
      | _ \<Rightarrow> Inl NoMilestonePayload)"

definition check_contiguous :: "LedgerIndex \<Rightarrow> MilestonePayload \<Rightarrow> LedgerError + unit" where
  "check_contiguous current milestone =
     (let index = MilestonePayloadEssence_index (MilestonePayload_essence milestone);
          current = MilestoneIndex_value (LedgerIndex_index current) in
      requireR (\<not> index \<noteq> MilestoneIndex (current + 1))
        (NonContiguousMilestones (MilestoneIndex_value index) current))"

definition check_merkle_proof :: "deps \<Rightarrow> MilestonePayload \<Rightarrow> WhiteFlagMetadata \<Rightarrow> LedgerError + unit" where
  "check_merkle_proof d milestone metadata =
     (let essence = MilestonePayload_essence milestone in
      requireR (wf_merkle_proof metadata = MilestonePayloadEssence_merkle_proof essence)
        (MerkleProofMismatch (MilestonePayloadEssence_index essence) (hex_encode d (wf_merkle_proof metadata))
          (hex_encode d (MilestonePayloadEssence_merkle_proof essence))))"

text \<open>The part of the confirmation after the White Flag computation.\<close>

definition confirm_cone ::
  "deps \<Rightarrow> hash_iter \<Rightarrow> MessageId \<Rightarrow> MilestonePayload \<Rightarrow> WhiteFlagMetadata \<Rightarrow> ConsensusWorker \<Rightarrow>
   LedgerError + WhiteFlagMetadata \<times> ConsensusWorker" where
  "confirm_cone d h message_id milestone metadata self =
     bindR (check_merkle_proof d milestone metadata) (\<lambda>_.
     let index = MilestonePayloadEssence_index (MilestonePayload_essence milestone);
         metadata = metadata\<lparr>wf_referenced_messages := wf_referenced_messages metadata + 1,
           wf_excluded_no_transaction_messages := wf_excluded_no_transaction_messages metadata @ [message_id]\<rparr>;
         tangle = cw_tangle self
     in
     bindR (migrate d (storage tangle) message_id milestone metadata (cw_receipt_migrated_at self))
       (\<lambda>(migration, metadata, receipt_migrated_at).
     bindR (apply_milestone h (wf_index metadata) (wf_created_outputs metadata) (wf_consumed_outputs metadata)
       (wf_balance_diffs metadata) migration (storage tangle)) (\<lambda>s.
     Inr (metadata, self\<lparr>cw_tangle := tangle\<lparr>storage := s, confirmed_milestone_index := index\<rparr>,
       cw_ledger_index := LedgerIndex index, cw_receipt_migrated_at := receipt_migrated_at\<rparr>))))"

definition mark_cone :: "deps \<Rightarrow> MilestonePayload \<Rightarrow> WhiteFlagMetadata \<Rightarrow> Tangle \<Rightarrow> Tangle option" where
  "mark_cone d milestone metadata tangle =
     (let timestamp = MilestonePayloadEssence_timestamp (MilestonePayload_essence milestone) in
      Option.bind (reference_messages d timestamp
        (without_conflict (wf_excluded_no_transaction_messages metadata)) tangle) (\<lambda>tangle.
      Option.bind (reference_messages d timestamp (wf_excluded_conflicting_messages metadata) tangle) (\<lambda>tangle.
      reference_messages d timestamp (without_conflict (wf_included_messages metadata)) tangle)))"

definition confirm ::
  "deps \<Rightarrow> hash_iter \<Rightarrow> MessageId \<Rightarrow> ConsensusWorker \<Rightarrow> (LedgerError + ConsensusWorker) option" where
  "confirm d h message_id self =
     Option.bind (Tangle_get message_id (cw_tangle self)) (\<lambda>(message, tangle).
     let self = self\<lparr>cw_tangle := tangle\<rparr> in
     case bindR (ok_or (MilestoneMessageNotFound message_id) message) (\<lambda>message.
            bindR (milestone_of message) (\<lambda>milestone.
            bindR (check_contiguous (cw_ledger_index self) milestone) (\<lambda>_. Inr (message, milestone)))) of
       Inl e \<Rightarrow> Some (Inl e)
     | Inr (message, milestone) \<Rightarrow>
         Option.bind (white_flag_tangle d h (Parents_ids (Message_parents message))
           (WhiteFlagMetadata_new (MilestonePayloadEssence_index (MilestonePayload_essence milestone)))
           (cw_tangle self)) (\<lambda>r.
         case bindR r (\<lambda>(metadata, tangle).
                confirm_cone d h message_id milestone metadata (self\<lparr>cw_tangle := tangle\<rparr>)) of
           Inl e \<Rightarrow> Some (Inl e)
         | Inr (metadata, self) \<Rightarrow>
             map_option (\<lambda>tangle. Inr (self\<lparr>cw_tangle := tangle\<rparr>))
               (mark_cone d milestone metadata (cw_tangle self))))"

end
