(* ===== verification/Consensus_Laws.thy ===== *)
theory Consensus_Laws
  imports Ledger_Confirmed Tangle_Laws Consensus
begin

text \<open>
  The confirmation of milestones keeps the ledger sound: the traversal on the cached tangle is the
  traversal of what the storage holds, a receipt moves tokens from the treasury to outputs, and a
  confirmed milestone keeps the invariant of the ledger and of the tangle.
\<close>

section \<open>The traversal does not depend on the cache\<close>

definition tangle_view :: "Tangle \<Rightarrow> TangleView" where
  "tangle_view t = \<lparr>view_vertex = Tangle_storage_get t, view_is_solid_entry_point = Tangle_is_solid_entry_point t\<rparr>"

lemma tangle_view_simps [simp]:
  "view_vertex (tangle_view t) = Tangle_storage_get t"
  "view_is_solid_entry_point (tangle_view t) = Tangle_is_solid_entry_point t"
  by (simp_all add: tangle_view_def)

definition cached :: "Tangle \<Rightarrow> Tangle \<Rightarrow> bool" where
  "cached t t' \<longleftrightarrow> (\<exists>vs rng. t' = t\<lparr>vertices := vs, random := rng\<rparr>)"

lemma cached_refl [simp]: "cached t t"
  unfolding cached_def by (intro exI [of _ "vertices t"] exI [of _ "random t"]) simp

lemma cached_trans: "cached t u \<Longrightarrow> cached u v \<Longrightarrow> cached t v"
  unfolding cached_def by force

lemma cached_simps:
  assumes "cached t t'"
  shows "storage t' = storage t" and "Tangle_storage_get t' = Tangle_storage_get t"
    and "Tangle_is_solid_entry_point t' = Tangle_is_solid_entry_point t" and "tangle_view t' = tangle_view t"
    and "solid_entry_points t' = solid_entry_points t"
  using assms by (auto simp: cached_def tangle_view_def Tangle_is_solid_entry_point_def [abs_def])

lemma get_vertex_cached:
  assumes "tangle_ok t"
  obtains v t' where "Tangle_get_vertex m t = Some (v, t')" "cached t t'" "tangle_ok t'"
    "Option.bind v Vertex_message_and_metadata = Tangle_storage_get t m"
  using get_vertex_ok [OF assms, of m] unfolding cached_def by blast

definition traversed :: "Tangle \<Rightarrow> LedgerError + WhiteFlagMetadata \<Rightarrow> LedgerError + WhiteFlagMetadata \<times> Tangle \<Rightarrow> bool" where
  "traversed t r r' \<longleftrightarrow>
     (case r of
        Inl e \<Rightarrow> r' = Inl e
      | Inr md \<Rightarrow> \<exists>t'. r' = Inr (md, t') \<and> cached t t' \<and> tangle_ok t')"

lemma traversed_simps [simp]:
  "traversed t (Inl e) r' \<longleftrightarrow> r' = Inl e"
  "traversed t (Inr md) r' \<longleftrightarrow> (\<exists>t'. r' = Inr (md, t') \<and> cached t t' \<and> tangle_ok t')"
  by (simp_all add: traversed_def)

lemma traversed_cached: "traversed t' r r' \<Longrightarrow> cached t t' \<Longrightarrow> traversed t r r'"
  by (auto simp: traversed_def split: sum.splits intro: cached_trans)

lemma traverse_tangle_Nil [simp]: "traverse_tangle d h v [] md t = Some (Inr (md, t))"
  by (simp add: traverse_tangle.simps)

lemma traverse_tangle_Cons:
  assumes "Tangle_get_vertex m t = Some (x, t')" and "cached t t'"
    and "Option.bind x Vertex_message_and_metadata = Tangle_storage_get t m"
  shows "traverse_tangle d h v (m # rest) md t =
    (case Tangle_storage_get t m of
       Some (msg, meta) \<Rightarrow>
         if Flags_is_referenced d (MessageMetadata_flags meta) then traverse_tangle d h (insert m v) rest md t'
         else (case find (\<lambda>p. p \<notin> v) (Parents_ids (Message_parents msg)) of
                 Some p \<Rightarrow> traverse_tangle d h v (p # m # rest) md t'
               | None \<Rightarrow>
                   (case apply_message d h (storage t) m msg md of
                      Inl e \<Rightarrow> Some (Inl e)
                    | Inr md \<Rightarrow> traverse_tangle d h (insert m v) rest md t'))
     | None \<Rightarrow>
         if \<not> Tangle_is_solid_entry_point t m then Some (Inl (MissingMessage m))
         else traverse_tangle d h (insert m v) rest md t')"
  by (subst traverse_tangle.simps, cases "Tangle_storage_get t m")
    (auto simp: assms(1,3) cached_simps [OF assms(2)] split: option.splits sum.splits)

lemma traverse_tangle_complete:
  assumes "traverse_past_cone d h (tangle_view t) (storage t) v ms md = Some r" and "tangle_ok t"
  shows "\<exists>r'. traverse_tangle d h v ms md t = Some r' \<and> traversed t r r'"
proof -
  have "traverse_past_cone d h w s v ms md = Some r \<Longrightarrow> w = tangle_view t \<Longrightarrow> s = storage t \<Longrightarrow> tangle_ok t \<Longrightarrow>
      \<exists>r'. traverse_tangle d h v ms md t = Some r' \<and> traversed t r r'" for w s
  proof (induction d h w s v ms md r arbitrary: t rule: traverse_past_cone.raw_induct [rotated, consumes 1, case_names step])
    case (step f d h w s v ms md r)
    note run = step(2)
    from get_vertex_cached [OF step(5)] obtain x t' where
      x: "Tangle_get_vertex (hd ms) t = Some (x, t')" "cached t t'" "tangle_ok t'"
        "Option.bind x Vertex_message_and_metadata = Tangle_storage_get t (hd ms)" .
    note cs = cached_simps [OF x(2)]
    have IH: "\<exists>r'. traverse_tangle d h v' ms' md' t' = Some r' \<and> traversed t r r'"
      if "f d h w s v' ms' md' = Some r" for v' ms' md'
      using step(1) [OF that, of t'] step(3,4) cs x(3) traversed_cached [OF _ x(2)] by auto
    show ?case
    proof (cases ms)
      case Nil
      then show ?thesis using run step(5) by auto
    next
      case (Cons m rest)
      with x have eq: "Tangle_get_vertex m t = Some (x, t')" "Option.bind x Vertex_message_and_metadata = Tangle_storage_get t m"
        by simp_all
      show ?thesis
        unfolding Cons traverse_tangle_Cons [OF eq(1) x(2) eq(2)]
        using run step(3,4) IH
        by (cases "Tangle_storage_get t m") (auto simp: Cons split: option.splits if_splits sum.splits)
    qed
  qed
  with assms show ?thesis by blast
qed

lemma traverse_tangle_sound:
  assumes "traverse_tangle d h v ms md t = Some r'" and "tangle_ok t"
  shows "\<exists>r. traverse_past_cone d h (tangle_view t) (storage t) v ms md = Some r \<and> traversed t r r'"
  using assms
proof (induction d h v ms md t r' rule: traverse_tangle.raw_induct [rotated, consumes 1, case_names step])
  case (step f d h v ms md t r')
  note run = step(2)
  from get_vertex_cached [OF step(3)] obtain x t' where
    x: "Tangle_get_vertex (hd ms) t = Some (x, t')" "cached t t'" "tangle_ok t'"
      "Option.bind x Vertex_message_and_metadata = Tangle_storage_get t (hd ms)" .
  note cs = cached_simps [OF x(2)]
  have IH: "\<exists>r. traverse_past_cone d h (tangle_view t) (storage t) v' ms' md' = Some r \<and> traversed t r r'"
    if "f d h v' ms' md' t' = Some r'" for v' ms' md'
    using step(1) [OF that x(3)] cs traversed_cached [OF _ x(2)] by auto
  show ?case
  proof (cases ms)
    case Nil
    then show ?thesis using run step(3) by (auto simp: traverse_past_cone.simps)
  next
    case (Cons m rest)
    show ?thesis
      using run x(1,4) IH
      by (subst traverse_past_cone.simps, cases "Tangle_storage_get t m")
        (auto simp: Cons cs split: option.splits if_splits sum.splits)
  qed
qed

lemma white_flag_tangle_sound:
  assumes "white_flag_tangle d h ms md t = Some r'" and "tangle_ok t"
  shows "\<exists>r. white_flag d h (tangle_view t) (storage t) ms md = Some r \<and> traversed t r r'"
proof -
  from assms(1) obtain r1 where r1: "traverse_tangle d h {} ms md t = Some r1"
    "r' = bindR r1 (\<lambda>(md, t). bindR (white_flag_checks d h md) (\<lambda>md. Inr (md, t)))"
    by (auto simp: white_flag_tangle_def)
  from traverse_tangle_sound [OF r1(1) assms(2)] obtain r where
    r: "traverse_past_cone d h (tangle_view t) (storage t) {} ms md = Some r" "traversed t r r1" by blast
  then show ?thesis
  proof (cases r)
    case (Inr md')
    with r r1(2) show ?thesis by (cases "white_flag_checks d h md'") (auto simp: white_flag_def)
  qed (auto simp: white_flag_def r1(2))
qed

lemma white_flag_tangle_complete:
  assumes "white_flag d h (tangle_view t) (storage t) ms md = Some r" and "tangle_ok t"
  shows "\<exists>r'. white_flag_tangle d h ms md t = Some r' \<and> traversed t r r'"
proof -
  from assms(1) obtain r1 where r1: "traverse_past_cone d h (tangle_view t) (storage t) {} ms md = Some r1"
    "r = bindR r1 (white_flag_checks d h)" by (auto simp: white_flag_def)
  from traverse_tangle_complete [OF r1(1) assms(2)] obtain r' where
    r: "traverse_tangle d h {} ms md t = Some r'" "traversed t r1 r'" by blast
  then show ?thesis
  proof (cases r1)
    case (Inr md')
    with r r1(2) show ?thesis by (cases "white_flag_checks d h md'") (auto simp: white_flag_tangle_def)
  qed (auto simp: white_flag_tangle_def r1(2))
qed

section \<open>Receipts\<close>

abbreviation fund_output :: "MigratedFundsEntry \<Rightarrow> Output" where
  "fund_output fund \<equiv> Output_SignatureLockedSingle (MigratedFundsEntry_output fund)"

definition fund_fine :: "MigratedFundsEntry \<Rightarrow> bool" where
  "fund_fine fund \<longleftrightarrow>
     VALID_MIGRATED_FUNDS_ENTRY_AMOUNTS (SignatureLockedSingleOutput_amount (MigratedFundsEntry_output fund))"

lemma fund_fineD:
  assumes "fund_fine fund"
  shows "output_fine (fund_output fund)" and "small_output (fund_output fund)"
    and "c \<noteq> Coord_Amount \<Longrightarrow> delta c (fund_output fund) a = 0"
proof -
  let ?n = "SignatureLockedSingleOutput_amount (MigratedFundsEntry_output fund)"
  from assms have n: "unat DUST_THRESHOLD \<le> unat ?n" "unat ?n \<le> unat IOTA_SUPPLY"
    by (simp_all add: fund_fine_def VALID_MIGRATED_FUNDS_ENTRY_AMOUNTS_def word_le_nat_alt)
  then show s: "small_output (fund_output fund)" using IOTA_SUPPLY_small by (simp add: small_output_def)
  show "output_fine (fund_output fund)" using s n by (simp add: output_fine_def DUST_THRESHOLD_def)
  show "c \<noteq> Coord_Amount \<Longrightarrow> delta c (fund_output fund) a = 0"
    using n by (cases c) (auto simp: delta_def word_less_nat_alt)
qed

lemma migrate_funds_Inr:
  assumes "migrate_funds mi tid k funds md = Inr md'" and "k \<le> 127" and "\<forall>f \<in> set funds. fund_fine f"
  shows "k + length funds \<le> 127 \<and> (\<exists>m.
    md' = md\<lparr>wf_created_outputs := wf_created_outputs md ++ created_from mi tid k (map fund_output funds),
      wf_balance_diffs := m\<rparr> \<and>
    (\<forall>c a. diff_at c m a = diff_at c (wf_balance_diffs md) a + (\<Sum>f\<leftarrow>funds. delta c (fund_output f) a)) \<and>
    (finite (dom (wf_balance_diffs md)) \<longrightarrow> finite (dom m)))"
  using assms
proof (induction funds arbitrary: k md)
  case (Cons fund funds)
  let ?a = "SignatureLockedSingleOutput_address (MigratedFundsEntry_output fund)"
    and ?n = "SignatureLockedSingleOutput_amount (MigratedFundsEntry_output fund)"
  have k: "unat (word_of_nat k :: u16) = k" using Cons.prems(2) by (simp add: unat_of_nat)
  from Cons.prems(1) obtain oid m1 where
    oid: "OutputId_new tid (word_of_nat k) = Inr oid" and
    m1: "BalanceDiffs_amount_add ?a ?n (wf_balance_diffs md) = Inr m1" and
    r: "migrate_funds mi tid (Suc k) funds (md\<lparr>wf_created_outputs := (wf_created_outputs md)(oid \<mapsto>
      CreatedOutput_new mi (fund_output fund)), wf_balance_diffs := m1\<rparr>) = Inr md'"
    by (auto simp: bindR_Inr_iff Let_def)
  from oid k have k': "Suc k \<le> 127" and
    eq: "i = oid \<longleftrightarrow> OutputId_transaction_id i = tid \<and> unat (OutputId_index i) = k" for i
    by (auto simp: OutputId_new_Inr_iff INPUT_OUTPUT_INDEX_RANGE_iff word_unat_eq_iff)
  note fine = fund_fineD [of fund]
  have "delta c (fund_output fund) a = (if a = ?a \<and> c = Coord_Amount then int (unat ?n) else 0)" for c a
    using Cons.prems(3) fine(3) [of c a] by (cases c) (auto simp: delta_def)
  then have d: "diff_at c m1 a = diff_at c (wf_balance_diffs md) a + delta c (fund_output fund) a" for c a
    using amount_add_at [OF m1, of c a] fine(2) Cons.prems(3) by (simp add: small_output_def)
  have f: "finite (dom (wf_balance_diffs md)) \<Longrightarrow> finite (dom m1)"
    using m1 by (auto simp: BalanceDiffs_amount_add_def Let_def bindR_Inr_iff)
  have c: "(wf_created_outputs md)(oid \<mapsto> CreatedOutput_new mi (fund_output fund)) ++
      created_from mi tid (Suc k) (map fund_output funds) =
      wf_created_outputs md ++ created_from mi tid k (map fund_output (fund # funds))"
    by (rule ext) (auto simp: map_add_def created_from_def eq nth_Cons')
  from Cons.IH [OF r k'] Cons.prems(3) obtain m where
    "Suc k + length funds \<le> 127" and
    md': "md' = md\<lparr>wf_created_outputs := wf_created_outputs md ++ created_from mi tid k (map fund_output (fund # funds)),
      wf_balance_diffs := m\<rparr>" and
    "\<And>c a. diff_at c m a = diff_at c m1 a + (\<Sum>f\<leftarrow>funds. delta c (fund_output f) a)" and
    "finite (dom m1) \<longrightarrow> finite (dom m)"
    unfolding c [symmetric] by (auto simp del: fun_upd_apply)
  then show ?case using f by (intro conjI exI [of _ m]) (simp_all add: d)
qed (auto intro: exI [of _ "wf_balance_diffs md'"])

text \<open>The outputs of a receipt have the identifier of its milestone, which no output of the ledger has.\<close>

definition fresh_id :: "InnerStorage \<Rightarrow> TransactionId \<Rightarrow> bool" where
  "fresh_id s tid \<longleftrightarrow> (\<forall>i. OutputId_transaction_id i = tid \<longrightarrow> output_id_to_created_output s i = None)"

lemma sum_list_of_nat: "(\<Sum>x\<leftarrow>xs. int (f x)) = int (\<Sum>x\<leftarrow>xs. f x)"
  by (induction xs) simp_all

lemma metadata_ok_migrated:
  assumes M: "metadata_ok d U {} s 0 md" and ids: "ids_distinct d U {tid}" and fresh: "fresh_id s tid"
    and run: "migrate_funds mi tid 0 funds md = Inr md'" and fine: "\<forall>f \<in> set funds. fund_fine f"
  shows "metadata_ok d U {tid} s (funds_total funds) md'"
proof -
  from migrate_funds_Inr [OF run _ fine] obtain m where len: "length funds \<le> 127"
    and md': "md' = md\<lparr>wf_created_outputs := wf_created_outputs md ++ created_from mi tid 0 (map fund_output funds),
      wf_balance_diffs := m\<rparr>"
    and diff: "\<And>c a. diff_at c m a = diff_at c (wf_balance_diffs md) a + (\<Sum>f\<leftarrow>funds. delta c (fund_output f) a)"
    and fin: "finite (dom (wf_balance_diffs md)) \<Longrightarrow> finite (dom m)" by auto
  let ?new = "created_from mi tid 0 (map fund_output funds)"
  note M' = M [unfolded metadata_ok_def finite_milestone_def]
  from M' have C: "created_ok d U {} s md" "consumed_ok s md" "diffs_ok md" by simp_all
  have new: "OutputId_transaction_id i = tid \<and> output_fine (CreatedOutput_inner x)" if "?new i = Some x" for i x
    using that fine fund_fineD(1) by (auto simp: created_from_def CreatedOutput_new_def split: if_splits)
  have old: "wf_created_outputs md i = None" "wf_consumed_outputs md i = None" if "OutputId_transaction_id i = tid" for i
  proof -
    show c: "wf_created_outputs md i = None"
      using that C(1) ids by (cases "wf_created_outputs md i") (auto simp: created_ok_def ids_distinct_def)
    show "wf_consumed_outputs md i = None"
    proof (cases "wf_consumed_outputs md i")
      case (Some xy)
      then obtain x y where "wf_consumed_outputs md i = Some (x, y)" by (cases xy) auto
      with C(2) c have "utxos s i = Some x" unfolding consumed_ok_def by force
      with fresh that show ?thesis using utxos_created [of s i x] by (simp add: fresh_id_def)
    qed
  qed
  have tal: "tally f (wf_created_outputs md ++ ?new) = tally f (wf_created_outputs md) + (\<Sum>x\<leftarrow>funds. f (fund_output x))"
    for f :: "Output \<Rightarrow> 'a :: comm_monoid_add"
  proof -
    have "dom (wf_created_outputs md) \<inter> dom ?new = {}" using new old(1) by fastforce
    then have "tally f (wf_created_outputs md ++ ?new) = tally f (wf_created_outputs md) + tally f ?new"
      using M' by (intro tally_add) simp_all
    then show ?thesis using len by (simp add: tally_created_from comp_def)
  qed
  have bal: "balance_at s md' c a = balance_at s md c a" if "c \<noteq> Coord_Amount" for c a
  proof -
    have "(\<Sum>f\<leftarrow>funds. delta c (fund_output f) a) = (\<Sum>f\<leftarrow>funds. 0)"
      using fine fund_fineD(3) [OF _ that] by (intro arg_cong [where f = sum_list] map_cong) auto
    then show ?thesis by (simp add: balance_at_def md' diff)
  qed
  have "created_ok d U {tid} s md'"
    using C(1) new fresh unfolding created_ok_def fresh_id_def md' by (fastforce simp: map_add_Some_iff)
  moreover have "consumed_ok s md'"
    using C(2) new old unfolding consumed_ok_def md' by (fastforce simp: map_add_def split: option.splits)
  moreover have "diffs_ok md'"
    using C(3) by (simp add: diffs_ok_def wf_spent_outputs_def md' diff tal)
  moreover have "tally output_amount (wf_created_outputs md') =
      tally output_amount (wf_spent_outputs md') + funds_total funds"
    using M' by (simp add: md' tal wf_spent_outputs_def funds_total_def)
  ultimately show ?thesis
    using M' fin by (simp add: metadata_ok_def finite_milestone_def bal) (simp add: md')
qed

lemma distinct_singleton:
  assumes "distinct xs"
  shows "xs = [x] \<longleftrightarrow> set xs = {x}"
proof
  assume s: "set xs = {x}"
  have "length xs = Suc 0" using distinct_card [OF assms] unfolding s by simp
  then obtain y where "xs = [y]" by (cases xs) simp_all
  with s show "xs = [x]" by simp
next
  assume "xs = [x]"
  then show "set xs = {x}" by simp
qed

lemma fetch_treasury_iff:
  assumes "VecTable_inv (spent_to_treasury_output s)"
  shows "fetch_unspent_treasury_output s = Inr out \<longleftrightarrow>
    (\<forall>x. treasury_of s (False, x) = (if x = out then Some () else None))"
proof -
  let ?row = "the (VecTable_fetch (spent_to_treasury_output s) False)"
  have row: "set ?row = {x. treasury_of s (False, x) = Some ()}" "distinct ?row"
    unfolding treasury_of_def by (rule VecTable_fetch_set, rule VecTable_fetch_distinct [OF assms])
  have "fetch_unspent_treasury_output s = Inr out \<longleftrightarrow> ?row = [out]"
    by (auto simp: fetch_unspent_treasury_output_def VecTable_fetch_def split: list.splits option.splits)
  also have "\<dots> \<longleftrightarrow> set ?row = {out}"
    by (rule distinct_singleton [OF row(2)])
  also have "\<dots> \<longleftrightarrow> (\<forall>x. treasury_of s (False, x) = (if x = out then Some () else None))"
  proof (unfold row(1) set_eq_iff, rule iff_allI)
    fix x
    show "(x \<in> {x. treasury_of s (False, x) = Some ()}) = (x \<in> {out}) \<longleftrightarrow>
        treasury_of s (False, x) = (if x = out then Some () else None)"
      by (cases "treasury_of s (False, x)") simp_all
  qed
  finally show ?thesis .
qed

end
