(* ===== verification/Consensus_Invariant.thy ===== *)
theory Consensus_Invariant
  imports Consensus_Laws
begin

text \<open>
  The invariant of a node that receives messages and confirms milestones: its tangle answers from a
  sound cache, its ledger accounts for the whole supply, and the identifiers of the milestones that
  are still to come are unused.
\<close>

section \<open>Valid messages\<close>

lemma output_fine_valid:
  assumes "Output_valid out" and "\<not> is_treasury_output out"
  shows "output_fine out"
  using assms IOTA_SUPPLY_small
  by (cases out) (auto simp: output_fine_def small_output_def is_treasury_output_def
      SignatureLockedSingleOutput_valid_def SignatureLockedDustAllowanceOutput_valid_def
      SIGNATURE_LOCKED_SINGLE_OUTPUT_AMOUNT_def SIGNATURE_LOCKED_DUST_ALLOWANCE_OUTPUT_AMOUNT_def
      word_le_nat_alt DUST_THRESHOLD_def)

lemma payment_ok_valid:
  assumes "Message_valid d msg" and "Message_payload msg = Some (Payload_Transaction tx)"
  shows "payment_ok tx"
proof -
  have "TransactionPayload_valid d (Payload_valid d) tx"
    using assms Payload_valid_unfold [of d "Payload_Transaction tx"]
    by (simp add: Message_valid_def Message_parts_valid_def option_payload_ok_def)
  then have v: "RegularEssence_valid d (Payload_valid d) (tx_essence tx)"
    by (simp add: TransactionPayload_valid_def tx_essence_eq)
  then have "output_fine out" if "out \<in> set (tx_outputs tx)" for out
    using that by (intro output_fine_valid) (auto simp: RegularEssence_valid_def RegularEssence_wf_def list_all_iff)
  with v show ?thesis
    by (auto simp: payment_ok_def RegularEssence_valid_def RegularEssence_wf_def INPUT_OUTPUT_COUNT_RANGE_def)
qed

lemma funds_fine_valid:
  assumes "Message_valid d msg" and "Message_payload msg = Some (Payload_Milestone ms)"
    and "MilestonePayloadEssence_receipt (MilestonePayload_essence ms) = Some (Payload_Receipt receipt)"
  shows "\<forall>f \<in> set (ReceiptPayload_funds receipt). fund_fine f"
proof -
  have "MilestonePayload_valid d (Payload_valid d) ms"
    using assms(1,2) Payload_valid_unfold [of d "Payload_Milestone ms"]
    by (simp add: Message_valid_def Message_parts_valid_def option_payload_ok_def)
  then have "ReceiptPayload_valid d (Payload_valid d) receipt"
    using assms(3) Payload_valid_unfold [of d "Payload_Receipt receipt"]
    by (simp add: MilestonePayload_valid_def MilestonePayloadEssence_valid_def option_payload_ok_def)
  then show ?thesis
    by (auto simp: ReceiptPayload_valid_def list_all_iff fund_fine_def MigratedFundsEntry_valid_def)
qed

section \<open>The part of the storage a confirmation changes\<close>

lemma apply_milestone_messages:
  assumes "apply_milestone h index created consumed deltas migration s = Inr s'"
  shows "message_id_to_message s' = message_id_to_message s" and "message_id_to_metadata s' = message_id_to_metadata s"
    and "message_id_to_message_id s' = message_id_to_message_id s"
  using assms unfolding apply_milestone_Inr_iff by (cases migration; simp add: batch_views)+

lemma messages_kept:
  assumes "message_id_to_message s' = message_id_to_message (storage t)"
    and "message_id_to_metadata s' = message_id_to_metadata (storage t)"
    and "message_id_to_message_id s' = message_id_to_message_id (storage t)"
  shows "Tangle_storage_get (t\<lparr>storage := s', confirmed_milestone_index := i\<rparr>) = Tangle_storage_get t"
    and "tangle_ok (t\<lparr>storage := s', confirmed_milestone_index := i\<rparr>) = tangle_ok t"
proof -
  let ?t = "t\<lparr>storage := s', confirmed_milestone_index := i\<rparr>"
  show g: "Tangle_storage_get ?t = Tangle_storage_get t"
    by (rule ext) (simp add: Tangle_storage_get_def assms cong: option.case_cong)
  have "approvers s' = approvers (storage t)" by (rule ext) (simp add: approvers_def assms(3))
  then show "tangle_ok ?t = tangle_ok t" unfolding tangle_ok_def approvers_ok_def g by (simp add: assms(3))
qed

lemma ledger_ok_messages [simp]:
  "ledger_ok d U (s\<lparr>message_id_to_message := ms, message_id_to_metadata := mm, message_id_to_message_id := ids\<rparr>) =
   ledger_ok d U s"
  by (simp add: ledger_ok_def balances_of_outputs_def inputs_spent_def utxos_def unspent_ids_def is_output_unspent_def
      fetch_balance_or_default_def fetch_balance_def fetch_unspent_treasury_output_def treasury_amount_def)

section \<open>The treasury\<close>

lemma treasury_applied:
  assumes inv: "Storage_inv s" and run: "apply_milestone h index created consumed deltas migration s = Inr s'"
    and t: "fetch_unspent_treasury_output s = Inr out"
    and m: "\<And>m. migration = Some m \<Longrightarrow> Migration_consumed_treasury m = out \<and> Migration_created_treasury m \<noteq> out"
  shows "fetch_unspent_treasury_output s' =
    Inr (case migration of Some m \<Rightarrow> Migration_created_treasury m | None \<Rightarrow> out)"
proof -
  note eff = apply_milestone_treasury [OF inv run]
  have inv': "VecTable_inv (spent_to_treasury_output s)" "VecTable_inv (spent_to_treasury_output s')"
    using inv eff(4) by (simp_all add: Storage_inv_def)
  have row: "treasury_of s (False, x) = (if x = out then Some () else None)" for x
    using t unfolding fetch_treasury_iff [OF inv'(1)] by blast
  show ?thesis
    unfolding fetch_treasury_iff [OF inv'(2)] eff(1) using m row by (cases migration) auto
qed

lemma migration_Inr:
  assumes "migration_from_milestone index i receipt c = Inr m"
  shows "Migration_consumed_treasury m = c" and "LedgerTreasuryOutput_milestone_id (Migration_created_treasury m) = i"
    and "unat (TreasuryOutput_amount (LedgerTreasuryOutput_inner (Migration_created_treasury m))) +
      funds_total (ReceiptPayload_funds receipt) = unat (TreasuryOutput_amount (LedgerTreasuryOutput_inner c))"
proof -
  let ?r = "LedgerReceipt_new receipt index"
  from assms have "LedgerReceipt_validate c ?r = Inr ()"
    by (auto simp: migration_from_milestone_def Let_def bindR_Inr_iff)
  from LedgerReceipt_validate_Inr [OF this] obtain t out where
    "ReceiptPayload_transaction receipt = Payload_TreasuryTransaction t"
    "TreasuryTransactionPayload_output t = Output_Treasury out"
    "unat (TreasuryOutput_amount out) + funds_total (ReceiptPayload_funds receipt) =
      unat (TreasuryOutput_amount (LedgerTreasuryOutput_inner c))"
    by (auto simp: LedgerReceipt_new_def)
  moreover from this assms have "m = Migration_new ?r c (LedgerTreasuryOutput_new out i)"
    by (auto simp: migration_from_milestone_def Let_def bindR_Inr_iff LedgerReceipt_new_def)
  ultimately show "Migration_consumed_treasury m = c" "LedgerTreasuryOutput_milestone_id (Migration_created_treasury m) = i"
    "unat (TreasuryOutput_amount (LedgerTreasuryOutput_inner (Migration_created_treasury m))) +
      funds_total (ReceiptPayload_funds receipt) = unat (TreasuryOutput_amount (LedgerTreasuryOutput_inner c))"
    by (simp_all add: Migration_new_def LedgerTreasuryOutput_new_def)
qed

abbreviation receipt_id :: "deps \<Rightarrow> MilestonePayload \<Rightarrow> TransactionId" where
  "receipt_id d ms \<equiv> TransactionId_new (MilestoneId_bytes (MilestonePayload_id d ms))"

definition receipt_of :: "MilestonePayload \<Rightarrow> ReceiptPayload option" where
  "receipt_of ms = (case MilestonePayloadEssence_receipt (MilestonePayload_essence ms) of
     Some (Payload_Receipt receipt) \<Rightarrow> Some receipt | _ \<Rightarrow> None)"

lemma migrate_cases:
  assumes "migrate d s mi ms md mat = Inr (migration, md', mat')"
  obtains (none) "receipt_of ms = None" "migration = None" "md' = md" "mat' = mat"
  | (receipt) receipt c m where "receipt_of ms = Some receipt" "migration = Some m"
      "migrate_funds mi (receipt_id d ms) 0 (ReceiptPayload_funds receipt) md = Inr md'"
      "next_migrated_at receipt mat = Inr mat'" "fetch_unspent_treasury_output s = Inr c"
      "migration_from_milestone (MilestonePayloadEssence_index (MilestonePayload_essence ms))
         (MilestonePayload_id d ms) receipt c = Inr m"
  using assms
  by (auto simp: migrate_def receipt_of_def Let_def bindR_Inr_iff split: option.splits Payload.splits)

section \<open>The invariant\<close>

text \<open>The transactions \<open>U\<close> and the milestones \<open>M\<close> that ever reach the node have different identifiers.\<close>

definition ids_ok :: "deps \<Rightarrow> TransactionPayload set \<Rightarrow> MilestonePayload set \<Rightarrow> bool" where
  "ids_ok d U M \<longleftrightarrow> inj_on (TransactionPayload_id d) U \<and> inj_on (MilestonePayload_id d) M \<and>
     receipt_id d ` M \<inter> TransactionPayload_id d ` U = {}"

definition message_ok :: "deps \<Rightarrow> TransactionPayload set \<Rightarrow> MilestonePayload set \<Rightarrow> Message \<Rightarrow> bool" where
  "message_ok d U M msg \<longleftrightarrow> Message_valid d msg \<and>
     (\<forall>tx. Message_payload msg = Some (Payload_Transaction tx) \<longrightarrow> tx \<in> U) \<and>
     (\<forall>ms. Message_payload msg = Some (Payload_Milestone ms) \<longrightarrow> ms \<in> M)"

definition messages_ok :: "deps \<Rightarrow> TransactionPayload set \<Rightarrow> MilestonePayload set \<Rightarrow> Tangle \<Rightarrow> bool" where
  "messages_ok d U M t \<longleftrightarrow> (\<forall>m msg meta. Tangle_storage_get t m = Some (msg, meta) \<longrightarrow> message_ok d U M msg)"

abbreviation milestone_value :: "MilestonePayload \<Rightarrow> u32" where
  "milestone_value ms \<equiv> MilestoneIndex_value (MilestonePayloadEssence_index (MilestonePayload_essence ms))"

abbreviation ledger_value :: "ConsensusWorker \<Rightarrow> u32" where
  "ledger_value c \<equiv> MilestoneIndex_value (LedgerIndex_index (cw_ledger_index c))"

text \<open>The identifiers of the milestones to come are neither those of an output nor of the treasury.\<close>

definition ids_unused :: "deps \<Rightarrow> MilestonePayload set \<Rightarrow> InnerStorage \<Rightarrow> u32 \<Rightarrow> bool" where
  "ids_unused d M s i \<longleftrightarrow> (\<forall>ms \<in> M. i < milestone_value ms \<longrightarrow> fresh_id s (receipt_id d ms) \<and>
     (\<forall>out. fetch_unspent_treasury_output s = Inr out \<longrightarrow> LedgerTreasuryOutput_milestone_id out \<noteq> MilestonePayload_id d ms))"

definition consensus_ok :: "deps \<Rightarrow> TransactionPayload set \<Rightarrow> MilestonePayload set \<Rightarrow> ConsensusWorker \<Rightarrow> bool" where
  "consensus_ok d U M c \<longleftrightarrow>
     tangle_ok (cw_tangle c) \<and> messages_ok d U M (cw_tangle c) \<and> Storage_inv (storage (cw_tangle c)) \<and>
     ledger_ok d U (storage (cw_tangle c)) \<and> ids_unused d M (storage (cw_tangle c)) (ledger_value c) \<and>
     fetch_ledger_index (storage (cw_tangle c)) = Some (cw_ledger_index c)"

lemma messages_ok_view:
  assumes "messages_ok d U M t"
  shows "view_ok U (tangle_view t)"
  unfolding view_ok_def tangle_view_simps
proof (intro allI impI)
  fix m msg meta tx
  assume "Tangle_storage_get t m = Some (msg, meta)" "Message_payload msg = Some (Payload_Transaction tx)"
  with assms show "tx \<in> U \<and> payment_ok tx"
    unfolding messages_ok_def message_ok_def using payment_ok_valid by blast
qed

lemma apply_message_index:
  assumes "apply_message d h s m msg md = Inr md'" and "hash_iter_spec h"
  shows "wf_index md' = wf_index md"
  using assms(1)
proof (cases rule: apply_message_cases)
  case (included tx md1)
  from apply_transaction_included [OF assms(2) tx_essence_eq included(2)] obtain m' where
    "md1 = transaction_recorded d s m tx (tx_essence tx) (wf_referenced_messages_update Suc md) m'" by blast
  with included(3) show ?thesis by (simp add: transaction_recorded_def)
qed simp_all

lemma white_flag_index:
  assumes h: "hash_iter_spec h" and run: "white_flag d h t s roots (WhiteFlagMetadata_new i) = Some (Inr md)"
  shows "wf_index md = i"
proof -
  from run obtain md1 where
    "traverse_past_cone d h t s {} roots (WhiteFlagMetadata_new i) = Some (Inr md1)" and md: "md = with_merkle_proof d md1"
    unfolding white_flag_eq [OF h counts_ok_new]
    by (cases "traverse_past_cone d h t s {} roots (WhiteFlagMetadata_new i)")
      (auto simp: map_sum_def split: sum.splits)
  from traverse_invariant [OF this(1), where P = "\<lambda>md. wf_index md = i"] apply_message_index [OF _ h]
  have "wf_index md1 = i" by (fastforce simp: WhiteFlagMetadata_new_def)
  then show ?thesis by (simp add: md with_merkle_proof_def)
qed

lemma receipt_id_eq: "receipt_id d ms = receipt_id d ms' \<longleftrightarrow> MilestonePayload_id d ms = MilestonePayload_id d ms'"
  by (auto simp: TransactionId_new_def MilestoneId.expand)

section \<open>A confirmation keeps the invariant\<close>

text \<open>What a receipt does: tokens move from the treasury to the outputs of the milestone.\<close>

lemma migrate_ok:
  assumes M: "metadata_ok d U {} s 0 md" and ids: "ids_distinct d U {receipt_id d ms}"
    and fresh: "fresh_id s (receipt_id d ms)" and t: "fetch_unspent_treasury_output s = Inr out"
    and fine: "\<And>receipt. receipt_of ms = Some receipt \<Longrightarrow> \<forall>f \<in> set (ReceiptPayload_funds receipt). fund_fine f"
    and run: "migrate d s mi ms md mat = Inr (migration, md', mat')"
  obtains n where "metadata_ok d U {receipt_id d ms} s n md'" "wf_index md' = wf_index md"
    "\<And>m. migration = Some m \<Longrightarrow> Migration_consumed_treasury m = out \<and>
       LedgerTreasuryOutput_milestone_id (Migration_created_treasury m) = MilestonePayload_id d ms"
    "unat (TreasuryOutput_amount (LedgerTreasuryOutput_inner
       (case migration of Some m \<Rightarrow> Migration_created_treasury m | None \<Rightarrow> out))) + n =
     unat (TreasuryOutput_amount (LedgerTreasuryOutput_inner out))"
  using run
proof (cases rule: migrate_cases)
  case none
  from M have "metadata_ok d U {receipt_id d ms} s 0 md" by (auto simp: metadata_ok_def created_ok_def)
  with none show thesis by (intro that [of 0]) simp_all
next
  case (receipt receipt c m)
  note mig = migration_Inr [OF receipt(6)]
  from receipt(5) t have c: "c = out" by simp
  show thesis
  proof (rule that [of "funds_total (ReceiptPayload_funds receipt)"])
    show "metadata_ok d U {receipt_id d ms} s (funds_total (ReceiptPayload_funds receipt)) md'"
      by (rule metadata_ok_migrated [OF M ids fresh receipt(3) fine [OF receipt(1)]])
    show "wf_index md' = wf_index md"
      using migrate_funds_Inr [OF receipt(3) _ fine [OF receipt(1)]] by auto
  qed (use mig receipt(2) c in simp_all)
qed

lemma milestone_applied:
  assumes h: "hash_iter_spec h" and inv: "Storage_inv s" and L: "ledger_ok d U s"
    and M: "metadata_ok d U {} s 0 md" and ids: "ids_distinct d U {receipt_id d ms}"
    and fresh: "fresh_id s (receipt_id d ms)"
    and treasury: "\<And>out. fetch_unspent_treasury_output s = Inr out \<Longrightarrow>
      LedgerTreasuryOutput_milestone_id out \<noteq> MilestonePayload_id d ms"
    and fine: "\<And>receipt. receipt_of ms = Some receipt \<Longrightarrow> \<forall>f \<in> set (ReceiptPayload_funds receipt). fund_fine f"
    and run: "migrate d s mi ms md mat = Inr (migration, md', mat')"
    and app: "apply_milestone h (wf_index md') (wf_created_outputs md') (wf_consumed_outputs md')
      (wf_balance_diffs md') migration s = Inr s'"
  shows "ledger_ok d U s'" and "Storage_inv s'" and "fetch_ledger_index s' = Some (LedgerIndex (wf_index md))"
    and "fresh_id s tid \<Longrightarrow> tid \<notin> TransactionPayload_id d ` U \<Longrightarrow> tid \<noteq> receipt_id d ms \<Longrightarrow> fresh_id s' tid"
    and "fetch_unspent_treasury_output s' = Inr out' \<Longrightarrow> fetch_unspent_treasury_output s = Inr out' \<or>
      LedgerTreasuryOutput_milestone_id out' = MilestonePayload_id d ms"
proof -
  from L obtain out where t: "fetch_unspent_treasury_output s = Inr out"
    by (cases "fetch_unspent_treasury_output s") (auto simp: ledger_ok_def)
  from migrate_ok [OF M ids fresh t fine run] obtain n where
    M': "metadata_ok d U {receipt_id d ms} s n md'" and i: "wf_index md' = wf_index md" and
    m: "\<And>m. migration = Some m \<Longrightarrow> Migration_consumed_treasury m = out \<and>
       LedgerTreasuryOutput_milestone_id (Migration_created_treasury m) = MilestonePayload_id d ms" and
    n: "unat (TreasuryOutput_amount (LedgerTreasuryOutput_inner
       (case migration of Some m \<Rightarrow> Migration_created_treasury m | None \<Rightarrow> out))) + n =
     unat (TreasuryOutput_amount (LedgerTreasuryOutput_inner out))" by metis
  have t': "fetch_unspent_treasury_output s' = Inr (case migration of Some m \<Rightarrow> Migration_created_treasury m | None \<Rightarrow> out)"
    by (rule treasury_applied [OF inv app t]) (use m treasury [OF t] in force)
  show "ledger_ok d U s'"
    by (rule ledger_ok_applied [OF h L M' ids app]) (use t t' n in \<open>simp_all add: treasury_amount_def\<close>)
  show "Storage_inv s'" by (rule apply_milestone_treasury(4) [OF inv app])
  have fin: "finite_milestone (wf_created_outputs md') (wf_consumed_outputs md') (wf_balance_diffs md')"
    and C: "created_ok d U {receipt_id d ms} s md'" using M' by (simp_all add: metadata_ok_def)
  note eff = apply_milestone_effect [OF h fin app]
  show "fetch_ledger_index s' = Some (LedgerIndex (wf_index md))"
    using eff(1) i by (simp add: fetch_ledger_index_def SingletonTable_fetch_def)
  show "fresh_id s' tid" if "fresh_id s tid" "tid \<notin> TransactionPayload_id d ` U" "tid \<noteq> receipt_id d ms"
    unfolding fresh_id_def
  proof (intro allI impI)
    fix i :: OutputId
    assume i: "OutputId_transaction_id i = tid"
    then have "wf_created_outputs md' i = None"
      using C that(2,3) by (cases "wf_created_outputs md' i") (auto simp: created_ok_def)
    with that(1) i show "output_id_to_created_output s' i = None" by (simp add: eff(2) map_add_def fresh_id_def)
  qed
  show "fetch_unspent_treasury_output s' = Inr out' \<Longrightarrow> fetch_unspent_treasury_output s = Inr out' \<or>
      LedgerTreasuryOutput_milestone_id out' = MilestonePayload_id d ms"
    using t t' m by (cases migration) auto
qed

lemma confirm_cone_ok:
  assumes h: "hash_iter_spec h" and ids: "ids_ok d U M" and c: "consensus_ok d U M c" and ms: "ms \<in> M"
    and md: "metadata_ok d U {} (storage (cw_tangle c)) 0 md"
      "wf_index md = MilestonePayloadEssence_index (MilestonePayload_essence ms)"
    and i: "milestone_value ms = ledger_value c + 1" "unat (ledger_value c) < 2 ^ 32 - 1"
    and fine: "\<And>receipt. receipt_of ms = Some receipt \<Longrightarrow> \<forall>f \<in> set (ReceiptPayload_funds receipt). fund_fine f"
    and run: "confirm_cone d h m ms md c = Inr (md', c')"
  shows "consensus_ok d U M c'" and "ledger_value c' = ledger_value c + 1"
    and "Tangle_storage_get (cw_tangle c') = Tangle_storage_get (cw_tangle c)"
proof -
  let ?s = "storage (cw_tangle c)"
  let ?md = "md\<lparr>wf_referenced_messages := wf_referenced_messages md + 1,
    wf_excluded_no_transaction_messages := wf_excluded_no_transaction_messages md @ [m]\<rparr>"
  from run obtain migration mat s' where
    mig: "migrate d ?s m ms ?md (cw_receipt_migrated_at c) = Inr (migration, md', mat)" and
    app: "apply_milestone h (wf_index md') (wf_created_outputs md') (wf_consumed_outputs md')
      (wf_balance_diffs md') migration ?s = Inr s'" and
    c': "c' = c\<lparr>cw_tangle := (cw_tangle c)\<lparr>storage := s',
        confirmed_milestone_index := MilestonePayloadEssence_index (MilestonePayload_essence ms)\<rparr>,
      cw_ledger_index := LedgerIndex (MilestonePayloadEssence_index (MilestonePayload_essence ms)),
      cw_receipt_migrated_at := mat\<rparr>"
    by (auto simp: confirm_cone_def Let_def bindR_Inr_iff)
  note C = c [unfolded consensus_ok_def]
  have less: "ledger_value c < milestone_value ms" using i by (simp add: word_less_nat_alt unat_word_ariths)
  from C ms less have new: "fresh_id ?s (receipt_id d ms)" "\<And>out. fetch_unspent_treasury_output ?s = Inr out \<Longrightarrow>
      LedgerTreasuryOutput_milestone_id out \<noteq> MilestonePayload_id d ms" by (auto simp: ids_unused_def)
  have dist: "ids_distinct d U {receipt_id d ms}" using ids ms by (auto simp: ids_ok_def ids_distinct_def)
  have M: "metadata_ok d U {} ?s 0 ?md" by (rule metadata_ok_cong [OF _ _ _ md(1)]) simp_all
  note res = milestone_applied [where md = ?md, OF h _ _ M dist new fine mig app]
  have same: "Tangle_storage_get (cw_tangle c') = Tangle_storage_get (cw_tangle c)"
    "tangle_ok (cw_tangle c') = tangle_ok (cw_tangle c)"
    unfolding c' using messages_kept [where t = "cw_tangle c", OF apply_milestone_messages [OF app]] by simp_all
  have "ids_unused d M s' (milestone_value ms)"
    unfolding ids_unused_def
  proof (intro ballI impI)
    fix ms'
    assume ms': "ms' \<in> M" "milestone_value ms < milestone_value ms'"
    then have "ledger_value c < milestone_value ms'" "ms' \<noteq> ms" using less by auto
    moreover from this(2) ms ms'(1) ids have "MilestonePayload_id d ms' \<noteq> MilestonePayload_id d ms"
      by (auto simp: ids_ok_def inj_on_def)
    ultimately show "fresh_id s' (receipt_id d ms') \<and> (\<forall>out. fetch_unspent_treasury_output s' = Inr out \<longrightarrow>
        LedgerTreasuryOutput_milestone_id out \<noteq> MilestonePayload_id d ms')"
      using C ms' ids res(4) [of "receipt_id d ms'"] res(5) by (auto simp: ids_unused_def ids_ok_def receipt_id_eq)
  qed
  then show "consensus_ok d U M c'"
    using C res(1-3) md(2) same by (simp add: consensus_ok_def messages_ok_def) (simp add: c')
  show "ledger_value c' = ledger_value c + 1" using i by (simp add: c')
  show "Tangle_storage_get (cw_tangle c') = Tangle_storage_get (cw_tangle c)" by (rule same(1))
qed

end
