(* ===== verification/Consensus_Confirm.thy ===== *)
theory Consensus_Confirm
  imports Consensus_Invariant
begin

text \<open>
  The whole confirmation of a milestone: it returns on acyclic tangles, keeps the invariant of the
  node, and marks exactly the messages of the past cone as referenced.
\<close>

section \<open>Marking the messages of the cone\<close>

lemma only_messages_trans: "only_messages t u \<Longrightarrow> only_messages u v \<Longrightarrow> only_messages t v"
  unfolding only_messages_def by (elim exE) (simp, blast)

lemma cached_only_messages: "cached t t' \<Longrightarrow> only_messages t t'"
  using only_messages_cache by (auto simp: cached_def)

definition mark :: "deps \<Rightarrow> u64 \<Rightarrow> ConflictReason \<Rightarrow> MessageMetadata \<Rightarrow> MessageMetadata" where
  "mark d timestamp conflict md = MessageMetadata_reference d timestamp (MessageMetadata_set_conflict conflict md)"

definition marks :: "deps \<Rightarrow> u64 \<Rightarrow> (MessageId \<times> ConflictReason) list \<Rightarrow> MessageId \<Rightarrow> MessageMetadata \<Rightarrow> MessageMetadata" where
  "marks d timestamp xs m = fold (\<lambda>(x, conflict) md. if x = m then mark d timestamp conflict md else md) xs"

lemma reference_messages_ok:
  assumes "tangle_ok t"
  shows "\<exists>t'. reference_messages d timestamp xs t = Some t' \<and> tangle_ok t' \<and> only_messages t t' \<and>
    (\<forall>m. Tangle_storage_get t' m = map_option (apsnd (marks d timestamp xs m)) (Tangle_storage_get t m))"
  using assms
proof (induction xs arbitrary: t)
  case Nil
  have "only_messages t t" using cached_only_messages [OF cached_refl] .
  moreover have "Tangle_storage_get t m = map_option (apsnd (marks d timestamp [] m)) (Tangle_storage_get t m)" for m
    by (cases "Tangle_storage_get t m") (auto simp: marks_def)
  ultimately show ?case using Nil by simp
next
  case (Cons x xs)
  obtain m conflict where x: "x = (m, conflict)" by (cases x)
  from update_metadata_ok [OF Cons.prems, of m "mark d timestamp conflict"] obtain t1 where
    t1: "Tangle_update_metadata m (mark d timestamp conflict) t = Some t1" "tangle_ok t1" "only_messages t t1"
    "Tangle_storage_get t1 = (Tangle_storage_get t)(m := map_option (apsnd (mark d timestamp conflict)) (Tangle_storage_get t m))"
    by blast
  from Cons.IH [OF t1(2)] obtain t' where
    t': "reference_messages d timestamp xs t1 = Some t'" "tangle_ok t'" "only_messages t1 t'"
    "\<And>m. Tangle_storage_get t' m = map_option (apsnd (marks d timestamp xs m)) (Tangle_storage_get t1 m)" by blast
  have "reference_messages d timestamp (x # xs) t = Some t'"
    using t1(1) t'(1) unfolding x by (simp add: mark_def [abs_def])
  moreover have "Tangle_storage_get t' k = map_option (apsnd (marks d timestamp (x # xs) k)) (Tangle_storage_get t k)" for k
    unfolding t'(4) t1(4) by (cases "Tangle_storage_get t k") (auto simp: marks_def x split: option.splits)
  ultimately show ?case using t'(2) only_messages_trans [OF t1(3) t'(3)] by blast
qed

lemma reference_messages_append:
  "reference_messages d timestamp (xs @ ys) =
     (\<lambda>t. Option.bind (reference_messages d timestamp xs t) (reference_messages d timestamp ys))"
proof
  fix t
  show "reference_messages d timestamp (xs @ ys) t =
      Option.bind (reference_messages d timestamp xs t) (reference_messages d timestamp ys)"
    by (induction d timestamp xs t rule: reference_messages.induct) (auto split: bind_splits)
qed

definition cone_marks :: "WhiteFlagMetadata \<Rightarrow> (MessageId \<times> ConflictReason) list" where
  "cone_marks md = without_conflict (wf_excluded_no_transaction_messages md) @
     wf_excluded_conflicting_messages md @ without_conflict (wf_included_messages md)"

lemma mark_cone_eq:
  "mark_cone d ms md t =
     reference_messages d (MilestonePayloadEssence_timestamp (MilestonePayload_essence ms)) (cone_marks md) t"
  by (simp add: mark_cone_def cone_marks_def reference_messages_append Let_def)

lemma marks_other: "m \<notin> fst ` set xs \<Longrightarrow> marks d timestamp xs m md = md"
  by (induction xs arbitrary: md) (auto simp: marks_def)

lemma marks_referenced:
  assumes "bitflags_spec d" and "m \<in> fst ` set xs \<or> Flags_is_referenced d (MessageMetadata_flags md)"
  shows "Flags_is_referenced d (MessageMetadata_flags (marks d timestamp xs m md))"
  using assms(2)
proof (induction xs arbitrary: md)
  case (Cons x xs)
  have "Flags_is_referenced d (MessageMetadata_flags (mark d timestamp c y))" for c y
    using assms(1) by (simp add: mark_def MessageMetadata_reference_def Flags_is_referenced_def Flags_set_referenced_def
        bitflags_spec_def and.commute or.commute)
  then show ?case using Cons by (cases x) (auto simp: marks_def)
qed (simp add: marks_def)

section \<open>The messages of the cone are recorded\<close>

lemma set_cone_marks: "fst ` set (cone_marks md) = set (wf_excluded_no_transaction_messages md) \<union>
  fst ` set (wf_excluded_conflicting_messages md) \<union> set (wf_included_messages md)"
  by (simp add: cone_marks_def without_conflict_def image_Un image_image Un_assoc)

lemma apply_message_recorded:
  assumes "hash_iter_spec h" and "apply_message d h s m msg md = Inr md'"
  shows "fst ` set (cone_marks md') = insert m (fst ` set (cone_marks md))"
  using assms(2)
proof (cases rule: apply_message_cases)
  case (included tx md1)
  from apply_transaction_included [OF assms(1) tx_essence_eq included(2)] obtain m' where
    "md1 = transaction_recorded d s m tx (tx_essence tx) (wf_referenced_messages_update Suc md) m'" by blast
  with included(3) show ?thesis by (auto simp: set_cone_marks transaction_recorded_def)
qed (auto simp: set_cone_marks)

lemma apply_messages_recorded:
  assumes "hash_iter_spec h" and "apply_messages d h t s ms md = Inr md'"
  shows "fst ` set (cone_marks md') = set ms \<union> fst ` set (cone_marks md)"
  using assms(2)
proof (induction ms arbitrary: md)
  case (Cons m ms)
  then obtain md1 where "apply_message d h s m (fst (the (view_vertex t m))) md = Inr md1" "apply_messages d h t s ms md1 = Inr md'"
    by (auto simp: bindR_Inr_iff)
  with Cons.IH [of md1] apply_message_recorded [OF assms(1)] show ?case by simp
qed simp

lemma white_flag_recorded:
  assumes h: "hash_iter_spec h" and r: "ranked d t rank"
    and run: "white_flag d h t s roots (WhiteFlagMetadata_new i) = Some (Inr md)"
  shows "fst ` set (cone_marks md) = {x \<in> cones d t roots. pending d t x}"
    and "x \<in> cones d t roots \<Longrightarrow> known t x"
proof -
  let ?md = "WhiteFlagMetadata_new i"
  from run obtain md1 where tr: "traverse_past_cone d h t s {} roots ?md = Some (Inr md1)" and md: "md = with_merkle_proof d md1"
    unfolding white_flag_eq [OF h counts_ok_new]
    by (cases "traverse_past_cone d h t s {} roots ?md") (auto simp: map_sum_def split: sum.splits)
  from walks_from_empty [OF r] obtain ord out where w: "walks d t {} roots ord out" by blast
  have out: "\<exists>v. out = Inr v"
    using w tr by (cases out) (auto simp: walks_def resume_def split: sum.splits)
  with w tr have "apply_messages d h t s ord ?md = Inr md1" by (auto simp: walks_def resume_end)
  from apply_messages_recorded [OF h this] have "fst ` set (cone_marks md) = set ord"
    by (simp add: md with_merkle_proof_def set_cone_marks) (simp add: WhiteFlagMetadata_new_def)
  with w out show "fst ` set (cone_marks md) = {x \<in> cones d t roots. pending d t x}" by (auto simp: walks_def)
  show "x \<in> cones d t roots \<Longrightarrow> known t x" using w out by (auto simp: walks_def)
qed

section \<open>The confirmation\<close>

lemma consensus_ok_only_messages:
  assumes "consensus_ok d U M c" and "tangle_ok t'" and "only_messages (cw_tangle c) t'" and "messages_ok d U M t'"
  shows "consensus_ok d U M (c\<lparr>cw_tangle := t'\<rparr>)"
proof -
  from assms(3) obtain ms mm ids where
    s: "storage t' = (storage (cw_tangle c))\<lparr>message_id_to_message := ms, message_id_to_metadata := mm, message_id_to_message_id := ids\<rparr>"
    by (auto simp: only_messages_def)
  have "VecBinTable_inv ids" using assms(2) by (simp add: tangle_ok_def approvers_ok_def s)
  with assms show ?thesis
    by (simp add: consensus_ok_def s Storage_inv_def ids_unused_def fresh_id_def fetch_unspent_treasury_output_def
        fetch_ledger_index_def)
qed

lemma confirm_cone_recorded:
  assumes "confirm_cone d h m ms md c = Inr (md', c')"
    and fine: "\<And>receipt. receipt_of ms = Some receipt \<Longrightarrow> \<forall>f \<in> set (ReceiptPayload_funds receipt). fund_fine f"
  shows "fst ` set (cone_marks md') = insert m (fst ` set (cone_marks md))"
proof -
  let ?md = "md\<lparr>wf_referenced_messages := wf_referenced_messages md + 1,
    wf_excluded_no_transaction_messages := wf_excluded_no_transaction_messages md @ [m]\<rparr>"
  from assms(1) obtain migration mat where
    mig: "migrate d (storage (cw_tangle c)) m ms ?md (cw_receipt_migrated_at c) = Inr (migration, md', mat)"
    by (auto simp: confirm_cone_def Let_def bindR_Inr_iff)
  then have "fst ` set (cone_marks md') = fst ` set (cone_marks ?md)"
  proof (cases rule: migrate_cases)
    case (receipt receipt c m)
    from migrate_funds_Inr [OF receipt(3) _ fine [OF receipt(1)]] show ?thesis by (auto simp: set_cone_marks)
  qed simp
  then show ?thesis by (auto simp: set_cone_marks)
qed

text \<open>The steps of a successful confirmation.\<close>

lemma Tangle_get_cached:
  assumes "tangle_ok t"
  obtains t' where "Tangle_get m t = Some (map_option fst (Tangle_storage_get t m), t')" "cached t t'" "tangle_ok t'"
proof -
  from get_vertex_cached [OF assms] obtain v t' where
    "Tangle_get_vertex m t = Some (v, t')" "cached t t'" "tangle_ok t'"
    "Option.bind v Vertex_message_and_metadata = Tangle_storage_get t m" .
  then show thesis
    by (intro that [of t']) (cases v; simp add: Tangle_get_def Vertex_message_def [abs_def])+
qed

definition confirm_milestone ::
  "deps \<Rightarrow> hash_iter \<Rightarrow> MessageId \<Rightarrow> Message \<Rightarrow> MilestonePayload \<Rightarrow> ConsensusWorker \<Rightarrow> (LedgerError + ConsensusWorker) option" where
  "confirm_milestone d h m msg ms c =
     Option.bind (white_flag_tangle d h (Parents_ids (Message_parents msg))
       (WhiteFlagMetadata_new (MilestonePayloadEssence_index (MilestonePayload_essence ms))) (cw_tangle c)) (\<lambda>r.
     case bindR r (\<lambda>(md, t). confirm_cone d h m ms md (c\<lparr>cw_tangle := t\<rparr>)) of
       Inl e \<Rightarrow> Some (Inl e)
     | Inr (md, c) \<Rightarrow> map_option (\<lambda>t. Inr (c\<lparr>cw_tangle := t\<rparr>)) (mark_cone d ms md (cw_tangle c)))"

lemma confirm_unfold:
  assumes "Tangle_get m (cw_tangle c) = Some (x, t)"
  shows "confirm d h m c =
    (case x of
       None \<Rightarrow> Some (Inl (MilestoneMessageNotFound m))
     | Some msg \<Rightarrow>
         (case milestone_of msg of
            Inl e \<Rightarrow> Some (Inl e)
          | Inr ms \<Rightarrow>
              if milestone_value ms = ledger_value c + 1 then confirm_milestone d h m msg ms (c\<lparr>cw_tangle := t\<rparr>)
              else Some (Inl (NonContiguousMilestones (milestone_value ms) (ledger_value c)))))"
  using assms
  by (auto simp: confirm_def confirm_milestone_def check_contiguous_def Let_def requireR_def MilestoneIndex.expand
      split: option.splits sum.splits)

lemma milestone_of_Inr: "milestone_of msg = Inr ms \<longleftrightarrow> Message_payload msg = Some (Payload_Milestone ms)"
  by (auto simp: milestone_of_def split: option.splits Payload.splits)

lemma confirm_steps:
  assumes ok: "tangle_ok (cw_tangle c)" and run: "confirm d h m c = Some (Inr c')"
  obtains msg meta ms md md' t1 c1 where
    "Tangle_storage_get (cw_tangle c) m = Some (msg, meta)" "Message_payload msg = Some (Payload_Milestone ms)"
    "milestone_value ms = ledger_value c + 1"
    "white_flag d h (tangle_view (cw_tangle c)) (storage (cw_tangle c)) (Parents_ids (Message_parents msg))
       (WhiteFlagMetadata_new (MilestonePayloadEssence_index (MilestonePayload_essence ms))) = Some (Inr md)"
    "cached (cw_tangle c) t1" "tangle_ok t1"
    "confirm_cone d h m ms md (c\<lparr>cw_tangle := t1\<rparr>) = Inr (md', c1)"
    "mark_cone d ms md' (cw_tangle c1) = Some (cw_tangle c')" "c' = c1\<lparr>cw_tangle := cw_tangle c'\<rparr>"
proof -
  let ?S = "Tangle_storage_get (cw_tangle c)"
  from Tangle_get_cached [OF ok] obtain t0 where
    t0: "Tangle_get m (cw_tangle c) = Some (map_option fst (?S m), t0)" "cached (cw_tangle c) t0" "tangle_ok t0" .
  note run = run [unfolded confirm_unfold [OF t0(1)]]
  from run obtain msg meta where m: "?S m = Some (msg, meta)" by (cases "?S m") auto
  with run obtain ms where ms: "Message_payload msg = Some (Payload_Milestone ms)" "milestone_value ms = ledger_value c + 1"
    and run: "confirm_milestone d h m msg ms (c\<lparr>cw_tangle := t0\<rparr>) = Some (Inr c')"
    by (auto simp: milestone_of_Inr split: sum.splits if_splits)
  let ?md = "WhiteFlagMetadata_new (MilestonePayloadEssence_index (MilestonePayload_essence ms))"
    and ?ids = "Parents_ids (Message_parents msg)"
  from run obtain md t1 md' c1 t2 where
    wf: "white_flag_tangle d h ?ids ?md t0 = Some (Inr (md, t1))" and
    cc: "confirm_cone d h m ms md (c\<lparr>cw_tangle := t1\<rparr>) = Inr (md', c1)" and
    mc: "mark_cone d ms md' (cw_tangle c1) = Some t2" "c' = c1\<lparr>cw_tangle := t2\<rparr>"
  proof -
    let ?F = "\<lambda>(md, t). confirm_cone d h m ms md (c\<lparr>cw_tangle := t\<rparr>)"
    from run obtain r where r: "white_flag_tangle d h ?ids ?md t0 = Some r"
      and k: "(case bindR r ?F of Inl e \<Rightarrow> Some (Inl e)
        | Inr (md, c) \<Rightarrow> map_option (\<lambda>t. Inr (c\<lparr>cw_tangle := t\<rparr>)) (mark_cone d ms md (cw_tangle c))) = Some (Inr c')"
      by (auto simp: confirm_milestone_def bind_eq_Some_conv)
    from k obtain md' c1 where x: "bindR r ?F = Inr (md', c1)" by (cases "bindR r ?F") auto
    with r k show thesis by (auto simp: bindR_Inr_iff intro: that)
  qed
  from white_flag_tangle_sound [OF wf t0(3)] obtain r where
    r: "white_flag d h (tangle_view t0) (storage t0) ?ids ?md = Some r" "traversed t0 r (Inr (md, t1))" by blast
  then have t1: "r = Inr md" "cached t0 t1" "tangle_ok t1" by (cases r; simp)+
  show thesis
    by (rule that [OF m ms _ cached_trans [OF t0(2) t1(2)] t1(3) cc])
      (use r(1) t1(1) mc cached_simps [OF t0(2)] in simp_all)
qed

lemma confirm_ok:
  assumes h: "hash_iter_spec h" and ids: "ids_ok d U M" and c: "consensus_ok d U M c"
    and i: "unat (ledger_value c) < 2 ^ 32 - 1" and run: "confirm d h m c = Some (Inr c')"
  shows "consensus_ok d U M c'" and "ledger_value c' = ledger_value c + 1"
proof -
  from c have C: "tangle_ok (cw_tangle c)" "messages_ok d U M (cw_tangle c)" "ledger_ok d U (storage (cw_tangle c))"
    by (simp_all add: consensus_ok_def)
  from confirm_steps [OF C(1) run] obtain msg meta ms md md' t1 c1 where
    m: "Tangle_storage_get (cw_tangle c) m = Some (msg, meta)" "Message_payload msg = Some (Payload_Milestone ms)"
      "milestone_value ms = ledger_value c + 1" and
    wf: "white_flag d h (tangle_view (cw_tangle c)) (storage (cw_tangle c)) (Parents_ids (Message_parents msg))
       (WhiteFlagMetadata_new (MilestonePayloadEssence_index (MilestonePayload_essence ms))) = Some (Inr md)" and
    t1: "cached (cw_tangle c) t1" "tangle_ok t1" and
    cc: "confirm_cone d h m ms md (c\<lparr>cw_tangle := t1\<rparr>) = Inr (md', c1)" and
    mc: "mark_cone d ms md' (cw_tangle c1) = Some (cw_tangle c')" "c' = c1\<lparr>cw_tangle := cw_tangle c'\<rparr>" .
  from C(2) m have v: "Message_valid d msg" "ms \<in> M" by (auto simp: messages_ok_def message_ok_def)
  have fine: "\<forall>f \<in> set (ReceiptPayload_funds receipt). fund_fine f" if "receipt_of ms = Some receipt" for receipt
    by (rule funds_fine_valid [OF v(1) m(2)])
      (use that in \<open>auto simp: receipt_of_def split: option.splits Payload.splits\<close>)
  have "ids_distinct d U {}" using ids by (simp add: ids_ok_def ids_distinct_def)
  note M = white_flag_metadata_ok [OF h C(3) this messages_ok_view [OF C(2)] wf]
  have c1: "consensus_ok d U M (c\<lparr>cw_tangle := t1\<rparr>)"
    by (rule consensus_ok_only_messages [OF c t1(2) cached_only_messages [OF t1(1)]])
      (use C(2) cached_simps(2) [OF t1(1)] in \<open>simp add: messages_ok_def\<close>)
  note cone = confirm_cone_ok [where c = "c\<lparr>cw_tangle := t1\<rparr>", OF h ids c1 v(2) _ white_flag_index [OF h wf] _ _ fine cc]
  have ok: "consensus_ok d U M c1" and iv: "ledger_value c1 = ledger_value c + 1"
    using cone M cached_simps(1) [OF t1(1)] m(3) i by simp_all
  from ok have k: "tangle_ok (cw_tangle c1)" "messages_ok d U M (cw_tangle c1)" by (simp_all add: consensus_ok_def)
  from reference_messages_ok [OF k(1)] mc(1) [unfolded mark_cone_eq] obtain f where
    t': "tangle_ok (cw_tangle c')" "only_messages (cw_tangle c1) (cw_tangle c')"
      "\<And>m. Tangle_storage_get (cw_tangle c') m = map_option (apsnd (f m)) (Tangle_storage_get (cw_tangle c1) m)"
    by (metis option.inject)
  have "messages_ok d U M (cw_tangle c')" using k(2) by (auto simp: messages_ok_def t'(3))
  from consensus_ok_only_messages [OF ok t'(1,2) this] show "consensus_ok d U M c'" by (subst mc(2))
  show "ledger_value c' = ledger_value c + 1" by (subst mc(2)) (simp add: iv)
qed

end
