(* ===== verification/Consensus_Properties.thy ===== *)
theory Consensus_Properties
  imports Consensus_Confirm
begin

text \<open>
  The properties of the confirmation of milestones, and of a node that receives messages and
  confirms milestones for as long as it runs.
\<close>

section \<open>Runs of the node\<close>

text \<open>Any interleaving of received messages, changes of metadata, reads and confirmations.\<close>

inductive node_reach ::
  "deps \<Rightarrow> hash_iter \<Rightarrow> TransactionPayload set \<Rightarrow> MilestonePayload set \<Rightarrow> ConsensusWorker \<Rightarrow> ConsensusWorker \<Rightarrow> bool"
  for d h U M c0 where
  node_start: "node_reach d h U M c0 c0"
| node_receive: "node_reach d h U M c0 c \<Longrightarrow> message_ok d U M msg \<Longrightarrow>
    Tangle_insert msg m meta (cw_tangle c) = Some (r, t) \<Longrightarrow> node_reach d h U M c0 (c\<lparr>cw_tangle := t\<rparr>)"
| node_update: "node_reach d h U M c0 c \<Longrightarrow> Tangle_update_metadata m f (cw_tangle c) = Some t \<Longrightarrow>
    node_reach d h U M c0 (c\<lparr>cw_tangle := t\<rparr>)"
| node_read: "node_reach d h U M c0 c \<Longrightarrow> Tangle_get_vertex m (cw_tangle c) = Some (v, t) \<Longrightarrow>
    node_reach d h U M c0 (c\<lparr>cw_tangle := t\<rparr>)"
| node_confirm: "node_reach d h U M c0 c \<Longrightarrow> unat (ledger_value c) < 2 ^ 32 - 1 \<Longrightarrow>
    confirm d h m c = Some (Inr c') \<Longrightarrow> node_reach d h U M c0 c'"

lemma receive_ok:
  assumes "consensus_ok d U M c" and "message_ok d U M msg" and "Tangle_insert msg m meta (cw_tangle c) = Some (r, t)"
  shows "consensus_ok d U M (c\<lparr>cw_tangle := t\<rparr>)"
proof -
  from assms(1) have ok: "tangle_ok (cw_tangle c)" "messages_ok d U M (cw_tangle c)" by (simp_all add: consensus_ok_def)
  have "tangle_ok t \<and> only_messages (cw_tangle c) t \<and> messages_ok d U M t"
  proof (cases "Tangle_storage_get (cw_tangle c) m")
    case None
    from insert_new [OF ok(1) None, of msg meta] assms(2,3) ok(2) show ?thesis
      by (auto simp: messages_ok_def split: if_splits)
  next
    case (Some x)
    from insert_known [OF ok(1), of m msg meta] Some assms(3) ok(2) only_messages_cache show ?thesis
      by (fastforce simp: messages_ok_def)
  qed
  with consensus_ok_only_messages [OF assms(1)] show ?thesis by blast
qed

lemma update_ok:
  assumes "consensus_ok d U M c" and "Tangle_update_metadata m f (cw_tangle c) = Some t"
  shows "consensus_ok d U M (c\<lparr>cw_tangle := t\<rparr>)"
proof -
  from assms(1) have ok: "tangle_ok (cw_tangle c)" "messages_ok d U M (cw_tangle c)" by (simp_all add: consensus_ok_def)
  from update_metadata_ok [OF ok(1), of m f] assms(2) ok(2)
  have "tangle_ok t \<and> only_messages (cw_tangle c) t \<and> messages_ok d U M t"
    by (auto simp: messages_ok_def split: if_splits)
  with consensus_ok_only_messages [OF assms(1)] show ?thesis by blast
qed

lemma read_ok:
  assumes "consensus_ok d U M c" and "Tangle_get_vertex m (cw_tangle c) = Some (v, t)"
  shows "consensus_ok d U M (c\<lparr>cw_tangle := t\<rparr>)"
proof -
  from assms(1) have ok: "tangle_ok (cw_tangle c)" "messages_ok d U M (cw_tangle c)" by (simp_all add: consensus_ok_def)
  from get_vertex_cached [OF ok(1), of m] assms(2) have t: "cached (cw_tangle c) t" "tangle_ok t" by auto
  then have "messages_ok d U M t" using ok(2) cached_simps(2) [OF t(1)] by (simp add: messages_ok_def)
  with t consensus_ok_only_messages [OF assms(1)] cached_only_messages show ?thesis by blast
qed

lemma node_reach_ok:
  assumes "node_reach d h U M c0 c" and "hash_iter_spec h" and "ids_ok d U M" and "consensus_ok d U M c0"
  shows "consensus_ok d U M c"
  using assms(1)
  by (induction rule: node_reach.induct)
    (auto intro: assms(4) receive_ok update_ok read_ok confirm_ok(1) [OF assms(2,3)])

lemma consensus_ok_validates:
  assumes "hash_iter_spec h" and "consensus_ok d U M c"
  shows "validate_ledger_state h (storage (cw_tangle c)) = Inr ()"
proof -
  have L: "ledger_ok d U (storage (cw_tangle c))" using assms(2) by (simp add: consensus_ok_def)
  then show ?thesis
    using validate_ledger_state_consistent [OF assms(1)] ledger_ok_consistent [OF L] by (simp add: ledger_ok_def)
qed

section \<open>The messages that wait for a confirmation\<close>

lemma confirm_cone_messages:
  assumes "confirm_cone d h m ms md c = Inr (md', c')"
  shows "Tangle_storage_get (cw_tangle c') = Tangle_storage_get (cw_tangle c)" and "tangle_ok (cw_tangle c') = tangle_ok (cw_tangle c)"
proof -
  from assms obtain index created consumed deltas migration mat s' where
    app: "apply_milestone h index created consumed deltas migration (storage (cw_tangle c)) = Inr s'" and
    c': "c' = c\<lparr>cw_tangle := (cw_tangle c)\<lparr>storage := s',
        confirmed_milestone_index := MilestonePayloadEssence_index (MilestonePayload_essence ms)\<rparr>,
      cw_ledger_index := LedgerIndex (MilestonePayloadEssence_index (MilestonePayload_essence ms)),
      cw_receipt_migrated_at := mat\<rparr>"
    by (auto simp: confirm_cone_def Let_def bindR_Inr_iff)
  note k = messages_kept [where t = "cw_tangle c", OF apply_milestone_messages [OF app]]
  show "Tangle_storage_get (cw_tangle c') = Tangle_storage_get (cw_tangle c)" "tangle_ok (cw_tangle c') = tangle_ok (cw_tangle c)"
    unfolding c' using k by simp_all
qed

lemma pending_marked:
  assumes "bitflags_spec d"
    and "\<And>x. Tangle_storage_get t' x = map_option (apsnd (marks d timestamp xs x)) (Tangle_storage_get t x)"
  shows "{x. pending d (tangle_view t') x} = {x. pending d (tangle_view t) x} - fst ` set xs"
proof -
  have "pending d (tangle_view t') x \<longleftrightarrow> pending d (tangle_view t) x \<and> x \<notin> fst ` set xs" for x
  proof (cases "Tangle_storage_get t x")
    case (Some y)
    then obtain msg meta where y: "Tangle_storage_get t x = Some (msg, meta)" by (cases y) auto
    show ?thesis
      using marks_referenced [OF assms(1), of x xs meta timestamp] marks_other [of x xs d timestamp meta]
      by (cases "x \<in> fst ` set xs") (auto simp: pending_def assms(2) y)
  qed (simp add: pending_def assms(2))
  then show ?thesis by blast
qed

lemma confirm_pending:
  assumes h: "hash_iter_spec h" and b: "bitflags_spec d" and c: "consensus_ok d U M c"
    and r: "ranked d (tangle_view (cw_tangle c)) rank" and run: "confirm d h m c = Some (Inr c')"
  obtains msg meta where "Tangle_storage_get (cw_tangle c) m = Some (msg, meta)"
    "\<And>x. x \<in> cones d (tangle_view (cw_tangle c)) (Parents_ids (Message_parents msg)) \<Longrightarrow> known (tangle_view (cw_tangle c)) x"
    "{x. pending d (tangle_view (cw_tangle c')) x} = {x. pending d (tangle_view (cw_tangle c)) x} -
      insert m (cones d (tangle_view (cw_tangle c)) (Parents_ids (Message_parents msg)))"
proof -
  from c have C: "tangle_ok (cw_tangle c)" "messages_ok d U M (cw_tangle c)" by (simp_all add: consensus_ok_def)
  from confirm_steps [OF C(1) run] obtain msg meta ms md md' t1 c1 where
    m: "Tangle_storage_get (cw_tangle c) m = Some (msg, meta)" "Message_payload msg = Some (Payload_Milestone ms)" and
    wf: "white_flag d h (tangle_view (cw_tangle c)) (storage (cw_tangle c)) (Parents_ids (Message_parents msg))
       (WhiteFlagMetadata_new (MilestonePayloadEssence_index (MilestonePayload_essence ms))) = Some (Inr md)" and
    t1: "cached (cw_tangle c) t1" "tangle_ok t1" and
    cc: "confirm_cone d h m ms md (c\<lparr>cw_tangle := t1\<rparr>) = Inr (md', c1)" and
    mc: "mark_cone d ms md' (cw_tangle c1) = Some (cw_tangle c')" .
  from C(2) m have v: "Message_valid d msg" by (auto simp: messages_ok_def message_ok_def)
  have fine: "\<forall>f \<in> set (ReceiptPayload_funds receipt). fund_fine f" if "receipt_of ms = Some receipt" for receipt
    by (rule funds_fine_valid [OF v m(2)])
      (use that in \<open>auto simp: receipt_of_def split: option.splits Payload.splits\<close>)
  note rec = white_flag_recorded [OF h r wf]
  have marked: "fst ` set (cone_marks md') = insert m {x \<in> cones d (tangle_view (cw_tangle c)) (Parents_ids (Message_parents msg)).
      pending d (tangle_view (cw_tangle c)) x}"
    using confirm_cone_recorded [OF cc fine] rec(1) by simp
  have "tangle_ok (cw_tangle c1)" and S: "Tangle_storage_get (cw_tangle c1) = Tangle_storage_get (cw_tangle c)"
    using confirm_cone_messages [OF cc] t1 cached_simps(2) [OF t1(1)] by simp_all
  from reference_messages_ok [OF this(1)] mc [unfolded mark_cone_eq] obtain timestamp where
    "\<And>x. Tangle_storage_get (cw_tangle c') x =
      map_option (apsnd (marks d timestamp (cone_marks md') x)) (Tangle_storage_get (cw_tangle c) x)"
    unfolding S by (metis option.inject)
  from pending_marked [OF b this] marked m(1) rec(2) show thesis by (intro that [of msg meta]) auto
qed

lemma confirm_milestone_returns:
  assumes "tangle_ok (cw_tangle c)" and "ranked d (tangle_view (cw_tangle c)) rank"
  shows "\<exists>r. confirm_milestone d h m msg ms c = Some r"
proof -
  let ?md = "WhiteFlagMetadata_new (MilestonePayloadEssence_index (MilestonePayload_essence ms))"
    and ?ids = "Parents_ids (Message_parents msg)"
  from traverse_ends [OF assms(2)] obtain r where
    "white_flag d h (tangle_view (cw_tangle c)) (storage (cw_tangle c)) ?ids ?md = Some r"
    by (fastforce simp: white_flag_def)
  from white_flag_tangle_complete [OF this assms(1)] obtain r' where
    r': "white_flag_tangle d h ?ids ?md (cw_tangle c) = Some r'" "traversed (cw_tangle c) r r'" by blast
  let ?F = "\<lambda>(md, t). confirm_cone d h m ms md (c\<lparr>cw_tangle := t\<rparr>)"
  show ?thesis
  proof (cases "bindR r' ?F")
    case (Inr x)
    then obtain md t md' c' where x: "r' = Inr (md, t)" "confirm_cone d h m ms md (c\<lparr>cw_tangle := t\<rparr>) = Inr (md', c')"
      by (cases x) (auto simp: bindR_Inr_iff)
    from r'(2) x(1) have "tangle_ok t" by (cases r) auto
    with confirm_cone_messages(2) [OF x(2)] have "tangle_ok (cw_tangle c')" by simp
    from reference_messages_ok [OF this] obtain t' where "mark_cone d ms md' (cw_tangle c') = Some t'"
      unfolding mark_cone_eq by blast
    with r'(1) x show ?thesis by (simp add: confirm_milestone_def)
  qed (simp add: confirm_milestone_def r'(1))
qed

section \<open>A milestone on top of confirmed messages\<close>

definition settled :: "deps \<Rightarrow> Tangle \<Rightarrow> MessageId \<Rightarrow> bool" where
  "settled d t m \<longleftrightarrow> (case Tangle_storage_get t m of
     Some (msg, meta) \<Rightarrow> Flags_is_referenced d (MessageMetadata_flags meta)
   | None \<Rightarrow> Tangle_is_solid_entry_point t m)"

lemma traverse_settled:
  "\<forall>r \<in> set roots. settled d t r \<Longrightarrow> traverse_past_cone d h (tangle_view t) s v roots md = Some (Inr md)"
proof (induction roots arbitrary: v)
  case (Cons r roots)
  then have "settled d t r" "\<And>v. traverse_past_cone d h (tangle_view t) s v roots md = Some (Inr md)" by simp_all
  then show ?case by (subst traverse_past_cone.simps) (auto simp: settled_def split: option.splits)
qed (subst traverse_past_cone.simps, simp)

lemma entries_empty: "keys_of iter \<Longrightarrow> entries iter Map.empty = []"
  unfolding keys_of_def entries_def by (metis dom_empty finite.emptyI list.map_disc_iff set_empty)

lemma confirm_settled:
  assumes h: "hash_iter_spec h" and ok: "tangle_ok (cw_tangle c)"
    and m: "Tangle_storage_get (cw_tangle c) m = Some (msg, meta)" "Message_payload msg = Some (Payload_Milestone ms)"
    and i: "milestone_value ms = ledger_value c + 1" and r: "receipt_of ms = None"
    and p: "\<forall>p \<in> set (Parents_ids (Message_parents msg)). settled d (cw_tangle c) p"
    and root: "MilestonePayloadEssence_merkle_proof (MilestonePayload_essence ms) = MerkleHasher_digest (blake2b256 d) []"
  shows "\<exists>c'. confirm d h m c = Some (Inr c')"
proof -
  let ?md = "WhiteFlagMetadata_new (MilestonePayloadEssence_index (MilestonePayload_essence ms))"
  from Tangle_get_cached [OF ok] obtain t0 where
    t0: "Tangle_get m (cw_tangle c) = Some (map_option fst (Tangle_storage_get (cw_tangle c) m), t0)" "cached (cw_tangle c) t0" "tangle_ok t0" .
  have "settled d t0 p" if "p \<in> set (Parents_ids (Message_parents msg))" for p
    using that p unfolding settled_def cached_simps(2,3) [OF t0(2)] by blast
  then have "white_flag d h (tangle_view t0) (storage t0) (Parents_ids (Message_parents msg)) ?md =
      Some (Inr (with_merkle_proof d ?md))"
    unfolding white_flag_eq [OF h counts_ok_new] by (simp add: traverse_settled)
  from white_flag_tangle_complete [OF this t0(3)] obtain t1 where
    t1: "white_flag_tangle d h (Parents_ids (Message_parents msg)) ?md t0 = Some (Inr (with_merkle_proof d ?md, t1))" "tangle_ok t1"
    by auto
  let ?md1 = "(with_merkle_proof d ?md)\<lparr>wf_referenced_messages := wf_referenced_messages (with_merkle_proof d ?md) + 1,
    wf_excluded_no_transaction_messages := wf_excluded_no_transaction_messages (with_merkle_proof d ?md) @ [m]\<rparr>"
  have mig: "migrate d s m ms md mat = Inr (None, md, mat)" for s md mat
    using r by (auto simp: migrate_def receipt_of_def split: option.splits Payload.splits)
  note none = entries_empty [OF hash_iter_specD(1) [OF h]] entries_empty [OF hash_iter_specD(2) [OF h]]
  obtain s' where s': "apply_milestone h (wf_index ?md) Map.empty Map.empty Map.empty None (storage t1) = Inr s'"
    unfolding apply_milestone_Inr_iff none by simp
  then have cc: "confirm_cone d h m ms (with_merkle_proof d ?md) (c\<lparr>cw_tangle := t1\<rparr>) = Inr (?md1,
      c\<lparr>cw_tangle := t1\<lparr>storage := s', confirmed_milestone_index := MilestonePayloadEssence_index (MilestonePayload_essence ms)\<rparr>,
        cw_ledger_index := LedgerIndex (MilestonePayloadEssence_index (MilestonePayload_essence ms))\<rparr>)"
    by (simp add: confirm_cone_def check_merkle_proof_def with_merkle_proof_def Let_def mig requireR_def root
        WhiteFlagMetadata_new_def BalanceDiffs_new_def)
  have ok': "tangle_ok (t1\<lparr>storage := s', confirmed_milestone_index := i\<rparr>)" for i
    using messages_kept(2) [where t = t1, OF apply_milestone_messages [OF s']] t1(2) by simp
  from reference_messages_ok [OF this] obtain t2 where
    "mark_cone d ms ?md1 (t1\<lparr>storage := s', confirmed_milestone_index := MilestonePayloadEssence_index (MilestonePayload_essence ms)\<rparr>) = Some t2"
    unfolding mark_cone_eq by blast
  then show ?thesis
    unfolding confirm_unfold [OF t0(1)] using m i t1 cc by (simp add: milestone_of_def confirm_milestone_def)
qed

section \<open>A concrete node\<close>

text \<open>The whole supply is in the treasury, and the first milestone has arrived.\<close>

definition sample_milestone :: MilestonePayload where
  "sample_milestone = MilestonePayload (MilestonePayloadEssence (MilestoneIndex 1) 1000
     (Parents [MessageId (replicate 32 7)]) (replicate 32 0) 0 0 [replicate 32 0] None) [replicate 64 0]"

definition sample_treasury :: LedgerTreasuryOutput where
  "sample_treasury = LedgerTreasuryOutput_new \<lparr>TreasuryOutput_amount = IOTA_SUPPLY\<rparr> (MilestoneId (replicate 32 1))"

definition sample_store :: InnerStorage where
  "sample_store = Storage_new
     \<lparr>message_id_to_message := [mid 9 \<mapsto> sample_message (Some (Payload_Milestone sample_milestone))],
      message_id_to_metadata := [mid 9 \<mapsto> MessageMetadata_default],
      message_id_to_message_id := [MessageId (replicate 32 7) \<mapsto> [mid 9]],
      spent_to_treasury_output := [False \<mapsto> [sample_treasury]],
      ledger_index := Some (LedgerIndex (MilestoneIndex 0))\<rparr>"

definition sample_node :: ConsensusWorker where
  "sample_node =
     \<lparr>cw_tangle = (Tangle_new (\<lambda>m. 0) (sorted_keys id id) (\<lambda>n. (n, True))
        \<lparr>below_max_depth = 15, num_partitions = 2, max_eviction_retries = 3\<rparr> sample_store)
        \<lparr>solid_entry_points := [SolidEntryPoint (MessageId (replicate 32 7)) \<mapsto> MilestoneIndex 0]\<rparr>,
      cw_ledger_index = LedgerIndex (MilestoneIndex 0), cw_receipt_migrated_at = MilestoneIndex 0\<rparr>"

lemma tangle_ok_seps [simp]: "tangle_ok (t\<lparr>solid_entry_points := seps\<rparr>) = tangle_ok t"
  by (simp add: tangle_ok_def approvers_ok_def Tangle_storage_get_def [abs_def] cong: option.case_cong)

lemma sample_milestone_valid: "message_ok sample_deps {} {sample_milestone} (sample_message (Some (Payload_Milestone sample_milestone)))"
  using sample_parents_valid
  by (simp add: message_ok_def sample_message_def Message_valid_def Message_parts_valid_def option_payload_ok_def
      Payload_valid_unfold [of _ "Payload_Milestone _"] MilestonePayload_valid_def MilestonePayloadEssence_valid_def
      sample_milestone_def MILESTONE_MERKLE_PROOF_LENGTH_def MILESTONE_PUBLIC_KEY_LENGTH_def
      MILESTONE_SIGNATURE_LENGTH_def MILESTONE_SIGNATURE_COUNT_RANGE_def MILESTONE_PUBLIC_KEY_COUNT_RANGE_def
      MilestonePayloadEssence_wf_def Message_packed_len_eq payload_len_of_def
      MilestoneIndex_packed_len_def Parents_packed_len_def Parents_len_def MESSAGE_ID_LENGTH_def
      option_payload_packed_len_def MESSAGE_LENGTH_MAX_def) (simp add: sample_deps_def)

lemma sample_node_simps [simp]:
  "storage (cw_tangle sample_node) = sample_store" "ledger_value sample_node = 0"
  "cw_ledger_index sample_node = LedgerIndex (MilestoneIndex 0)"
  by (simp_all add: sample_node_def Tangle_new_def)

lemma sample_node_storage [simp]: "Tangle_storage_get (cw_tangle sample_node) =
  [mid 9 \<mapsto> (sample_message (Some (Payload_Milestone sample_milestone)), MessageMetadata_default)]"
  by (rule ext) (simp add: Tangle_storage_get_def sample_store_def Table_fetch_def)

lemma sample_tangle_of_node_ok: "tangle_ok (cw_tangle sample_node)"
proof -
  let ?t = "Tangle_new (\<lambda>m. 0) (sorted_keys id id) (\<lambda>n. (n, True))
    \<lparr>below_max_depth = 15, num_partitions = 2, max_eviction_retries = 3\<rparr> sample_store"
  have "Tangle_storage_get ?t = Tangle_storage_get (cw_tangle sample_node)"
    by (rule ext) (simp add: Tangle_storage_get_def sample_node_def Tangle_new_def cong: option.case_cong)
  then have "approvers_ok ?t"
    by (auto simp: approvers_ok_def Tangle_new_def sample_message_def approvers_def VecBinTable_fetch_def sample_store_def
        VecBinTable_inv_def or_empty_def)
  then have "tangle_ok ?t" by (intro tangle_ok_new [OF keys_of_sorted_keys]) simp_all
  then show ?thesis by (simp add: sample_node_def)
qed

lemma sample_store_ledger: "ledger_ok d {} sample_store" "fetch_unspent_treasury_output sample_store = Inr sample_treasury"
proof -
  show t: "fetch_unspent_treasury_output sample_store = Inr sample_treasury"
    by (simp add: fetch_unspent_treasury_output_def VecTable_fetch_def sample_store_def)
  have u: "unspent_ids sample_store = {}"
    by (simp add: unspent_ids_def is_output_unspent_def sample_store_def Storage_new_def Table_exist_def)
  have b: "fetch_balance_or_default sample_store a = Balance_default" "address_to_balance sample_store = Map.empty" for a
    by (simp_all add: fetch_balance_or_default_def fetch_balance_def sample_store_def Storage_new_def Table_fetch_def)
  have "balance_coord c Balance_default = 0" for c by (cases c) (simp_all add: Balance_default_def)
  then show "ledger_ok d {} sample_store"
    by (simp add: ledger_ok_def u b balances_of_outputs_def utxos_def treasury_amount_def t inputs_spent_def
        sample_treasury_def LedgerTreasuryOutput_new_def)
qed

lemma sample_node_ok: "consensus_ok sample_deps {} {sample_milestone} sample_node"
proof -
  have "messages_ok sample_deps {} {sample_milestone} (cw_tangle sample_node)"
    using sample_milestone_valid by (simp add: messages_ok_def)
  moreover have "Storage_inv sample_store"
    by (simp add: sample_store_def Storage_inv_def Storage_new_def VecBinTable_inv_def VecTable_inv_def)
  moreover have "ids_unused sample_deps {sample_milestone} sample_store 0"
    by (simp add: ids_unused_def fresh_id_def sample_store_ledger(2) sample_treasury_def LedgerTreasuryOutput_new_def
        MilestonePayload_id_def MilestoneId_new_def sample_deps_def) (simp add: sample_store_def Storage_new_def)
  moreover have "fetch_ledger_index sample_store = Some (LedgerIndex (MilestoneIndex 0))"
    by (simp add: fetch_ledger_index_def SingletonTable_fetch_def sample_store_def)
  ultimately show ?thesis
    using sample_tangle_of_node_ok sample_store_ledger(1) by (simp add: consensus_ok_def)
qed

lemma sample_ids_ok: "ids_ok sample_deps {} {sample_milestone}"
  by (simp add: ids_ok_def)

lemma sample_confirm: "\<exists>c'. confirm sample_deps sorted_iter (mid 9) sample_node = Some (Inr c')"
proof (rule confirm_settled [where ms = sample_milestone, OF hash_iter_spec_sorted sample_tangle_of_node_ok])
  show "\<forall>p \<in> set (Parents_ids (Message_parents (sample_message (Some (Payload_Milestone sample_milestone))))).
      settled sample_deps (cw_tangle sample_node) p"
    by (simp add: sample_message_def settled_def mid_def)
      (simp add: sample_node_def Tangle_is_solid_entry_point_def)
qed (simp_all add: sample_message_def sample_milestone_def receipt_of_def MerkleHasher_digest_simps(1) sample_deps_def)

section \<open>Properties\<close>

text \<open>C1. A running node never loses or creates tokens: however received messages, metadata updates, reads
  and confirmed milestones with or without receipts are interleaved, the check of the ledger that runs
  at start-up passes in every state reached, and the stored ledger index is that of the worker. The
  node starts in a sound state, and no two transactions or milestones share an identifier.\<close>

theorem ledger_stays_consistent:
  assumes "hash_iter_spec h" and "ids_ok d U M" and "consensus_ok d U M c0" and "node_reach d h U M c0 c"
  shows "validate_ledger_state h (storage (cw_tangle c)) = Inr () \<and>
    fetch_ledger_index (storage (cw_tangle c)) = Some (cw_ledger_index c)"
  using consensus_ok_validates [OF assms(1)] node_reach_ok [OF assms(4,1,2,3)]
  by (auto simp: consensus_ok_def)

theorem ledger_stays_consistent_witness:
  "\<exists>c. confirm sample_deps sorted_iter (mid 9) sample_node = Some (Inr c) \<and>
     validate_ledger_state sorted_iter (storage (cw_tangle c)) = Inr ()"
proof -
  from sample_confirm obtain c where c: "confirm sample_deps sorted_iter (mid 9) sample_node = Some (Inr c)" by blast
  then have "node_reach sample_deps sorted_iter {} {sample_milestone} sample_node c"
    by (intro node_confirm [OF node_start]) simp_all
  with ledger_stays_consistent [OF hash_iter_spec_sorted sample_ids_ok sample_node_ok this] c show ?thesis by blast
qed




lemma sample_node_ranked: "ranked sample_deps (tangle_view (cw_tangle sample_node)) (\<lambda>m. of_bool (m = mid 9))"
  by (auto simp: ranked_def parents_of_def pending_def sample_message_def mid_def split: if_splits)


text \<open>C7. A confirmation always comes to an end: on a tangle whose unconfirmed messages have a rank that is
  smaller for their parents, confirming any message returns, with an error or with the new state,
  whatever the cache holds and evicts.\<close>

theorem confirm_returns:
  assumes "tangle_ok (cw_tangle c)" and "ranked d (tangle_view (cw_tangle c)) rank"
  shows "\<exists>r. confirm d h m c = Some r"
proof -
  from Tangle_get_cached [OF assms(1)] obtain t0 where
    t0: "Tangle_get m (cw_tangle c) = Some (map_option fst (Tangle_storage_get (cw_tangle c) m), t0)" "cached (cw_tangle c) t0" "tangle_ok t0" .
  have "\<exists>r. confirm_milestone d h m msg ms (c\<lparr>cw_tangle := t0\<rparr>) = Some r" for msg ms
    using confirm_milestone_returns [of "c\<lparr>cw_tangle := t0\<rparr>"] t0(3) assms(2) cached_simps(4) [OF t0(2)] by simp
  then show ?thesis unfolding confirm_unfold [OF t0(1)] by (auto split: option.splits sum.splits)
qed

theorem confirm_returns_witness: "\<exists>r. confirm sample_deps sorted_iter (mid 3) sample_node = Some r"
  using confirm_returns [OF sample_tangle_of_node_ok sample_node_ranked] .

text \<open>C8. What is no next milestone is refused: a message the node does not have, a message without a
  milestone, and a milestone whose index does not follow that of the ledger are reported as such.\<close>

theorem confirm_refuses:
  assumes "tangle_ok (cw_tangle c)"
  shows "case Tangle_storage_get (cw_tangle c) m of
      None \<Rightarrow> confirm d h m c = Some (Inl (MilestoneMessageNotFound m))
    | Some (msg, meta) \<Rightarrow>
        (case Message_payload msg of
           Some (Payload_Milestone ms) \<Rightarrow> milestone_value ms \<noteq> ledger_value c + 1 \<longrightarrow>
             confirm d h m c = Some (Inl (NonContiguousMilestones (milestone_value ms) (ledger_value c)))
         | _ \<Rightarrow> confirm d h m c = Some (Inl NoMilestonePayload))"
proof -
  from Tangle_get_cached [OF assms] obtain t0 where
    t0: "Tangle_get m (cw_tangle c) = Some (map_option fst (Tangle_storage_get (cw_tangle c) m), t0)" by blast
  show ?thesis
    unfolding confirm_unfold [OF t0] by (auto simp: milestone_of_def split: option.splits Payload.splits)
qed

theorem confirm_refuses_witness:
  "confirm sample_deps sorted_iter (mid 3) sample_node = Some (Inl (MilestoneMessageNotFound (mid 3))) \<and>
   confirm sample_deps sorted_iter (mid 9) (sample_node\<lparr>cw_ledger_index := LedgerIndex (MilestoneIndex 4)\<rparr>) =
     Some (Inl (NonContiguousMilestones 1 4))"
  using confirm_refuses [where m = "mid 3" and d = sample_deps and h = sorted_iter, OF sample_tangle_of_node_ok]
    confirm_refuses [where c = "sample_node\<lparr>cw_ledger_index := LedgerIndex (MilestoneIndex 4)\<rparr>" and m = "mid 9"
      and d = sample_deps and h = sorted_iter]
    sample_tangle_of_node_ok
  by (simp add: sample_message_def) (simp add: sample_milestone_def)

text \<open>C9. The White Flag computation on the tangle is that of the stored messages: in every state of the
  cache, and although it fills and evicts it on the way, it gives the metadata or the error that the
  computation over the storage gives, and returns whenever that one does.\<close>

theorem white_flag_refines_storage:
  assumes "tangle_ok t"
  shows "map_option (map_sum (\<lambda>e. e) fst) (white_flag_tangle d h ms md t) =
    white_flag d h (tangle_view t) (storage t) ms md"
proof (cases "white_flag_tangle d h ms md t")
  case None
  then show ?thesis
    using white_flag_tangle_complete [OF _ assms, of d h ms md] by (cases "white_flag d h (tangle_view t) (storage t) ms md") auto
next
  case (Some r')
  from white_flag_tangle_sound [OF this assms] obtain r where
    "white_flag d h (tangle_view t) (storage t) ms md = Some r" "traversed t r r'" by blast
  with Some show ?thesis by (cases r) auto
qed

theorem white_flag_refines_storage_witness:
  "map_option (map_sum (\<lambda>e. e) fst) (white_flag_tangle sample_deps sorted_iter [mid 9]
     (WhiteFlagMetadata_new (MilestoneIndex 1)) (cw_tangle sample_node)) =
   white_flag sample_deps sorted_iter (tangle_view (cw_tangle sample_node)) (storage (cw_tangle sample_node)) [mid 9]
     (WhiteFlagMetadata_new (MilestoneIndex 1))"
  using white_flag_refines_storage [OF sample_tangle_of_node_ok] .

end
