(* ===== verification/Pruning.thy ===== *)
theory Pruning
  imports Consensus Snapshot_Types
begin

text \<open>
  Pruning (workers/pruning and the snapshot condition of bee-ledger): when to prune and to take a
  snapshot, what a pruned milestone removes from the storage, and which messages become solid entry
  points in its place.

  Metrics, timings and log lines are left out. \<open>None\<close> is a panic or a loop that does not end; the
  backend is the in-memory storage, whose operations do not fail. The iteration order of the map of
  solid entry points and the system time are parameters.
\<close>

section \<open>Configuration and conditions\<close>

record PruningConfig =
  pruning_enabled :: bool
  pruning_delay :: u32
  prune_receipts_enabled :: bool

record PruningConfigBuilder =
  builder_enabled :: "bool option"
  builder_delay :: "u32 option"
  builder_prune_receipts :: "bool option"

definition PruningConfigBuilder_finish :: "PruningConfigBuilder \<Rightarrow> PruningConfig" where
  "PruningConfigBuilder_finish self =
     \<lparr>pruning_enabled = unwrap_or True (builder_enabled self),
      pruning_delay = unwrap_or 60480 (builder_delay self),
      prune_receipts_enabled = unwrap_or False (builder_prune_receipts self)\<rparr>"

record SnapshotConfig =
  snapshot_depth :: u32
  interval_synced :: u32
  interval_unsynced :: u32

definition EXTRA_SNAPSHOT_DEPTH :: u32 where
  "EXTRA_SNAPSHOT_DEPTH = 5"

definition EXTRA_PRUNING_DEPTH :: u32 where
  "EXTRA_PRUNING_DEPTH = 5"

text \<open>The depth and the delay the consensus worker starts with.\<close>

definition effective_snapshot_depth :: "u32 \<Rightarrow> SnapshotConfig \<Rightarrow> u32" where
  "effective_snapshot_depth bmd snapshot_config =
     (let snapshot_depth_min = bmd + EXTRA_SNAPSHOT_DEPTH in
      if snapshot_depth snapshot_config < snapshot_depth_min then snapshot_depth_min
      else snapshot_depth snapshot_config)"

definition effective_pruning_delay :: "u32 \<Rightarrow> u32 \<Rightarrow> PruningConfig \<Rightarrow> u32" where
  "effective_pruning_delay bmd depth pruning_config =
     (let snapshot_pruning_delta = bmd + EXTRA_PRUNING_DEPTH;
          pruning_delay_min = depth + snapshot_pruning_delta in
      if pruning_delay pruning_config < pruning_delay_min then pruning_delay_min
      else pruning_delay pruning_config)"

definition PRUNING_BATCH_SIZE_MAX :: u32 where
  "PRUNING_BATCH_SIZE_MAX = 200"

datatype PruningSkipReason = Disabled | BelowThreshold u32

definition should_prune ::
  "Tangle \<Rightarrow> LedgerIndex \<Rightarrow> u32 \<Rightarrow> PruningConfig \<Rightarrow> PruningSkipReason + MilestoneIndex \<times> MilestoneIndex" where
  "should_prune tangle index delay pruning_config =
     (if \<not> pruning_enabled pruning_config then Inl Disabled
      else
        let next_index = MilestoneIndex_value (pruning_index tangle) + 1;
            pruning_threshold = next_index + delay;
            index = MilestoneIndex_value (LedgerIndex_index index)
        in
        if index < pruning_threshold then Inl (BelowThreshold (pruning_threshold - index))
        else
          let target_pruning_index = index - delay in
          Inr (MilestoneIndex next_index,
            if target_pruning_index > next_index + PRUNING_BATCH_SIZE_MAX
            then MilestoneIndex (next_index + PRUNING_BATCH_SIZE_MAX)
            else MilestoneIndex target_pruning_index))"

datatype SnapshottingSkipReason = Snapshot_BelowThreshold u32 | Deferred u32

definition should_snapshot ::
  "Tangle \<Rightarrow> LedgerIndex \<Rightarrow> u32 \<Rightarrow> SnapshotConfig \<Rightarrow> SnapshottingSkipReason + unit" where
  "should_snapshot tangle index depth snapshot_config =
     (let snapshot_index = MilestoneIndex_value (snapshot_index tangle);
          snapshot_interval = (if Tangle_is_synced tangle then interval_synced snapshot_config
            else interval_unsynced snapshot_config);
          index = MilestoneIndex_value (LedgerIndex_index index)
      in
      if index < depth then Inl (Snapshot_BelowThreshold (depth - index))
      else if index < snapshot_index + snapshot_interval
      then Inl (Deferred ((snapshot_index + snapshot_interval) - index))
      else Inr ())"

section \<open>Deletions\<close>

datatype PruningError =
    InvalidTargetIndex MilestoneIndex MilestoneIndex
  | MissingSnapshotInfo
  | Pruning_MissingMilestone MilestoneIndex
  | Pruning_MissingMessage MessageId
  | Pruning_MissingMetadata MessageId
  | Pruning_MissingApprovers MessageId

type_synonym Seps = "SolidEntryPoint \<rightharpoonup> MilestoneIndex"

type_synonym ApproverCache = "MessageId \<rightharpoonup> MilestoneIndex"

definition unwrap_indexation :: "Payload option \<Rightarrow> IndexationPayload option" where
  "unwrap_indexation payload =
     (case payload of
        Some (Payload_Indexation indexation) \<Rightarrow> Some indexation
      | Some (Payload_Transaction transaction) \<Rightarrow>
          (case TransactionPayload_essence transaction of Essence_Regular essence \<Rightarrow>
             (case RegularEssence_payload essence of
                Some (Payload_Indexation indexation) \<Rightarrow> Some indexation
              | _ \<Rightarrow> None))
      | _ \<Rightarrow> None)"

definition prune_message_and_metadata :: "MessageId \<Rightarrow> StorageBatch \<Rightarrow> StorageBatch" where
  "prune_message_and_metadata message_id batch =
     batch\<lparr>b_message_id_to_message := TableBatch_delete message_id (b_message_id_to_message batch),
       b_message_id_to_metadata := TableBatch_delete message_id (b_message_id_to_metadata batch)\<rparr>"

definition prune_edge :: "MessageId \<times> MessageId \<Rightarrow> StorageBatch \<Rightarrow> StorageBatch" where
  "prune_edge edge batch =
     batch\<lparr>b_message_id_to_message_id := TableBatch_delete edge (b_message_id_to_message_id batch)\<rparr>"

definition prune_indexation_data :: "PaddedIndex \<times> MessageId \<Rightarrow> StorageBatch \<Rightarrow> StorageBatch" where
  "prune_indexation_data index_message_id batch =
     batch\<lparr>b_index_to_message_id := TableBatch_delete index_message_id (b_index_to_message_id batch)\<rparr>"

definition prune_indexation :: "MessageId \<Rightarrow> Message \<Rightarrow> StorageBatch \<Rightarrow> StorageBatch option" where
  "prune_indexation message_id msg batch =
     (case unwrap_indexation (Message_payload msg) of
        Some indexation \<Rightarrow>
          map_option (\<lambda>padded_index. prune_indexation_data (padded_index, message_id) batch)
            (IndexationPayload_padded_index indexation)
      | None \<Rightarrow> Some batch)"

definition prune_edges :: "MessageId \<Rightarrow> Message \<Rightarrow> StorageBatch \<Rightarrow> StorageBatch" where
  "prune_edges message_id msg batch =
     fold (\<lambda>parent_id. prune_edge (parent_id, message_id)) (Parents_ids (Message_parents msg)) batch"

section \<open>Confirmed messages\<close>

text \<open>The greatest confirming index of the approvers, with a cache of the indices already read.\<close>

fun max_conf_index ::
  "InnerStorage \<Rightarrow> u32 \<Rightarrow> MilestoneIndex \<Rightarrow> MessageId list \<Rightarrow> ApproverCache \<Rightarrow> u32 \<Rightarrow>
   PruningError + ApproverCache \<times> u32" where
  "max_conf_index s mitigation_threshold prune_index [] approver_cache max_index = Inr (approver_cache, max_index)"
| "max_conf_index s mitigation_threshold prune_index (unvisited_id # ids) approver_cache max_index =
     (case approver_cache unvisited_id of
        Some conf_index \<Rightarrow>
          max_conf_index s mitigation_threshold prune_index ids approver_cache
            (max max_index (MilestoneIndex_value conf_index))
      | None \<Rightarrow>
          (case Table_fetch (message_id_to_metadata s) unvisited_id of
             None \<Rightarrow> Inl (Pruning_MissingMetadata unvisited_id)
           | Some unvisited_md \<Rightarrow>
               (let conf_index = unwrap_or (MilestoneIndex_add prune_index (MilestoneIndex mitigation_threshold))
                      (MessageMetadata_milestone_index unvisited_md) in
                max_conf_index s mitigation_threshold prune_index ids (approver_cache(unvisited_id \<mapsto> conf_index))
                  (max max_index (MilestoneIndex_value conf_index)))))"

definition keep_as_sep ::
  "InnerStorage \<Rightarrow> u32 \<Rightarrow> MilestoneIndex \<Rightarrow> MessageId \<Rightarrow> MessageId set \<Rightarrow> ApproverCache \<Rightarrow> Seps \<Rightarrow>
   PruningError + ApproverCache \<times> Seps" where
  "keep_as_sep s mitigation_threshold prune_index message_id visited approver_cache new_seps =
     (case VecBinTable_fetch (message_id_to_message_id s) message_id of
        None \<Rightarrow> Inl (Pruning_MissingApprovers message_id)
      | Some approvers \<Rightarrow>
          (let unvisited_approvers = filter (\<lambda>m. m \<notin> visited) approvers in
           if unvisited_approvers = [] then Inr (approver_cache, new_seps)
           else bindR (max_conf_index s mitigation_threshold prune_index unvisited_approvers approver_cache
               (MilestoneIndex_value prune_index)) (\<lambda>(approver_cache, max_index).
             Inr (approver_cache,
               if max_index > MilestoneIndex_value prune_index
               then new_seps(SolidEntryPoint message_id \<mapsto> MilestoneIndex max_index) else new_seps))))"

partial_function (option) prune_cone ::
  "InnerStorage \<Rightarrow> u32 \<Rightarrow> MilestoneIndex \<Rightarrow> Seps \<Rightarrow> MessageId set \<Rightarrow> ApproverCache \<Rightarrow> Seps \<Rightarrow> MessageId list \<Rightarrow>
   StorageBatch \<Rightarrow> (PruningError + Seps \<times> StorageBatch) option" where
  "prune_cone s mitigation_threshold prune_index current_seps visited approver_cache new_seps to_visit batch =
     (case to_visit of
        [] \<Rightarrow> Some (Inr (new_seps, batch))
      | message_id # to_visit \<Rightarrow>
          if message_id \<in> visited \<or> current_seps (SolidEntryPoint message_id) \<noteq> None
          then prune_cone s mitigation_threshold prune_index current_seps visited approver_cache new_seps to_visit batch
          else
            (case Table_fetch (message_id_to_message s) message_id of
               None \<Rightarrow> Some (Inl (Pruning_MissingMessage message_id))
             | Some msg \<Rightarrow>
                 Option.bind (prune_indexation message_id msg batch) (\<lambda>batch.
                 let batch = prune_message_and_metadata message_id (prune_edges message_id msg batch);
                     to_visit = to_visit @ Parents_ids (Message_parents msg);
                     visited = insert message_id visited
                 in
                 case keep_as_sep s mitigation_threshold prune_index message_id visited approver_cache new_seps of
                   Inl e \<Rightarrow> Some (Inl e)
                 | Inr (approver_cache, new_seps) \<Rightarrow>
                     prune_cone s mitigation_threshold prune_index current_seps visited approver_cache new_seps
                       to_visit batch)))"

definition prune_confirmed_data ::
  "Tangle \<Rightarrow> StorageBatch \<Rightarrow> MilestoneIndex \<Rightarrow> Seps \<Rightarrow> (PruningError + Seps \<times> StorageBatch) option" where
  "prune_confirmed_data tangle batch prune_index current_seps =
     (let s = storage tangle;
          mitigation_threshold = below_max_depth (config tangle) + EXTRA_PRUNING_DEPTH in
      case Table_fetch (milestone_index_to_milestone s) prune_index of
        None \<Rightarrow> Some (Inl (Pruning_MissingMilestone prune_index))
      | Some milestone \<Rightarrow>
          prune_cone s mitigation_threshold prune_index current_seps {} Map.empty Map.empty
            [Milestone_message_id milestone] batch)"

section \<open>Unconfirmed messages\<close>

definition is_referenced_message :: "deps \<Rightarrow> InnerStorage \<Rightarrow> MessageId \<Rightarrow> bool" where
  "is_referenced_message d s m =
     (case Table_fetch (message_id_to_metadata s) m of
        Some md \<Rightarrow> Flags_is_referenced d (MessageMetadata_flags md)
      | None \<Rightarrow> False)"

fun prune_unconfirmed ::
  "deps \<Rightarrow> InnerStorage \<Rightarrow> MilestoneIndex \<Rightarrow> UnreferencedMessage list \<Rightarrow> StorageBatch \<Rightarrow>
   (PruningError + StorageBatch) option" where
  "prune_unconfirmed d s prune_index [] batch = Some (Inr batch)"
| "prune_unconfirmed d s prune_index (unconf_msg # unconf_msgs) batch =
     (let unconf_msg_id = UnreferencedMessage_message_id unconf_msg in
      case Table_fetch (message_id_to_metadata s) unconf_msg_id of
        None \<Rightarrow> prune_unconfirmed d s prune_index unconf_msgs batch
      | Some msg_meta \<Rightarrow>
          if Flags_is_referenced d (MessageMetadata_flags msg_meta)
          then prune_unconfirmed d s prune_index unconf_msgs batch
          else
            (case VecBinTable_fetch (message_id_to_message_id s) unconf_msg_id of
               None \<Rightarrow> Some (Inl (Pruning_MissingApprovers unconf_msg_id))
             | Some unconf_approvers \<Rightarrow>
                 if list_ex (is_referenced_message d s) unconf_approvers
                 then prune_unconfirmed d s prune_index unconf_msgs batch
                 else
                   (case Table_fetch (message_id_to_message s) unconf_msg_id of
                      None \<Rightarrow> prune_unconfirmed d s prune_index unconf_msgs batch
                    | Some msg \<Rightarrow>
                        Option.bind (prune_indexation unconf_msg_id msg
                          (prune_message_and_metadata unconf_msg_id batch)) (\<lambda>batch.
                        let batch = prune_edges unconf_msg_id msg batch in
                        prune_unconfirmed d s prune_index unconf_msgs
                          (batch\<lparr>b_milestone_index_to_unreferenced_message :=
                             TableBatch_delete (prune_index, unconf_msg)
                               (b_milestone_index_to_unreferenced_message batch)\<rparr>)))))"

definition prune_unconfirmed_data ::
  "deps \<Rightarrow> InnerStorage \<Rightarrow> StorageBatch \<Rightarrow> MilestoneIndex \<Rightarrow> (PruningError + StorageBatch) option" where
  "prune_unconfirmed_data d s batch prune_index =
     prune_unconfirmed d s prune_index
       (or_empty (VecTable_fetch (milestone_index_to_unreferenced_message s) prune_index)) batch"

section \<open>Milestone data\<close>

definition prune_milestone :: "MilestoneIndex \<Rightarrow> StorageBatch \<Rightarrow> StorageBatch" where
  "prune_milestone index batch =
     batch\<lparr>b_milestone_index_to_milestone := TableBatch_delete index (b_milestone_index_to_milestone batch)\<rparr>"

definition prune_consumed_output :: "OutputId \<Rightarrow> StorageBatch \<Rightarrow> StorageBatch" where
  "prune_consumed_output consumed_output batch =
     batch\<lparr>b_output_id_to_consumed_output := TableBatch_delete consumed_output (b_output_id_to_consumed_output batch),
       b_output_id_to_created_output := TableBatch_delete consumed_output (b_output_id_to_created_output batch)\<rparr>"

definition prune_output_diff :: "InnerStorage \<Rightarrow> MilestoneIndex \<Rightarrow> StorageBatch \<Rightarrow> StorageBatch" where
  "prune_output_diff s index batch =
     (let batch = (case Table_fetch (milestone_index_to_output_diff s) index of
          Some output_diff \<Rightarrow> fold prune_consumed_output (OutputDiff_consumed_outputs output_diff) batch
        | None \<Rightarrow> batch)
      in batch\<lparr>b_milestone_index_to_output_diff :=
           TableBatch_delete index (b_milestone_index_to_output_diff batch)\<rparr>)"

definition prune_receipts :: "InnerStorage \<Rightarrow> MilestoneIndex \<Rightarrow> StorageBatch \<Rightarrow> StorageBatch option" where
  "prune_receipts s index batch =
     map_option (\<lambda>receipts. fold (\<lambda>receipt batch. batch\<lparr>b_milestone_index_to_receipt :=
         TableBatch_delete (index, receipt) (b_milestone_index_to_receipt batch)\<rparr>) receipts batch)
       (VecTable_fetch (milestone_index_to_receipt s) index)"

definition prune_milestone_data ::
  "InnerStorage \<Rightarrow> StorageBatch \<Rightarrow> MilestoneIndex \<Rightarrow> bool \<Rightarrow> StorageBatch option" where
  "prune_milestone_data s batch prune_index should_prune_receipts =
     (let batch = prune_output_diff s prune_index (prune_milestone prune_index batch) in
      if should_prune_receipts then prune_receipts s prune_index batch else Some batch)"

section \<open>Pruning milestones\<close>

definition KEEP_INITIAL_SNAPSHOT_SEPS :: nat where
  "KEEP_INITIAL_SNAPSHOT_SEPS = 50"

text \<open>The tangle and the number of prunings so far, a static counter of the source.\<close>

record Pruner =
  pr_tangle :: Tangle
  pr_num_prunings :: nat

definition retain_seps :: "nat \<Rightarrow> MilestoneIndex \<Rightarrow> Seps \<Rightarrow> Seps" where
  "retain_seps num_prunings index curr_seps =
     (if num_prunings \<ge> KEEP_INITIAL_SNAPSHOT_SEPS
      then (\<lambda>sep. case curr_seps sep of
         Some v \<Rightarrow> if MilestoneIndex_value v > MilestoneIndex_value index then Some v else None
       | None \<Rightarrow> None)
      else curr_seps)"

definition insert_seps_batch :: "(SolidEntryPoint \<times> MilestoneIndex) list \<Rightarrow> StorageBatch \<Rightarrow> StorageBatch" where
  "insert_seps_batch seps batch =
     fold (\<lambda>(sep, index) batch. batch\<lparr>b_solid_entry_point_to_milestone_index :=
       TableBatch_insert sep index (b_solid_entry_point_to_milestone_index batch)\<rparr>) seps batch"

definition update_pruning_info :: "u64 \<Rightarrow> MilestoneIndex \<Rightarrow> Tangle \<Rightarrow> (PruningError + unit) \<times> Tangle" where
  "update_pruning_info now index tangle =
     (let tangle = tangle\<lparr>pruning_index := index\<rparr> in
      case fetch_snapshot_info (storage tangle) of
        None \<Rightarrow> (Inl MissingSnapshotInfo, tangle)
      | Some info \<Rightarrow>
          (Inr (), tangle\<lparr>storage := insert_snapshot_info
            (info\<lparr>SnapshotInfo_pruning_index := index, SnapshotInfo_timestamp := now\<rparr>) (storage tangle)\<rparr>))"

definition commit_pruning :: "StorageBatch \<Rightarrow> Tangle \<Rightarrow> Tangle" where
  "commit_pruning batch tangle =
     tangle\<lparr>storage := batch_commit batch
       (solid_entry_point_to_milestone_index_update Table_truncate (storage tangle))\<rparr>"

definition prune_index_step ::
  "deps \<Rightarrow> (Seps \<Rightarrow> SolidEntryPoint list) \<Rightarrow> u64 \<Rightarrow> PruningConfig \<Rightarrow> MilestoneIndex \<Rightarrow> Pruner \<Rightarrow>
   ((PruningError + unit) \<times> Pruner) option" where
  "prune_index_step d iter now pruning_config index self =
     (let tangle = pr_tangle self; s = storage tangle; curr_seps = solid_entry_points tangle in
      Option.bind (prune_confirmed_data tangle batch_begin index curr_seps) (\<lambda>r.
      case r of
        Inl e \<Rightarrow> Some (Inl e, self)
      | Inr (new_seps, batch) \<Rightarrow>
          (let new_seps = new_seps ++ retain_seps (pr_num_prunings self) index curr_seps;
               batch = insert_seps_batch (entries iter new_seps) batch;
               tangle = (Tangle_replace_solid_entry_points (entries iter new_seps) tangle)\<lparr>entry_point_index := index\<rparr>;
               self = self\<lparr>pr_tangle := tangle, pr_num_prunings := pr_num_prunings self + 1\<rparr>
           in
           Option.bind (prune_milestone_data s batch index (prune_receipts_enabled pruning_config)) (\<lambda>batch.
           Option.bind (prune_unconfirmed_data d s batch index) (\<lambda>r.
           case r of
             Inl e \<Rightarrow> Some (Inl e, self)
           | Inr batch \<Rightarrow>
               Some (case update_pruning_info now index (commit_pruning batch tangle) of
                 (r, tangle) \<Rightarrow> (r, self\<lparr>pr_tangle := tangle\<rparr>)))))))"

fun prune_indices ::
  "deps \<Rightarrow> (Seps \<Rightarrow> SolidEntryPoint list) \<Rightarrow> (MilestoneIndex \<Rightarrow> u64) \<Rightarrow> PruningConfig \<Rightarrow> MilestoneIndex list \<Rightarrow>
   Pruner \<Rightarrow> ((PruningError + unit) \<times> Pruner) option" where
  "prune_indices d iter now pruning_config [] self = Some (Inr (), self)"
| "prune_indices d iter now pruning_config (index # indices) self =
     Option.bind (prune_index_step d iter (now index) pruning_config index self) (\<lambda>(r, self).
     case r of
       Inl e \<Rightarrow> Some (Inl e, self)
     | Inr _ \<Rightarrow> prune_indices d iter now pruning_config indices self)"

definition indices_upto :: "MilestoneIndex \<Rightarrow> MilestoneIndex \<Rightarrow> MilestoneIndex list" where
  "indices_upto start_index target_index =
     map (\<lambda>i. MilestoneIndex (word_of_nat i))
       [unat (MilestoneIndex_value start_index) ..< Suc (unat (MilestoneIndex_value target_index))]"

definition prune ::
  "deps \<Rightarrow> (Seps \<Rightarrow> SolidEntryPoint list) \<Rightarrow> (MilestoneIndex \<Rightarrow> u64) \<Rightarrow> MilestoneIndex \<Rightarrow> MilestoneIndex \<Rightarrow>
   PruningConfig \<Rightarrow> Pruner \<Rightarrow> ((PruningError + unit) \<times> Pruner) option" where
  "prune d iter now start_index target_index pruning_config self =
     (if MilestoneIndex_value target_index < MilestoneIndex_value start_index
      then Some (Inl (InvalidTargetIndex target_index start_index), self)
      else prune_indices d iter now pruning_config (indices_upto start_index target_index) self)"

end
