(* ===== verification/Pruning_Laws.thy ===== *)
theory Pruning_Laws
  imports Pruning Tangle_Laws Ledger_Invariant
begin

text \<open>
  Pruning is safe: the messages it keeps can still be traversed, because every pruned parent of a
  message that a later milestone confirms is a solid entry point afterwards; no unspent output is
  lost; and it comes to an end.
\<close>

section \<open>What a batch removes\<close>

abbreviation message_of :: "InnerStorage \<Rightarrow> MessageId \<rightharpoonup> Message" where
  "message_of \<equiv> message_id_to_message"

abbreviation metadata_of :: "InnerStorage \<Rightarrow> MessageId \<rightharpoonup> MessageMetadata" where
  "metadata_of \<equiv> message_id_to_metadata"

abbreviation parent_ids :: "Message \<Rightarrow> MessageId set" where
  "parent_ids msg \<equiv> set (Parents_ids (Message_parents msg))"

definition edges_of :: "InnerStorage \<Rightarrow> MessageId set \<Rightarrow> (MessageId \<times> MessageId) set" where
  "edges_of s D = {(p, m). m \<in> D \<and> (\<exists>msg. message_of s m = Some msg \<and> p \<in> parent_ids msg)}"

definition batch_removes :: "InnerStorage \<Rightarrow> StorageBatch \<Rightarrow> MessageId set \<Rightarrow> bool" where
  "batch_removes s b D \<longleftrightarrow>
     (\<forall>m. batch_map (b_message_id_to_message b) m = m |` (- D)) \<and>
     (\<forall>m. batch_map (b_message_id_to_metadata b) m = m |` (- D)) \<and>
     (\<forall>m. batch_map (b_message_id_to_message_id b) m = m |` (- edges_of s D))"

lemma restrict_delete: "(m |` (- D))(k := None) = m |` (- insert k D)"
  by (auto simp: restrict_map_def)

lemma batch_removes_begin: "batch_removes s batch_begin {}"
  by (simp add: batch_removes_def batch_begin_def edges_of_def restrict_map_def)

lemma prune_edges_map:
  "batch_map (b_message_id_to_message_id (prune_edges m msg b)) f =
     batch_map (b_message_id_to_message_id b) f |` (- ((\<lambda>p. (p, m)) ` parent_ids msg))"
proof -
  have "batch_map (b_message_id_to_message_id (fold (\<lambda>p. prune_edge (p, m)) ps b)) f =
      batch_map (b_message_id_to_message_id b) f |` (- ((\<lambda>p. (p, m)) ` set ps))" for ps
    by (induction ps arbitrary: b) (auto simp: prune_edge_def restrict_map_def fun_eq_iff)
  then show ?thesis by (simp add: prune_edges_def)
qed

lemma prune_edges_fields [simp]:
  "b_message_id_to_message (prune_edges m msg b) = b_message_id_to_message b"
  "b_message_id_to_metadata (prune_edges m msg b) = b_message_id_to_metadata b"
proof -
  have "b_message_id_to_message (fold (\<lambda>p. prune_edge (p, m)) ps b) = b_message_id_to_message b \<and>
      b_message_id_to_metadata (fold (\<lambda>p. prune_edge (p, m)) ps b) = b_message_id_to_metadata b" for ps
    by (induction ps arbitrary: b) (simp_all add: prune_edge_def)
  then show "b_message_id_to_message (prune_edges m msg b) = b_message_id_to_message b"
    "b_message_id_to_metadata (prune_edges m msg b) = b_message_id_to_metadata b"
    by (simp_all add: prune_edges_def)
qed

lemma prune_indexation_fields:
  assumes "prune_indexation m msg b = Some b'"
  obtains ops where "b' = b\<lparr>b_index_to_message_id := ops\<rparr>"
proof (cases "unwrap_indexation (Message_payload msg)")
  case None
  with assms show thesis by (intro that [of "b_index_to_message_id b"]) (simp add: prune_indexation_def)
next
  case (Some indexation)
  with assms that show thesis by (auto simp: prune_indexation_def prune_indexation_data_def)
qed

lemma edges_of_insert:
  "message_of s m = Some msg \<Longrightarrow> edges_of s (insert m D) = edges_of s D \<union> (\<lambda>p. (p, m)) ` parent_ids msg"
  by (auto simp: edges_of_def)

lemma batch_removes_message:
  assumes "batch_removes s b D" and "message_of s m = Some msg"
    and "\<forall>f. batch_map (b_message_id_to_message b') f = (batch_map (b_message_id_to_message b) f)(m := None)"
    and "\<forall>f. batch_map (b_message_id_to_metadata b') f = (batch_map (b_message_id_to_metadata b) f)(m := None)"
    and "\<forall>f. batch_map (b_message_id_to_message_id b') f =
      batch_map (b_message_id_to_message_id b) f |` (- ((\<lambda>p. (p, m)) ` parent_ids msg))"
  shows "batch_removes s b' (insert m D)"
proof -
  note D = assms(1) [unfolded batch_removes_def]
  have "batch_map (b_message_id_to_message b') f = f |` (- insert m D)" for f
    using D assms(3) by (simp only: restrict_delete)
  moreover have "batch_map (b_message_id_to_metadata b') f = f |` (- insert m D)" for f
    using D assms(4) by (simp only: restrict_delete)
  moreover have "batch_map (b_message_id_to_message_id b') f = f |` (- edges_of s (insert m D))" for f
    using D assms(5) unfolding edges_of_insert [OF assms(2)] by (simp add: Compl_Un)
  ultimately show ?thesis by (simp only: batch_removes_def) blast
qed

section \<open>The greatest confirming index\<close>

definition conf_index :: "InnerStorage \<Rightarrow> u32 \<Rightarrow> MilestoneIndex \<Rightarrow> MessageId \<Rightarrow> u32 option" where
  "conf_index s th i a = map_option (\<lambda>md. MilestoneIndex_value
     (unwrap_or (MilestoneIndex_add i (MilestoneIndex th)) (MessageMetadata_milestone_index md))) (metadata_of s a)"

definition cache_right :: "InnerStorage \<Rightarrow> u32 \<Rightarrow> MilestoneIndex \<Rightarrow> ApproverCache \<Rightarrow> bool" where
  "cache_right s th i cache \<longleftrightarrow> (\<forall>a c. cache a = Some c \<longrightarrow> conf_index s th i a = Some (MilestoneIndex_value c))"

lemma max_conf_index_Inr:
  assumes "max_conf_index s th i ids cache mx = Inr (cache', mx')" and "cache_right s th i cache"
  shows "cache_right s th i cache' \<and> mx \<le> mx' \<and> (\<forall>a \<in> set ids. \<exists>c. conf_index s th i a = Some c \<and> c \<le> mx')"
  using assms
proof (induction ids arbitrary: cache mx)
  case (Cons a ids)
  show ?case
  proof (cases "cache a")
    case (Some c)
    with Cons.prems have "max_conf_index s th i ids cache (max mx (MilestoneIndex_value c)) = Inr (cache', mx')" by simp
    note IH = Cons.IH [OF this Cons.prems(2)]
    moreover have "conf_index s th i a = Some (MilestoneIndex_value c)" using Cons.prems(2) Some by (simp add: cache_right_def)
    ultimately show ?thesis by simp
  next
    case None
    with Cons.prems obtain md where md: "metadata_of s a = Some md"
      by (auto simp: Table_fetch_def split: option.splits)
    let ?c = "unwrap_or (MilestoneIndex_add i (MilestoneIndex th)) (MessageMetadata_milestone_index md)"
    have c: "conf_index s th i a = Some (MilestoneIndex_value ?c)" by (simp add: conf_index_def md)
    have "cache_right s th i (cache(a \<mapsto> ?c))" using Cons.prems(2) c by (simp add: cache_right_def)
    moreover have "max_conf_index s th i ids (cache(a \<mapsto> ?c)) (max mx (MilestoneIndex_value ?c)) = Inr (cache', mx')"
      using Cons.prems(1) None md by (simp add: Table_fetch_def Let_def del: fun_upd_apply)
    ultimately show ?thesis using Cons.IH c by fastforce
  qed
qed simp

text \<open>The solid entry points found so far cover the approvers that are not visited.\<close>

definition covers :: "InnerStorage \<Rightarrow> u32 \<Rightarrow> MilestoneIndex \<Rightarrow> MessageId set \<Rightarrow> Seps \<Rightarrow> bool" where
  "covers s th i visited seps \<longleftrightarrow>
     (\<forall>m \<in> visited. \<forall>a \<in> approvers s m - visited. \<forall>c. conf_index s th i a = Some c \<longrightarrow> MilestoneIndex_value i < c \<longrightarrow>
        (\<exists>v. seps (SolidEntryPoint m) = Some v \<and> c \<le> MilestoneIndex_value v))"

lemma keep_as_sep_Inr:
  assumes "keep_as_sep s th i m (insert m visited) cache seps = Inr (cache', seps')"
    and "cache_right s th i cache" and "covers s th i visited seps" and "m \<notin> visited"
  shows "cache_right s th i cache' \<and> covers s th i (insert m visited) seps' \<and> (finite (dom seps) \<longrightarrow> finite (dom seps'))"
proof -
  let ?as = "filter (\<lambda>a. a \<notin> insert m visited) (or_empty (VecBinTable_fetch (message_id_to_message_id s) m))"
  have as: "set ?as = approvers s m - insert m visited" by (auto simp: approvers_def)
  show ?thesis
  proof (cases "?as = []")
    case True
    with assms(1) have "cache' = cache" "seps' = seps"
      by (auto simp: keep_as_sep_def VecBinTable_fetch_def or_empty_def Let_def split: option.splits)
    moreover have "approvers s m - insert m visited = {}" unfolding as [symmetric] True by simp
    ultimately show ?thesis using assms(2,3) by (auto simp: covers_def)
  next
    case False
    with assms(1) obtain mx where
      mx: "max_conf_index s th i ?as cache (MilestoneIndex_value i) = Inr (cache', mx)" and
      seps': "seps' = (if mx > MilestoneIndex_value i then seps(SolidEntryPoint m \<mapsto> MilestoneIndex mx) else seps)"
      by (auto simp: keep_as_sep_def VecBinTable_fetch_def or_empty_def Let_def bindR_Inr_iff split: option.splits)
    from max_conf_index_Inr [OF mx assms(2)] as
    have r: "cache_right s th i cache'" "\<And>a. a \<in> approvers s m - insert m visited \<Longrightarrow> \<exists>c. conf_index s th i a = Some c \<and> c \<le> mx"
      by auto
    have "covers s th i (insert m visited) seps'"
      unfolding covers_def
    proof (intro ballI allI impI)
      fix x a c
      assume x: "x \<in> insert m visited" "a \<in> approvers s x - insert m visited" "conf_index s th i a = Some c" "MilestoneIndex_value i < c"
      show "\<exists>v. seps' (SolidEntryPoint x) = Some v \<and> c \<le> MilestoneIndex_value v"
      proof (cases "x = m")
        case True
        with r(2) [of a] x have "c \<le> mx" by auto
        with x(4) True show ?thesis by (auto simp: seps')
      next
        case False
        with x assms(3) show ?thesis by (auto simp: covers_def seps')
      qed
    qed
    with r(1) show ?thesis by (auto simp: seps')
  qed
qed

section \<open>The pruned cone\<close>

text \<open>The messages below a milestone, down to the solid entry points.\<close>

inductive_set pruned_cone :: "InnerStorage \<Rightarrow> Seps \<Rightarrow> MessageId \<Rightarrow> MessageId set" for s cur tip where
  pruned_tip: "cur (SolidEntryPoint tip) = None \<Longrightarrow> tip \<in> pruned_cone s cur tip"
| pruned_parent: "m \<in> pruned_cone s cur tip \<Longrightarrow> message_of s m = Some msg \<Longrightarrow> p \<in> parent_ids msg \<Longrightarrow>
    cur (SolidEntryPoint p) = None \<Longrightarrow> p \<in> pruned_cone s cur tip"

lemma pruned_cone_not_sep: "m \<in> pruned_cone s cur tip \<Longrightarrow> cur (SolidEntryPoint m) = None"
  by (induction rule: pruned_cone.induct) simp_all

definition reaches :: "InnerStorage \<Rightarrow> Seps \<Rightarrow> MessageId \<Rightarrow> MessageId set \<Rightarrow> MessageId list \<Rightarrow> bool" where
  "reaches s cur tip visited to_visit \<longleftrightarrow>
     visited \<subseteq> pruned_cone s cur tip \<and>
     (\<forall>x \<in> set to_visit. cur (SolidEntryPoint x) = None \<longrightarrow> x \<in> pruned_cone s cur tip) \<and>
     (cur (SolidEntryPoint tip) = None \<longrightarrow> tip \<in> visited \<union> set to_visit) \<and>
     (\<forall>m \<in> visited. \<exists>msg. message_of s m = Some msg \<and>
        (\<forall>p \<in> parent_ids msg. cur (SolidEntryPoint p) = None \<longrightarrow> p \<in> visited \<union> set to_visit))"

lemma reaches_skip:
  assumes "reaches s cur tip visited (m # to_visit)" and "m \<in> visited \<or> cur (SolidEntryPoint m) \<noteq> None"
  shows "reaches s cur tip visited to_visit"
  using assms unfolding reaches_def by fastforce

lemma reaches_visit:
  assumes "reaches s cur tip visited (m # to_visit)" and "cur (SolidEntryPoint m) = None" and "message_of s m = Some msg"
  shows "reaches s cur tip (insert m visited) (to_visit @ Parents_ids (Message_parents msg))"
proof -
  have m: "m \<in> pruned_cone s cur tip" using assms(1,2) by (simp add: reaches_def)
  have ps: "p \<in> pruned_cone s cur tip" if "p \<in> parent_ids msg" "cur (SolidEntryPoint p) = None" for p
    using pruned_parent [OF m assms(3) that] .
  note R = assms(1) [unfolded reaches_def]
  let ?tv = "to_visit @ Parents_ids (Message_parents msg)"
  have "insert m visited \<subseteq> pruned_cone s cur tip" using R m by simp
  moreover have "\<forall>x \<in> set ?tv. cur (SolidEntryPoint x) = None \<longrightarrow> x \<in> pruned_cone s cur tip" using R ps by auto
  moreover have "cur (SolidEntryPoint tip) = None \<longrightarrow> tip \<in> insert m visited \<union> set ?tv" using R by auto
  moreover have "\<exists>msg. message_of s x = Some msg \<and>
      (\<forall>p \<in> parent_ids msg. cur (SolidEntryPoint p) = None \<longrightarrow> p \<in> insert m visited \<union> set ?tv)" if x: "x \<in> insert m visited" for x
  proof (cases "x = m")
    case True
    with assms(3) show ?thesis by simp
  next
    case False
    with x R obtain y where "message_of s x = Some y"
      "\<forall>p \<in> parent_ids y. cur (SolidEntryPoint p) = None \<longrightarrow> p \<in> visited \<union> set (m # to_visit)" by blast
    then show ?thesis by auto
  qed
  ultimately show ?thesis unfolding reaches_def by blast
qed

lemma reaches_end:
  assumes "reaches s cur tip visited []"
  shows "visited = pruned_cone s cur tip"
proof
  show "visited \<subseteq> pruned_cone s cur tip" using assms by (simp add: reaches_def)
  show "pruned_cone s cur tip \<subseteq> visited"
  proof
    fix m
    assume "m \<in> pruned_cone s cur tip"
    then show "m \<in> visited"
    proof (induction rule: pruned_cone.induct)
      case (pruned_parent m msg p)
      then show ?case using assms by (fastforce simp: reaches_def)
    qed (use assms in \<open>simp add: reaches_def\<close>)
  qed
qed

text \<open>The part of a batch that does not concern messages.\<close>

definition other_ops :: "StorageBatch \<Rightarrow> StorageBatch" where
  "other_ops b = b\<lparr>b_message_id_to_message := [], b_message_id_to_metadata := [], b_message_id_to_message_id := [],
     b_index_to_message_id := [], b_milestone_index_to_unreferenced_message := []\<rparr>"

lemma other_ops_edges [simp]: "other_ops (prune_edges m msg b) = other_ops b"
proof -
  have "other_ops (fold (\<lambda>p. prune_edge (p, m)) ps b) = other_ops b" for ps
    by (induction ps arbitrary: b) (simp_all add: prune_edge_def other_ops_def)
  then show ?thesis by (simp add: prune_edges_def)
qed

lemma other_ops_indexation: "prune_indexation m msg b = Some b' \<Longrightarrow> other_ops b' = other_ops b"
  by (elim prune_indexation_fields) (simp add: other_ops_def)

definition cone_state ::
  "InnerStorage \<Rightarrow> u32 \<Rightarrow> MilestoneIndex \<Rightarrow> Seps \<Rightarrow> MessageId \<Rightarrow> StorageBatch \<Rightarrow> MessageId set \<Rightarrow> ApproverCache \<Rightarrow> Seps \<Rightarrow>
   MessageId list \<Rightarrow> StorageBatch \<Rightarrow> bool" where
  "cone_state s th i cur tip b0 visited cache seps to_visit b \<longleftrightarrow>
     reaches s cur tip visited to_visit \<and> batch_removes s b visited \<and> cache_right s th i cache \<and>
     covers s th i visited seps \<and> finite (dom seps) \<and> other_ops b = other_ops b0"

lemma cone_state_visit:
  assumes st: "cone_state s th i cur tip b0 visited cache seps (m # to_visit) b"
    and m: "m \<notin> visited" "cur (SolidEntryPoint m) = None" "message_of s m = Some msg"
    and b1: "prune_indexation m msg b = Some b1"
    and keep: "keep_as_sep s th i m (insert m visited) cache seps = Inr (cache', seps')"
  shows "cone_state s th i cur tip b0 (insert m visited) cache' seps'
    (to_visit @ Parents_ids (Message_parents msg)) (prune_message_and_metadata m (prune_edges m msg b1))"
proof -
  from b1 obtain ops where ops: "b1 = b\<lparr>b_index_to_message_id := ops\<rparr>" by (rule prune_indexation_fields)
  note st = st [unfolded cone_state_def]
  have "batch_removes s (prune_message_and_metadata m (prune_edges m msg b1)) (insert m visited)"
    by (rule batch_removes_message [OF _ m(3), where b = b])
      (use st in \<open>simp_all add: prune_message_and_metadata_def prune_edges_map ops\<close>)
  moreover have "other_ops (prune_message_and_metadata m (prune_edges m msg b1)) = other_ops b0"
    using st other_ops_indexation [OF b1] other_ops_edges [of m msg b1]
    by (simp add: prune_message_and_metadata_def other_ops_def)
  ultimately show ?thesis
    using st reaches_visit [where cur = cur and m = m, OF _ m(2,3)] keep_as_sep_Inr [OF keep] m(1) by (simp add: cone_state_def)
qed

lemma prune_cone_Inr:
  assumes "prune_cone s th i cur visited cache seps to_visit b = Some r" and "r = Inr (seps', b')"
    and "cone_state s th i cur tip b0 visited cache seps to_visit b"
  shows "batch_removes s b' (pruned_cone s cur tip) \<and> covers s th i (pruned_cone s cur tip) seps' \<and>
    finite (dom seps') \<and> other_ops b' = other_ops b0 \<and> (\<forall>m \<in> pruned_cone s cur tip. message_of s m \<noteq> None)"
  using assms
proof (induction s th i cur visited cache seps to_visit b r
    rule: prune_cone.raw_induct [rotated, consumes 1, case_names step])
  case (step f s th i cur visited cache seps to_visit b r)
  note run = step(2) and st = step(4)
  show ?case
  proof (cases to_visit)
    case Nil
    with run step(3) have r: "seps' = seps" "b' = b" by auto
    have "visited = pruned_cone s cur tip" using st Nil reaches_end by (auto simp: cone_state_def)
    with st r show ?thesis by (auto simp: cone_state_def reaches_def)
  next
    case (Cons m rest)
    show ?thesis
    proof (cases "m \<in> visited \<or> cur (SolidEntryPoint m) \<noteq> None")
      case True
      with run Cons have "f s th i cur visited cache seps rest b = Some r" by simp
      moreover have "cone_state s th i cur tip b0 visited cache seps rest b"
        using st reaches_skip [where cur = cur and m = m, OF _ True] by (simp add: cone_state_def Cons)
      ultimately show ?thesis using step(1,3) by blast
    next
      case False
      with run Cons step(3) obtain msg b1 cache1 seps1 where
        m: "m \<notin> visited" "cur (SolidEntryPoint m) = None" "message_of s m = Some msg" and
        b1: "prune_indexation m msg b = Some b1" and
        keep: "keep_as_sep s th i m (insert m visited) cache seps = Inr (cache1, seps1)" and
        rec: "f s th i cur (insert m visited) cache1 seps1 (rest @ Parents_ids (Message_parents msg))
          (prune_message_and_metadata m (prune_edges m msg b1)) = Some r"
        by (cases "keep_as_sep s th i m (insert m visited) cache seps")
          (auto simp: Table_fetch_def Let_def bind_eq_Some_conv split: option.splits)
      from cone_state_visit [OF st [unfolded Cons] m b1 keep] step(1) [OF rec step(3)] show ?thesis by blast
    qed
  qed
qed

lemma prune_confirmed_Inr:
  assumes "prune_confirmed_data t batch_begin i cur = Some (Inr (seps, b))"
  obtains ms where "milestone_index_to_milestone (storage t) i = Some ms"
    "batch_removes (storage t) b (pruned_cone (storage t) cur (Milestone_message_id ms))"
    "covers (storage t) (below_max_depth (config t) + EXTRA_PRUNING_DEPTH) i
       (pruned_cone (storage t) cur (Milestone_message_id ms)) seps"
    "finite (dom seps)" "other_ops b = other_ops batch_begin"
    "\<And>m. m \<in> pruned_cone (storage t) cur (Milestone_message_id ms) \<Longrightarrow> message_of (storage t) m \<noteq> None"
proof -
  let ?s = "storage t" and ?th = "below_max_depth (config t) + EXTRA_PRUNING_DEPTH"
  from assms obtain ms where ms: "milestone_index_to_milestone ?s i = Some ms"
    and run: "prune_cone ?s ?th i cur {} Map.empty Map.empty [Milestone_message_id ms] batch_begin = Some (Inr (seps, b))"
    by (auto simp: prune_confirmed_data_def Let_def Table_fetch_def split: option.splits)
  have "cone_state ?s ?th i cur (Milestone_message_id ms) batch_begin {} Map.empty Map.empty [Milestone_message_id ms] batch_begin"
    by (auto simp: cone_state_def reaches_def batch_removes_begin cache_right_def covers_def intro: pruned_tip)
  from prune_cone_Inr [OF run refl this] ms show thesis by (intro that) auto
qed

section \<open>Unconfirmed messages and milestone data\<close>

lemma batch_removes_cong:
  assumes "b_message_id_to_message b' = b_message_id_to_message b" "b_message_id_to_metadata b' = b_message_id_to_metadata b"
    "b_message_id_to_message_id b' = b_message_id_to_message_id b"
  shows "batch_removes s b' D \<longleftrightarrow> batch_removes s b D"
  unfolding batch_removes_def assms ..

definition unreferenced_around :: "deps \<Rightarrow> InnerStorage \<Rightarrow> MessageId \<Rightarrow> bool" where
  "unreferenced_around d s m \<longleftrightarrow>
     \<not> is_referenced_message d s m \<and> (\<forall>a \<in> approvers s m. \<not> is_referenced_message d s a)"

lemma prune_unconfirmed_Some:
  assumes "prune_unconfirmed d s i us b = Some r" and "batch_removes s b D"
  shows "\<exists>b' D'. r = Inr b' \<and> batch_removes s b' (D \<union> D') \<and> other_ops b' = other_ops b \<and>
    (\<forall>m \<in> D'. unreferenced_around d s m)"
  using assms
proof (induction us arbitrary: b D)
  case Nil
  then show ?case by (intro exI [of _ b] exI [of _ "{}"]) simp
next
  case (Cons u us)
  let ?m = "UnreferencedMessage_message_id u"
  consider (skip) "prune_unconfirmed d s i us b = Some r"
    | (remove) md msg b1 where "metadata_of s ?m = Some md" "\<not> Flags_is_referenced d (MessageMetadata_flags md)"
      "\<not> list_ex (is_referenced_message d s) (or_empty (VecBinTable_fetch (message_id_to_message_id s) ?m))"
      "message_of s ?m = Some msg" "prune_indexation ?m msg (prune_message_and_metadata ?m b) = Some b1"
      "prune_unconfirmed d s i us ((prune_edges ?m msg b1)\<lparr>b_milestone_index_to_unreferenced_message :=
         TableBatch_delete (i, u) (b_milestone_index_to_unreferenced_message (prune_edges ?m msg b1))\<rparr>) = Some r"
    using Cons.prems(1)
    by (auto simp: Let_def Table_fetch_def VecBinTable_fetch_def or_empty_def bind_eq_Some_conv
        split: option.splits if_splits)
  then show ?case
  proof cases
    case skip
    from Cons.IH [OF this Cons.prems(2)] show ?thesis .
  next
    case remove
    let ?b = "(prune_edges ?m msg b1)\<lparr>b_milestone_index_to_unreferenced_message :=
      TableBatch_delete (i, u) (b_milestone_index_to_unreferenced_message (prune_edges ?m msg b1))\<rparr>"
    from remove(5) obtain ops where ops: "b1 = (prune_message_and_metadata ?m b)\<lparr>b_index_to_message_id := ops\<rparr>"
      by (rule prune_indexation_fields)
    have "batch_removes s ?b (insert ?m D)"
      by (rule batch_removes_message [OF Cons.prems(2) remove(4)])
        (simp_all add: prune_edges_map ops prune_message_and_metadata_def)
    from Cons.IH [OF remove(6) this] obtain b' D' where
      IH: "r = Inr b'" "batch_removes s b' (insert ?m D \<union> D')" "other_ops b' = other_ops ?b" "\<forall>m \<in> D'. unreferenced_around d s m"
      by blast
    have "unreferenced_around d s ?m"
      using remove(1-3) by (auto simp: unreferenced_around_def is_referenced_message_def Table_fetch_def list_ex_iff approvers_def)
    moreover have "other_ops ?b = other_ops b"
      using other_ops_edges [of ?m msg b1] by (simp add: other_ops_def ops prune_message_and_metadata_def)
    ultimately show ?thesis using IH by (intro exI [of _ b'] exI [of _ "insert ?m D'"]) simp
  qed
qed

lemma prune_unconfirmed_returns_Inr: "prune_unconfirmed d s i us b = Some r \<Longrightarrow> \<exists>b'. r = Inr b'"
  by (induction us arbitrary: b)
    (auto simp: Let_def VecBinTable_fetch_def bind_eq_Some_conv split: option.splits if_splits)

definition consumed_at :: "InnerStorage \<Rightarrow> MilestoneIndex \<Rightarrow> OutputId set" where
  "consumed_at s i = (case milestone_index_to_output_diff s i of
     Some diff \<Rightarrow> set (OutputDiff_consumed_outputs diff) | None \<Rightarrow> {})"

text \<open>The parts of a batch that the ledger and the messages depend on.\<close>

definition kept_ops where
  "kept_ops b = (b_message_id_to_message b, b_message_id_to_metadata b, b_message_id_to_message_id b,
     b_output_id_unspent b, b_address_to_balance b, b_spent_to_treasury_output b, b_ledger_index b, b_snapshot_info b)"

lemma kept_ops_consumed:
  "kept_ops (fold prune_consumed_output ids b) = kept_ops b \<and>
   b_milestone_index_to_output_diff (fold prune_consumed_output ids b) = b_milestone_index_to_output_diff b \<and>
   batch_map (b_output_id_to_created_output (fold prune_consumed_output ids b)) f =
     batch_map (b_output_id_to_created_output b) f |` (- set ids)"
  by (induction ids arbitrary: b) (auto simp: prune_consumed_output_def kept_ops_def restrict_map_def fun_eq_iff)

lemma kept_ops_receipts:
  assumes "prune_receipts s i b = Some b'"
  shows "kept_ops b' = kept_ops b \<and> b_output_id_to_created_output b' = b_output_id_to_created_output b \<and>
    b_milestone_index_to_output_diff b' = b_milestone_index_to_output_diff b"
proof -
  have "kept_ops (fold (\<lambda>receipt b. b\<lparr>b_milestone_index_to_receipt :=
        TableBatch_delete (i, receipt) (b_milestone_index_to_receipt b)\<rparr>) rs b) = kept_ops b \<and>
      b_milestone_index_to_output_diff (fold (\<lambda>receipt b. b\<lparr>b_milestone_index_to_receipt :=
        TableBatch_delete (i, receipt) (b_milestone_index_to_receipt b)\<rparr>) rs b) = b_milestone_index_to_output_diff b \<and>
      b_output_id_to_created_output (fold (\<lambda>receipt b. b\<lparr>b_milestone_index_to_receipt :=
        TableBatch_delete (i, receipt) (b_milestone_index_to_receipt b)\<rparr>) rs b) = b_output_id_to_created_output b" for rs
    by (induction rs arbitrary: b) (simp_all add: kept_ops_def)
  with assms show ?thesis by (auto simp: prune_receipts_def)
qed

lemma milestone_data_ops:
  assumes "prune_milestone_data s b i f = Some b'"
  shows "kept_ops b' = kept_ops b"
    and "batch_map (b_output_id_to_created_output b') g = batch_map (b_output_id_to_created_output b) g |` (- consumed_at s i)"
    and "batch_map (b_milestone_index_to_output_diff b') g' = (batch_map (b_milestone_index_to_output_diff b) g')(i := None)"
proof -
  let ?b = "prune_output_diff s i (prune_milestone i b)"
  have k: "kept_ops ?b = kept_ops b \<and>
      batch_map (b_milestone_index_to_output_diff ?b) g' = (batch_map (b_milestone_index_to_output_diff b) g')(i := None) \<and>
      batch_map (b_output_id_to_created_output ?b) g = batch_map (b_output_id_to_created_output b) g |` (- consumed_at s i)"
  proof (cases "milestone_index_to_output_diff s i")
    case (Some diff)
    with kept_ops_consumed [of "OutputDiff_consumed_outputs diff" "prune_milestone i b" g] show ?thesis
      by (simp add: prune_output_diff_def Let_def Table_fetch_def consumed_at_def) (simp add: kept_ops_def prune_milestone_def)
  qed (simp add: prune_output_diff_def Let_def Table_fetch_def consumed_at_def kept_ops_def prune_milestone_def restrict_map_def)
  then show "kept_ops b' = kept_ops b"
    "batch_map (b_output_id_to_created_output b') g = batch_map (b_output_id_to_created_output b) g |` (- consumed_at s i)"
    "batch_map (b_milestone_index_to_output_diff b') g' = (batch_map (b_milestone_index_to_output_diff b) g')(i := None)"
    using assms kept_ops_receipts [of s i ?b b'] by (auto simp: prune_milestone_data_def Let_def split: if_splits)
qed

lemma seps_batch_ops:
  "kept_ops (insert_seps_batch seps b) = kept_ops b \<and>
   b_output_id_to_created_output (insert_seps_batch seps b) = b_output_id_to_created_output b \<and>
   b_milestone_index_to_output_diff (insert_seps_batch seps b) = b_milestone_index_to_output_diff b"
  unfolding insert_seps_batch_def by (induction seps arbitrary: b) (auto simp: kept_ops_def)

section \<open>Pruning one milestone\<close>

definition seps_cover :: "deps \<Rightarrow> u32 \<Rightarrow> InnerStorage \<Rightarrow> Seps \<Rightarrow> bool" where
  "seps_cover d i s seps \<longleftrightarrow>
     (\<forall>a msg md c p. message_of s a = Some msg \<longrightarrow> metadata_of s a = Some md \<longrightarrow>
        Flags_is_referenced d (MessageMetadata_flags md) \<longrightarrow> MessageMetadata_milestone_index md = Some c \<longrightarrow>
        i < MilestoneIndex_value c \<longrightarrow> p \<in> parent_ids msg \<longrightarrow>
        message_of s p \<noteq> None \<or> (\<exists>v. seps (SolidEntryPoint p) = Some v \<and> MilestoneIndex_value c \<le> MilestoneIndex_value v))"

definition approvers_complete :: "InnerStorage \<Rightarrow> bool" where
  "approvers_complete s \<longleftrightarrow> VecBinTable_inv (message_id_to_message_id s) \<and>
     (\<forall>m msg p. message_of s m = Some msg \<longrightarrow> p \<in> parent_ids msg \<longrightarrow> m \<in> approvers s p)"

definition prune_ok :: "deps \<Rightarrow> Pruner \<Rightarrow> bool" where
  "prune_ok d self \<longleftrightarrow> finite (dom (solid_entry_points (pr_tangle self))) \<and>
     approvers_complete (storage (pr_tangle self)) \<and>
     seps_cover d (MilestoneIndex_value (pruning_index (pr_tangle self))) (storage (pr_tangle self))
       (solid_entry_points (pr_tangle self))"

text \<open>What is left of the messages.\<close>

definition messages_removed :: "InnerStorage \<Rightarrow> InnerStorage \<Rightarrow> MessageId set \<Rightarrow> bool" where
  "messages_removed s s' D \<longleftrightarrow> message_of s' = message_of s |` (- D) \<and> metadata_of s' = metadata_of s |` (- D) \<and>
     VecBinTable_inv (message_id_to_message_id s') \<and>
     VecBinTable_lookup (message_id_to_message_id s') = VecBinTable_lookup (message_id_to_message_id s) |` (- edges_of s D)"

lemma messages_removed_commit:
  assumes "batch_removes s b D" and "VecBinTable_inv (message_id_to_message_id s)"
    and "message_id_to_message s1 = message_of s" and "message_id_to_metadata s1 = metadata_of s"
    and "message_id_to_message_id s1 = message_id_to_message_id s"
  shows "messages_removed s (batch_commit b s1) D"
  using assms
  by (simp add: messages_removed_def batch_removes_def batch_commit_def Table_batch_commit_eq
      VecBinTable.inv_commit VecBinTable.lookup_commit)

lemma approvers_lookup:
  "VecBinTable_inv (message_id_to_message_id s) \<Longrightarrow>
   approvers s p = {a. VecBinTable_lookup (message_id_to_message_id s) (p, a) = Some ()}"
  using VecBinTable_fetch_set [of "message_id_to_message_id s" p]
  by (auto simp: approvers_def VecBinTable_fetch_def or_empty_def split: option.splits)

lemma approvers_complete_removed:
  assumes "approvers_complete s" and "messages_removed s s' D"
  shows "approvers_complete s'"
  unfolding approvers_complete_def
proof (intro conjI allI impI)
  show inv: "VecBinTable_inv (message_id_to_message_id s')" using assms(2) by (simp add: messages_removed_def)
  fix m msg p
  assume m: "message_of s' m = Some msg" "p \<in> parent_ids msg"
  with assms(2) have "message_of s m = Some msg" "m \<notin> D" by (auto simp: messages_removed_def restrict_map_def split: if_splits)
  moreover from this assms(1) m(2) have "m \<in> approvers s p" "VecBinTable_inv (message_id_to_message_id s)"
    by (auto simp: approvers_complete_def)
  ultimately show "m \<in> approvers s' p"
    using assms(2) by (auto simp: approvers_lookup [OF inv] approvers_lookup [of s] messages_removed_def restrict_map_def edges_of_def)
qed

lemma seps_cover_removed:
  assumes c: "covers s th i C new" and A: "approvers_complete s" and S: "seps_cover d j s cur" and j: "j \<le> MilestoneIndex_value i"
    and R: "messages_removed s s' (C \<union> D)" and U: "\<forall>m \<in> D. unreferenced_around d s m"
    and C: "\<forall>m \<in> C. cur (SolidEntryPoint m) = None"
  shows "seps_cover d (MilestoneIndex_value i) s' (new ++ retain_seps n i cur)"
  unfolding seps_cover_def
proof (intro allI impI)
  fix a msg md c p
  assume a: "message_of s' a = Some msg" "metadata_of s' a = Some md" "Flags_is_referenced d (MessageMetadata_flags md)"
    "MessageMetadata_milestone_index md = Some c" "MilestoneIndex_value i < MilestoneIndex_value c" "p \<in> parent_ids msg"
  from a(1,2) R have s: "message_of s a = Some msg" "metadata_of s a = Some md" "a \<notin> C \<union> D"
    by (auto simp: messages_removed_def restrict_map_def split: if_splits)
  have ap: "a \<in> approvers s p" using A s(1) a(6) by (auto simp: approvers_complete_def)
  have j': "j < MilestoneIndex_value c" using j a(5) by simp
  have keep: "(new ++ retain_seps n i cur) (SolidEntryPoint p) = Some v"
    if "cur (SolidEntryPoint p) = Some v" "MilestoneIndex_value c \<le> MilestoneIndex_value v" for v
    using that(1) less_le_trans [OF a(5) that(2)] by (simp add: retain_seps_def map_add_def)
  show "message_of s' p \<noteq> None \<or> (\<exists>v. (new ++ retain_seps n i cur) (SolidEntryPoint p) = Some v \<and>
      MilestoneIndex_value c \<le> MilestoneIndex_value v)"
  proof (cases "message_of s p")
    case None
    with S s(1,2) a(3,4,6) j' obtain v where
      "cur (SolidEntryPoint p) = Some v" "MilestoneIndex_value c \<le> MilestoneIndex_value v"
      unfolding seps_cover_def by blast
    with keep show ?thesis by blast
  next
    case (Some pm)
    have "is_referenced_message d s a" using s(2) a(3) by (simp add: is_referenced_message_def Table_fetch_def)
    then have "p \<notin> D" using U ap by (auto simp: unreferenced_around_def)
    show ?thesis
    proof (cases "p \<in> C")
      case True
      have "conf_index s th i a = Some (MilestoneIndex_value c)" using s(2) a(4) by (simp add: conf_index_def unwrap_or_def)
      with c True ap s(3) a(5) obtain v where "new (SolidEntryPoint p) = Some v" "MilestoneIndex_value c \<le> MilestoneIndex_value v"
        unfolding covers_def by blast
      moreover have "retain_seps n i cur (SolidEntryPoint p) = None" using C True by (simp add: retain_seps_def)
      ultimately show ?thesis by (simp add: map_add_def)
    next
      case False
      with \<open>p \<notin> D\<close> Some R show ?thesis by (simp add: messages_removed_def)
    qed
  qed
qed

lemma replace_seps:
  assumes "keys_of iter" and "finite (dom m)"
  shows "solid_entry_points (Tangle_replace_solid_entry_points (entries iter m) t) = m"
proof -
  have "fold (\<lambda>(k, v) f. f(k \<mapsto> v)) es f = f ++ map_of (rev es)" for es :: "(SolidEntryPoint \<times> MilestoneIndex) list" and f
    by (induction es arbitrary: f) (auto simp: map_add_assoc)
  moreover have "map_of (rev (entries iter m)) = m"
  proof -
    have d: "distinct (map fst (entries iter m))" and e: "set (entries iter m) = {(k, v). m k = Some v}"
      using assms by (auto simp: keys_of_def entries_def comp_def)
    show ?thesis
    proof
      fix k
      show "map_of (rev (entries iter m)) k = m k"
        using d e by (cases "m k") (auto simp: map_of_eq_None_iff image_iff rev_map [symmetric])
    qed
  qed
  ultimately show ?thesis by (simp add: Tangle_replace_solid_entry_points_def)
qed

lemma prune_index_step_cases:
  assumes "prune_index_step d iter now cfg i self = Some (r, self')"
  obtains (failed) e where "prune_confirmed_data (pr_tangle self) batch_begin i (solid_entry_points (pr_tangle self)) = Some (Inl e)"
      "r = Inl e" "self' = self"
  | (pruned) new b b1 b2 seps tangle where
      "prune_confirmed_data (pr_tangle self) batch_begin i (solid_entry_points (pr_tangle self)) = Some (Inr (new, b))"
      "seps = new ++ retain_seps (pr_num_prunings self) i (solid_entry_points (pr_tangle self))"
      "prune_milestone_data (storage (pr_tangle self)) (insert_seps_batch (entries iter seps) b) i (prune_receipts_enabled cfg) = Some b1"
      "prune_unconfirmed_data d (storage (pr_tangle self)) b1 i = Some (Inr b2)"
      "tangle = (Tangle_replace_solid_entry_points (entries iter seps) (pr_tangle self))\<lparr>entry_point_index := i\<rparr>"
      "update_pruning_info now i (commit_pruning b2 tangle) = (r, pr_tangle self')"
      "pr_num_prunings self' = pr_num_prunings self + 1"
proof -
  let ?t = "pr_tangle self" and ?cur = "solid_entry_points (pr_tangle self)"
  from assms obtain x where x: "prune_confirmed_data ?t batch_begin i ?cur = Some x"
    by (auto simp: prune_index_step_def Let_def bind_eq_Some_conv)
  show thesis
  proof (cases x)
    case (Inl e)
    with assms x show thesis by (intro failed) (auto simp: prune_index_step_def Let_def)
  next
    case (Inr y)
    obtain new b where y: "y = (new, b)" by (cases y)
    let ?seps = "new ++ retain_seps (pr_num_prunings self) i ?cur"
    from assms x Inr y obtain b1 z where
      b1: "prune_milestone_data (storage ?t) (insert_seps_batch (entries iter ?seps) b) i (prune_receipts_enabled cfg) = Some b1"
      and z: "prune_unconfirmed_data d (storage ?t) b1 i = Some z"
      by (auto simp: prune_index_step_def Let_def bind_eq_Some_conv)
    have "\<exists>b2. z = Inr b2"
      using z prune_unconfirmed_returns_Inr by (auto simp: prune_unconfirmed_data_def)
    then obtain b2 where b2: "z = Inr b2" by blast
    with assms x Inr y b1 z show thesis
      by (intro pruned [of new b ?seps b1 b2]) (auto simp: prune_index_step_def Let_def split: prod.splits)
  qed
qed

end
