(* ===== verification/Pruning_Properties.thy ===== *)
theory Pruning_Properties
  imports Pruning_Laws Consensus_Properties
begin

text \<open>
  The properties of pruning: it returns, keeps what is left traversable, and leaves the ledger alone.
\<close>

section \<open>One milestone\<close>

lemma update_pruning_info_fields:
  assumes "update_pruning_info now i t = (r, t')"
  shows "pruning_index t' = i" and "solid_entry_points t' = solid_entry_points t" and "config t' = config t"
    and "\<exists>x. storage t' = (storage t)\<lparr>snapshot_info := x\<rparr>"
proof -
  have "pruning_index t' = i \<and> solid_entry_points t' = solid_entry_points t \<and> config t' = config t \<and>
      (\<exists>x. storage t' = (storage t)\<lparr>snapshot_info := x\<rparr>)"
  proof (cases "fetch_snapshot_info (storage t)")
    case None
    with assms show ?thesis
      by (auto simp: update_pruning_info_def Let_def intro!: exI [of _ "snapshot_info (storage t)"])
  next
    case (Some info)
    with assms show ?thesis
      by (auto simp: update_pruning_info_def Let_def insert_snapshot_info_def
          intro!: exI [of _ "SingletonTable_insert () (info\<lparr>SnapshotInfo_pruning_index := i, SnapshotInfo_timestamp := now\<rparr>) (snapshot_info (storage t))"])
  qed
  then show "pruning_index t' = i" "solid_entry_points t' = solid_entry_points t" "config t' = config t"
    "\<exists>x. storage t' = (storage t)\<lparr>snapshot_info := x\<rparr>" by blast+
qed

lemma kept_ops_eqD:
  assumes "kept_ops b' = kept_ops b"
  shows "b_message_id_to_message b' = b_message_id_to_message b" "b_message_id_to_metadata b' = b_message_id_to_metadata b"
    "b_message_id_to_message_id b' = b_message_id_to_message_id b" "b_output_id_unspent b' = b_output_id_unspent b"
    "b_address_to_balance b' = b_address_to_balance b" "b_spent_to_treasury_output b' = b_spent_to_treasury_output b"
    "b_snapshot_info b' = b_snapshot_info b"
  using assms by (simp_all add: kept_ops_def)

lemma other_ops_eqD:
  assumes "other_ops b' = other_ops b"
  shows "b_output_id_unspent b' = b_output_id_unspent b" "b_address_to_balance b' = b_address_to_balance b"
    "b_spent_to_treasury_output b' = b_spent_to_treasury_output b"
    "b_output_id_to_created_output b' = b_output_id_to_created_output b"
    "b_milestone_index_to_output_diff b' = b_milestone_index_to_output_diff b" "b_snapshot_info b' = b_snapshot_info b"
  using assms by (auto simp: other_ops_def dest!: arg_cong [where f = "\<lambda>b. (b_output_id_unspent b, b_snapshot_info b,
    b_address_to_balance b, b_spent_to_treasury_output b, b_output_id_to_created_output b, b_milestone_index_to_output_diff b)"])

text \<open>What pruning a milestone does to the storage and the solid entry points.\<close>

definition ledger_kept :: "InnerStorage \<Rightarrow> InnerStorage \<Rightarrow> MilestoneIndex \<Rightarrow> bool" where
  "ledger_kept s s' i \<longleftrightarrow> output_id_unspent s' = output_id_unspent s \<and> address_to_balance s' = address_to_balance s \<and>
     spent_to_treasury_output s' = spent_to_treasury_output s \<and>
     output_id_to_created_output s' = output_id_to_created_output s |` (- consumed_at s i) \<and>
     milestone_index_to_output_diff s' = (milestone_index_to_output_diff s)(i := None)"

lemma prune_index_step_effect:
  assumes iter: "keys_of iter" and fin: "finite (dom (solid_entry_points (pr_tangle self)))"
    and inv: "VecBinTable_inv (message_id_to_message_id (storage (pr_tangle self)))"
    and run: "prune_index_step d iter now cfg i self = Some (r, self')"
  obtains (failed) e where "self' = self" "r = Inl e"
      "prune_confirmed_data (pr_tangle self) batch_begin i (solid_entry_points (pr_tangle self)) = Some (Inl e)"
  | (pruned) ms new D where
      "milestone_index_to_milestone (storage (pr_tangle self)) i = Some ms"
      "covers (storage (pr_tangle self)) (below_max_depth (config (pr_tangle self)) + EXTRA_PRUNING_DEPTH) i
         (pruned_cone (storage (pr_tangle self)) (solid_entry_points (pr_tangle self)) (Milestone_message_id ms)) new"
      "messages_removed (storage (pr_tangle self)) (storage (pr_tangle self'))
         (pruned_cone (storage (pr_tangle self)) (solid_entry_points (pr_tangle self)) (Milestone_message_id ms) \<union> D)"
      "\<forall>m \<in> D. unreferenced_around d (storage (pr_tangle self)) m"
      "ledger_kept (storage (pr_tangle self)) (storage (pr_tangle self')) i"
      "solid_entry_points (pr_tangle self') = new ++ retain_seps (pr_num_prunings self) i (solid_entry_points (pr_tangle self))"
      "finite (dom (solid_entry_points (pr_tangle self')))" "pruning_index (pr_tangle self') = i"
      "snapshot_info (storage (pr_tangle self)) \<noteq> None \<Longrightarrow> r = Inr ()"
  using run
proof (cases rule: prune_index_step_cases)
  case (failed e)
  then show thesis by (intro that(1))
next
  case (pruned new b b1 b2 seps tangle)
  let ?t = "pr_tangle self" and ?s = "storage (pr_tangle self)" and ?s' = "storage (pr_tangle self')"
  from prune_confirmed_Inr [OF pruned(1)] obtain ms where
    ms: "milestone_index_to_milestone ?s i = Some ms"
      "batch_removes ?s b (pruned_cone ?s (solid_entry_points ?t) (Milestone_message_id ms))"
      "covers ?s (below_max_depth (config ?t) + EXTRA_PRUNING_DEPTH) i
         (pruned_cone ?s (solid_entry_points ?t) (Milestone_message_id ms)) new"
      "finite (dom new)" "other_ops b = other_ops batch_begin" by metis
  let ?C = "pruned_cone ?s (solid_entry_points ?t) (Milestone_message_id ms)"
  note data = milestone_data_ops [OF pruned(3)] and sb = seps_batch_ops [of "entries iter seps" b]
  have k: "kept_ops b1 = kept_ops b" using data(1) sb by simp
  have "batch_removes ?s b1 ?C"
    using ms(2) batch_removes_cong [OF kept_ops_eqD(1-3) [OF k]] by simp
  from prune_unconfirmed_Some [OF pruned(4) [unfolded prune_unconfirmed_data_def] this] obtain D where
    D: "batch_removes ?s b2 (?C \<union> D)" "other_ops b2 = other_ops b1" "\<forall>m \<in> D. unreferenced_around d ?s m" by blast
  note info = update_pruning_info_fields [OF pruned(6)]
  let ?s1 = "solid_entry_point_to_milestone_index_update Table_truncate (storage tangle)"
  have tangle: "storage tangle = ?s" by (simp add: pruned(5) Tangle_replace_solid_entry_points_def)
  from info(4) obtain x where s': "?s' = (batch_commit b2 ?s1)\<lparr>snapshot_info := x\<rparr>" by (auto simp: commit_pruning_def)
  have "messages_removed ?s (batch_commit b2 ?s1) (?C \<union> D)"
    by (rule messages_removed_commit [OF D(1) inv]) (simp_all add: tangle)
  then have R: "messages_removed ?s ?s' (?C \<union> D)" by (simp add: messages_removed_def s')
  have e: "b_output_id_unspent b2 = [] \<and> b_address_to_balance b2 = [] \<and> b_spent_to_treasury_output b2 = []"
    using other_ops_eqD [OF D(2)] kept_ops_eqD [OF k] other_ops_eqD [OF ms(5)] by (simp add: batch_begin_def)
  have "batch_map (b_output_id_to_created_output b2) g = g |` (- consumed_at ?s i)" for g
    using other_ops_eqD(4) [OF D(2)] data(2) [of g] other_ops_eqD(4) [OF ms(5)] sb by (simp add: batch_begin_def)
  moreover have "batch_map (b_milestone_index_to_output_diff b2) g = g(i := None)" for g
    using other_ops_eqD(5) [OF D(2)] data(3) [of g] other_ops_eqD(5) [OF ms(5)] sb by (simp add: batch_begin_def)
  ultimately have K: "ledger_kept ?s ?s' i"
    using e by (simp add: ledger_kept_def s' batch_commit_def tangle Table_batch_commit_eq)
  have "dom (retain_seps (pr_num_prunings self) i (solid_entry_points ?t)) \<subseteq> dom (solid_entry_points ?t)"
    by (auto simp: retain_seps_def split: option.splits if_splits)
  from finite_subset [OF this fin] have f: "finite (dom seps)" using ms(4) by (simp add: pruned(2))
  have S: "solid_entry_points (pr_tangle self') = seps"
    using info(2) replace_seps [OF iter f] by (simp add: commit_pruning_def pruned(5))
  have "b_snapshot_info b2 = []"
    using other_ops_eqD(6) [OF D(2)] kept_ops_eqD(7) [OF k] other_ops_eqD(6) [OF ms(5)] by (simp add: batch_begin_def)
  then have "r = Inr ()" if "snapshot_info ?s \<noteq> None"
    using pruned(6) that tangle
    by (auto simp: update_pruning_info_def commit_pruning_def batch_commit_def fetch_snapshot_info_def
        SingletonTable_fetch_def Let_def split: option.splits)
  then show thesis by (intro that(2) [OF ms(1,3) R D(3) K]) (use S f info(1) pruned(2) in simp_all)
qed

section \<open>All milestones\<close>

lemma restrict_map_eq: "(f |` A) x = Some y \<longleftrightarrow> x \<in> A \<and> f x = Some y"
  by (simp add: restrict_map_def)

definition prune_ready :: "deps \<Rightarrow> Pruner \<Rightarrow> bool" where
  "prune_ready d self \<longleftrightarrow> prune_ok d self \<and> finite (dom (message_of (storage (pr_tangle self)))) \<and>
     (\<forall>m msg. message_of (storage (pr_tangle self)) m = Some msg \<longrightarrow> Message_valid d msg)"

definition pruned_upto :: "Pruner \<Rightarrow> u32" where
  "pruned_upto self = MilestoneIndex_value (pruning_index (pr_tangle self))"

lemma prune_index_step_ready:
  assumes iter: "keys_of iter" and ready: "prune_ready d self" and i: "pruned_upto self \<le> MilestoneIndex_value i"
    and run: "prune_index_step d iter now cfg i self = Some (r, self')"
  shows "prune_ready d self' \<and> pruned_upto self' \<le> MilestoneIndex_value i"
proof -
  let ?s = "storage (pr_tangle self)"
  have ok: "finite (dom (solid_entry_points (pr_tangle self)))" "approvers_complete ?s"
    "seps_cover d (pruned_upto self) ?s (solid_entry_points (pr_tangle self))"
    using ready by (simp_all add: prune_ready_def prune_ok_def pruned_upto_def)
  from ok(2) have inv: "VecBinTable_inv (message_id_to_message_id ?s)" by (simp add: approvers_complete_def)
  from iter ok(1) inv run show ?thesis
  proof (cases rule: prune_index_step_effect)
    case (failed e)
    with ready i show ?thesis by simp
  next
    case (pruned ms new D)
    have "seps_cover d (MilestoneIndex_value i) (storage (pr_tangle self')) (solid_entry_points (pr_tangle self'))"
      unfolding pruned(6)
      by (rule seps_cover_removed [OF pruned(2) ok(2,3) i pruned(3,4)]) (simp add: pruned_cone_not_sep)
    with pruned(7,8) approvers_complete_removed [OF ok(2) pruned(3)]
    have "prune_ok d self'" by (simp add: prune_ok_def)
    moreover have "finite (dom (message_of (storage (pr_tangle self')))) \<and>
        (\<forall>m msg. message_of (storage (pr_tangle self')) m = Some msg \<longrightarrow> Message_valid d msg)"
      using ready pruned(3) by (simp add: prune_ready_def messages_removed_def restrict_map_eq) blast
    ultimately show ?thesis using pruned(8) by (simp add: prune_ready_def pruned_upto_def)
  qed
qed

fun ascending :: "u32 \<Rightarrow> MilestoneIndex list \<Rightarrow> bool" where
  "ascending j [] = True"
| "ascending j (i # is) = (j \<le> MilestoneIndex_value i \<and> ascending (MilestoneIndex_value i) is)"

lemma ascending_mono: "ascending j is \<Longrightarrow> k \<le> j \<Longrightarrow> ascending k is"
  by (cases "is") auto

lemma ascending_indices:
  assumes "j \<le> MilestoneIndex_value start"
  shows "ascending j (indices_upto start target)"
proof -
  have "ascending k (map (\<lambda>i. MilestoneIndex (word_of_nat i)) [a..<b])"
    if "unat k \<le> a" and "b \<le> 2 ^ 32" for k :: u32 and a b
    using that
  proof (induction "b - a" arbitrary: a k)
    case (Suc n)
    then have "[a..<b] = a # [Suc a..<b]" by (simp add: upt_conv_Cons)
    moreover have "unat (word_of_nat a :: u32) = a" using Suc by (simp add: unat_of_nat take_bit_nat_eq_self)
    ultimately show ?case using Suc by (simp add: word_le_nat_alt)
  qed simp
  moreover have "Suc (unat (MilestoneIndex_value target)) \<le> 2 ^ 32"
    using unat_less_pow [of "MilestoneIndex_value target"] by simp
  ultimately show ?thesis unfolding indices_upto_def using assms [unfolded word_le_nat_alt] by blast
qed

lemma prune_indices_ready:
  assumes "keys_of iter" and "prune_ready d self" and "ascending (pruned_upto self) is"
    and "prune_indices d iter now cfg is self = Some (r, self')"
  shows "prune_ready d self'"
  using assms(2-)
proof (induction "is" arbitrary: self)
  case (Cons i "is")
  then obtain r1 self1 where step: "prune_index_step d iter (now i) cfg i self = Some (r1, self1)"
    by (auto simp: bind_eq_Some_conv)
  note ok = prune_index_step_ready [OF assms(1) Cons.prems(1) _ step]
  show ?case
  proof (cases r1)
    case (Inl e)
    with Cons.prems step ok show ?thesis by simp
  next
    case (Inr u)
    with Cons.prems step ok Cons.IH [of self1] show ?thesis
      using ascending_mono [of "MilestoneIndex_value i" "is" "pruned_upto self1"] by simp
  qed
qed simp

lemma prune_ready_kept:
  assumes "keys_of iter" and "prune_ready d self" and "pruned_upto self \<le> MilestoneIndex_value start"
    and "prune d iter now start target cfg self = Some (r, self')"
  shows "prune_ready d self'"
  using assms prune_indices_ready [OF assms(1,2) ascending_indices] by (auto simp: prune_def split: if_splits)

section \<open>Termination\<close>

lemma prune_indexation_total:
  assumes "Message_valid d msg"
  shows "\<exists>b'. prune_indexation m msg b = Some b'"
proof -
  have "IndexationPayload_valid x" if "unwrap_indexation (Message_payload msg) = Some x" for x
    using that assms
    by (auto simp: unwrap_indexation_def Message_valid_def Message_parts_valid_def option_payload_ok_def Payload_valid_def
        numeral_3_eq_3 TransactionPayload_valid_def RegularEssence_valid_def
        split: option.splits Payload.splits Essence.splits)
  then show ?thesis
    by (cases "unwrap_indexation (Message_payload msg)")
      (auto simp: prune_indexation_def elim: IndexationPayload_padded_index_total)
qed

lemma prune_cone_returns:
  assumes fin: "finite (dom (message_of s))" and valid: "\<And>m msg. message_of s m = Some msg \<Longrightarrow> Message_valid d msg"
  shows "\<exists>r. prune_cone s th i cur visited cache seps to_visit b = Some r"
proof (induction "(card (dom (message_of s) - visited), length to_visit)" arbitrary: visited cache seps to_visit b
    rule: wf_induct_rule [OF wf_lex_prod [OF wf_less_than wf_less_than]])
  case 1
  show ?case
  proof (cases to_visit)
    case Nil
    then show ?thesis by (subst prune_cone.simps) simp
  next
    case (Cons m rest)
    consider (skip) "m \<in> visited \<or> cur (SolidEntryPoint m) \<noteq> None"
      | (missing) "m \<notin> visited" "cur (SolidEntryPoint m) = None" "message_of s m = None"
      | (visit) msg where "m \<notin> visited" "cur (SolidEntryPoint m) = None" "message_of s m = Some msg" by fastforce
    then show ?thesis
    proof cases
      case skip
      have "\<exists>r. prune_cone s th i cur visited cache seps rest b = Some r" by (rule 1) (simp_all add: Cons)
      with Cons skip show ?thesis by (subst prune_cone.simps) auto
    next
      case missing
      with Cons show ?thesis by (subst prune_cone.simps) (simp add: Table_fetch_def)
    next
      case visit
      from prune_indexation_total [OF valid [OF visit(3)]] obtain b' where b': "prune_indexation m msg b = Some b'" by blast
      have "card (dom (message_of s) - insert m visited) < card (dom (message_of s) - visited)"
        by (rule psubset_card_mono) (use fin visit in auto)
      then have "\<exists>r. prune_cone s th i cur (insert m visited) cache' seps' tv b2 = Some r" for cache' seps' tv b2
        by (intro 1) simp_all
      with Cons visit b' show ?thesis
        by (subst prune_cone.simps) (auto simp: Table_fetch_def Let_def split: sum.split)
    qed
  qed
qed

lemma prune_unconfirmed_total:
  assumes valid: "\<And>m msg. message_of s m = Some msg \<Longrightarrow> Message_valid d msg"
  shows "\<exists>r. prune_unconfirmed d s i us b = Some r"
proof (induction us arbitrary: b)
  case (Cons u us)
  let ?m = "UnreferencedMessage_message_id u"
  show ?case
  proof (cases "message_of s ?m")
    case None
    with Cons show ?thesis by (simp add: Let_def Table_fetch_def VecBinTable_fetch_def split: option.split)
  next
    case (Some msg)
    from prune_indexation_total [OF valid [OF Some]] obtain b' where
      "prune_indexation ?m msg (prune_message_and_metadata ?m b) = Some b'" by blast
    with Some Cons show ?thesis by (simp add: Let_def Table_fetch_def VecBinTable_fetch_def split: option.split)
  qed
qed simp

lemma prune_index_step_total:
  assumes "prune_ready d self"
  shows "\<exists>r self'. prune_index_step d iter now cfg i self = Some (r, self')"
proof -
  let ?t = "pr_tangle self" and ?s = "storage (pr_tangle self)"
  have fin: "finite (dom (message_of ?s))" and valid: "\<And>m msg. message_of ?s m = Some msg \<Longrightarrow> Message_valid d msg"
    using assms by (auto simp: prune_ready_def)
  obtain x where x: "prune_confirmed_data ?t batch_begin i (solid_entry_points ?t) = Some x"
    using prune_cone_returns [OF fin valid] by (fastforce simp: prune_confirmed_data_def Let_def split: option.splits)
  have data: "\<exists>b'. prune_milestone_data ?s b i f = Some b'" for b f
    by (auto simp: prune_milestone_data_def prune_receipts_def VecTable_fetch_def Let_def split: option.splits)
  have unconf: "\<exists>r. prune_unconfirmed_data d ?s b i = Some r" for b
    using prune_unconfirmed_total [OF valid] by (simp add: prune_unconfirmed_data_def)
  show ?thesis
  proof (cases x)
    case (Inl e)
    with x show ?thesis by (simp add: prune_index_step_def Let_def)
  next
    case (Inr y)
    obtain new b where y: "y = (new, b)" by (cases y)
    from data obtain b1 where b1: "prune_milestone_data ?s (insert_seps_batch
        (entries iter (new ++ retain_seps (pr_num_prunings self) i (solid_entry_points ?t))) b) i
        (prune_receipts_enabled cfg) = Some b1" by blast
    from unconf obtain z where z: "prune_unconfirmed_data d ?s b1 i = Some z" by blast
    from x Inr y b1 z show ?thesis by (cases z) (simp_all add: prune_index_step_def Let_def split: prod.split)
  qed
qed

lemma prune_indices_total:
  assumes "keys_of iter" and "prune_ready d self" and "ascending (pruned_upto self) is"
  shows "\<exists>r self'. prune_indices d iter now cfg is self = Some (r, self')"
  using assms(2-)
proof (induction "is" arbitrary: self)
  case (Cons i "is")
  from prune_index_step_total [OF Cons.prems(1)] obtain r1 self1 where
    step: "prune_index_step d iter (now i) cfg i self = Some (r1, self1)" by blast
  with Cons.prems prune_index_step_ready [OF assms(1) Cons.prems(1) _ step]
  have ok: "prune_ready d self1" "ascending (pruned_upto self1) is"
    using ascending_mono [of "MilestoneIndex_value i" "is" "pruned_upto self1"] by simp_all
  from Cons.IH [OF ok] step show ?case by (cases r1) auto
qed simp

section \<open>Success\<close>

definition cone_complete :: "InnerStorage \<Rightarrow> Seps \<Rightarrow> MessageId \<Rightarrow> bool" where
  "cone_complete s cur tip \<longleftrightarrow> (\<forall>m \<in> pruned_cone s cur tip. message_of s m \<noteq> None \<and>
     (\<forall>a \<in> approvers s m. metadata_of s a \<noteq> None))"

lemma max_conf_index_total:
  assumes "\<forall>a \<in> set ids. metadata_of s a \<noteq> None"
  shows "\<exists>r. max_conf_index s th i ids cache k = Inr r"
  using assms by (induction ids arbitrary: cache k) (auto simp: Table_fetch_def Let_def split: option.split)

lemma keep_as_sep_total:
  assumes "\<forall>a \<in> approvers s m. metadata_of s a \<noteq> None"
  shows "\<exists>cache' seps'. keep_as_sep s th i m visited cache seps = Inr (cache', seps')"
proof -
  obtain as where as: "VecBinTable_fetch (message_id_to_message_id s) m = Some as"
    by (cases "message_id_to_message_id s m") (simp_all add: VecBinTable_fetch_def)
  with assms have "\<forall>a \<in> set (filter (\<lambda>m. m \<notin> visited) as). metadata_of s a \<noteq> None"
    by (auto simp: approvers_def or_empty_def)
  from max_conf_index_total [OF this] obtain c k where
    "max_conf_index s th i (filter (\<lambda>m. m \<notin> visited) as) cache (MilestoneIndex_value i) = Inr (c, k)" by fastforce
  with as show ?thesis by (simp add: keep_as_sep_def Let_def)
qed

lemma prune_cone_not_Inl:
  assumes "prune_cone s th i cur visited cache seps to_visit b = Some r" and "cone_complete s cur tip"
    and "\<forall>x \<in> set to_visit. cur (SolidEntryPoint x) = None \<longrightarrow> x \<in> pruned_cone s cur tip"
  shows "\<not> isl r"
  using assms
proof (induction s th i cur visited cache seps to_visit b r
    rule: prune_cone.raw_induct [rotated, consumes 1, case_names step])
  case (step f s th i cur visited cache seps to_visit b r)
  note IH = step.IH [OF _ step.prems(1)]
  show ?case
  proof (cases to_visit)
    case Nil
    with step.hyps show ?thesis by auto
  next
    case (Cons m rest)
    show ?thesis
    proof (cases "m \<in> visited \<or> cur (SolidEntryPoint m) \<noteq> None")
      case True
      with step.hyps Cons have "f s th i cur visited cache seps rest b = Some r" by auto
      from IH [OF this] step.prems(2) Cons show ?thesis by simp
    next
      case False
      with step.prems Cons have m: "m \<in> pruned_cone s cur tip" by simp
      with step.prems(1) obtain msg where msg: "message_of s m = Some msg" "\<forall>a \<in> approvers s m. metadata_of s a \<noteq> None"
        by (auto simp: cone_complete_def)
      from keep_as_sep_total [OF msg(2)] obtain cache' seps' where
        k: "keep_as_sep s th i m (insert m visited) cache seps = Inr (cache', seps')" by blast
      from step.hyps Cons False msg k obtain b' where
        "f s th i cur (insert m visited) cache' seps' (rest @ Parents_ids (Message_parents msg)) b' = Some r"
        by (auto simp: Table_fetch_def Let_def bind_eq_Some_conv)
      from IH [OF this] step.prems(2) Cons m msg(1) show ?thesis by (auto intro: pruned_parent)
    qed
  qed
qed

lemma prune_index_step_succeeds:
  assumes "keys_of iter" and "prune_ready d self" and "milestone_index_to_milestone (storage (pr_tangle self)) i = Some ms"
    and "cone_complete (storage (pr_tangle self)) (solid_entry_points (pr_tangle self)) (Milestone_message_id ms)"
    and "snapshot_info (storage (pr_tangle self)) \<noteq> None"
  shows "\<exists>self'. prune_index_step d iter now cfg i self = Some (Inr (), self')"
proof -
  from prune_index_step_total [OF assms(2)] obtain r self' where
    step: "prune_index_step d iter now cfg i self = Some (r, self')" by blast
  have f: "finite (dom (solid_entry_points (pr_tangle self)))"
    and inv: "VecBinTable_inv (message_id_to_message_id (storage (pr_tangle self)))"
    using assms(2) by (simp_all add: prune_ready_def prune_ok_def approvers_complete_def)
  from assms(1) f inv step show ?thesis
  proof (cases rule: prune_index_step_effect)
    case (failed e)
    from failed(3) assms(3) obtain b0 where "prune_cone (storage (pr_tangle self))
        (below_max_depth (config (pr_tangle self)) + EXTRA_PRUNING_DEPTH) i (solid_entry_points (pr_tangle self)) {} Map.empty
        Map.empty [Milestone_message_id ms] b0 = Some (Inl e)"
      by (auto simp: prune_confirmed_data_def Let_def Table_fetch_def)
    from prune_cone_not_Inl [OF this assms(4)] show ?thesis by (simp add: pruned_tip)
  next
    case pruned
    with assms(5) step show ?thesis by simp
  qed
qed

section \<open>The ledger\<close>

text \<open>The outputs a milestone has consumed are not unspent, which the deletion of their data relies on.\<close>

definition diffs_spent :: "InnerStorage \<Rightarrow> bool" where
  "diffs_spent s \<longleftrightarrow> (\<forall>i. consumed_at s i \<inter> unspent_ids s = {})"

lemma diffs_spent_applied:
  assumes h: "hash_iter_spec h" and fin: "finite_milestone created consumed deltas" and spent: "diffs_spent s"
    and new: "\<forall>j. consumed_at s j \<inter> dom created = {}"
    and run: "apply_milestone h i created consumed deltas migration s = Inr s'"
  shows "diffs_spent s'"
proof -
  have "finite (dom consumed)" using fin by (simp add: finite_milestone_def)
  note es = entries_spec(1,2) [OF hash_iter_specD(3) [OF h] this]
  have "\<exists>c td. milestone_index_to_output_diff s' = (milestone_index_to_output_diff s)(i \<mapsto>
      OutputDiff_new c (map fst (entries (iter_consumed h) consumed)) td)"
    using run by (cases migration) (auto simp: apply_milestone_Inr_iff batch_views)
  moreover have "fst ` set (entries (iter_consumed h) consumed) = dom consumed" using es by (auto simp: dom_map_of_conv_image_fst [symmetric])
  ultimately have "consumed_at s' j = (if j = i then dom consumed else consumed_at s j)" for j
    by (auto simp: consumed_at_def OutputDiff_new_def)
  then show ?thesis
    using spent new unfolding diffs_spent_def apply_milestone_effect(4) [OF h fin run] by (simp split: if_split) blast
qed

lemma ledger_kept_consistent:
  assumes k: "ledger_kept s s' i" and spent: "diffs_spent s"
  shows "ledger_consistent s' = ledger_consistent s" and "diffs_spent s'"
proof -
  have u: "unspent_ids s' = unspent_ids s"
    using k by (simp add: ledger_kept_def unspent_ids_def is_output_unspent_def)
  have t: "fetch_unspent_treasury_output s' = fetch_unspent_treasury_output s"
    using k by (simp add: ledger_kept_def fetch_unspent_treasury_output_def)
  have c: "output_id_to_created_output s' j = output_id_to_created_output s j" if "j \<in> unspent_ids s" for j
    using k spent that by (auto simp: ledger_kept_def diffs_spent_def restrict_map_def)
  have "unspent_amount s' = unspent_amount s" by (simp add: unspent_amount_def u created_amount_def c)
  moreover have "balance_amount s' = balance_amount s" "address_to_balance s' = address_to_balance s"
    using k by (simp_all add: ledger_kept_def balance_amount_def)
  ultimately show "ledger_consistent s' = ledger_consistent s"
    by (simp add: ledger_consistent_def t u treasury_amount_def spendable_def c)
  have "consumed_at s' j \<subseteq> consumed_at s j" for j
    using k by (auto simp: consumed_at_def ledger_kept_def)
  then show "diffs_spent s'" using spent u by (fastforce simp: diffs_spent_def)
qed

abbreviation pr_store :: "Pruner \<Rightarrow> InnerStorage" where
  "pr_store self \<equiv> storage (pr_tangle self)"

definition same_ledger :: "InnerStorage \<Rightarrow> InnerStorage \<Rightarrow> bool" where
  "same_ledger s s' \<longleftrightarrow> unspent_ids s' = unspent_ids s \<and> address_to_balance s' = address_to_balance s \<and>
     fetch_unspent_treasury_output s' = fetch_unspent_treasury_output s \<and>
     (\<forall>i \<in> unspent_ids s. output_id_to_created_output s' i = output_id_to_created_output s i)"

lemma ledger_kept_same: "ledger_kept s s' i \<Longrightarrow> diffs_spent s \<Longrightarrow> same_ledger s s'"
  by (auto simp: same_ledger_def ledger_kept_def diffs_spent_def restrict_map_def unspent_ids_def is_output_unspent_def
      fetch_unspent_treasury_output_def)

lemma prune_indices_ledger:
  assumes "keys_of iter" and "prune_ready d self" and "ascending (pruned_upto self) is" and "diffs_spent (pr_store self)"
    and "prune_indices d iter now cfg is self = Some (r, self')"
  shows "same_ledger (pr_store self) (pr_store self') \<and> diffs_spent (pr_store self') \<and>
    ledger_consistent (pr_store self') = ledger_consistent (pr_store self)"
  using assms(2-)
proof (induction "is" arbitrary: self)
  case Nil
  then show ?case by (simp add: same_ledger_def)
next
  case (Cons i "is")
  then obtain r1 self1 where step: "prune_index_step d iter (now i) cfg i self = Some (r1, self1)"
    by (auto simp: bind_eq_Some_conv)
  have f: "finite (dom (solid_entry_points (pr_tangle self)))"
    and inv: "VecBinTable_inv (message_id_to_message_id (pr_store self))"
    using Cons.prems(1) by (simp_all add: prune_ready_def prune_ok_def approvers_complete_def)
  from assms(1) f inv step have one: "same_ledger (pr_store self) (pr_store self1) \<and> diffs_spent (pr_store self1) \<and>
      ledger_consistent (pr_store self1) = ledger_consistent (pr_store self)"
  proof (cases rule: prune_index_step_effect)
    case (failed e)
    with Cons.prems show ?thesis by (simp add: same_ledger_def)
  next
    case pruned
    then show ?thesis using ledger_kept_same ledger_kept_consistent Cons.prems(3) by blast
  qed
  note ok = prune_index_step_ready [OF assms(1) Cons.prems(1) _ step]
  show ?case
  proof (cases r1)
    case (Inl e)
    with Cons.prems step one show ?thesis by simp
  next
    case (Inr u)
    have "ascending (pruned_upto self1) is"
      using ok Cons.prems(2) ascending_mono [of "MilestoneIndex_value i" "is" "pruned_upto self1"] by simp
    with Inr Cons.prems step ok one Cons.IH [of self1] show ?thesis by (simp add: same_ledger_def)
  qed
qed

section \<open>A node with a milestone to prune\<close>

definition sample_pruner :: Pruner where
  "sample_pruner = \<lparr>pr_tangle = (cw_tangle sample_node)\<lparr>storage := sample_store
      \<lparr>milestone_index_to_milestone := [MilestoneIndex 1 \<mapsto> Milestone_new (mid 9) 1000],
       snapshot_info := Some (SnapshotInfo_new 1 (MilestoneIndex 0) (MilestoneIndex 0) (MilestoneIndex 0) 7)\<rparr>\<rparr>,
     pr_num_prunings = 0\<rparr>"

definition sample_sep_iter :: "Seps \<Rightarrow> SolidEntryPoint list" where
  "sample_sep_iter = sorted_keys SolidEntryPoint_message_id SolidEntryPoint"

definition sample_config :: PruningConfig where
  "sample_config = PruningConfigBuilder_finish \<lparr>builder_enabled = None, builder_delay = None, builder_prune_receipts = Some True\<rparr>"

lemma sample_sep_iter_keys: "keys_of sample_sep_iter"
  unfolding sample_sep_iter_def by (rule keys_of_sorted_keys) simp

lemma sample_pruner_simps:
  "message_of (pr_store sample_pruner) = [mid 9 \<mapsto> sample_message (Some (Payload_Milestone sample_milestone))]"
  "metadata_of (pr_store sample_pruner) = [mid 9 \<mapsto> MessageMetadata_default]"
  "message_id_to_message_id (pr_store sample_pruner) = [MessageId (replicate 32 7) \<mapsto> [mid 9]]"
  "milestone_index_to_milestone (pr_store sample_pruner) = [MilestoneIndex 1 \<mapsto> Milestone_new (mid 9) 1000]"
  "snapshot_info (pr_store sample_pruner) \<noteq> None"
  "solid_entry_points (pr_tangle sample_pruner) = [SolidEntryPoint (MessageId (replicate 32 7)) \<mapsto> MilestoneIndex 0]"
  "pruned_upto sample_pruner = 0" "pruning_index (pr_tangle sample_pruner) = MilestoneIndex 0"
  by (simp_all add: sample_pruner_def sample_store_def sample_node_def Tangle_new_def pruned_upto_def)

lemma sample_pruner_ready: "prune_ready sample_deps sample_pruner"
proof -
  have "approvers_complete (pr_store sample_pruner)"
    by (auto simp: approvers_complete_def sample_pruner_simps VecBinTable_inv_def approvers_def VecBinTable_fetch_def
        or_empty_def sample_message_def)
  moreover have "seps_cover sample_deps 0 (pr_store sample_pruner) (solid_entry_points (pr_tangle sample_pruner))"
    by (simp add: seps_cover_def sample_pruner_simps MessageMetadata_default_def)
  ultimately show ?thesis
    using sample_milestone_valid by (simp add: prune_ready_def prune_ok_def sample_pruner_simps message_ok_def)
qed

lemma sample_pruner_cone:
  "pruned_cone (pr_store sample_pruner) (solid_entry_points (pr_tangle sample_pruner)) (mid 9) = {mid 9}"
proof
  show "pruned_cone (pr_store sample_pruner) (solid_entry_points (pr_tangle sample_pruner)) (mid 9) \<subseteq> {mid 9}"
  proof
    fix m
    assume "m \<in> pruned_cone (pr_store sample_pruner) (solid_entry_points (pr_tangle sample_pruner)) (mid 9)"
    then show "m \<in> {mid 9}"
      by induction (auto simp: sample_pruner_simps sample_message_def split: if_splits)
  qed
  show "{mid 9} \<subseteq> pruned_cone (pr_store sample_pruner) (solid_entry_points (pr_tangle sample_pruner)) (mid 9)"
    by (simp add: pruned_tip sample_pruner_simps mid_def)
qed

lemma sample_pruner_complete:
  "cone_complete (pr_store sample_pruner) (solid_entry_points (pr_tangle sample_pruner)) (mid 9)"
  unfolding cone_complete_def sample_pruner_cone
  by (simp add: approvers_def sample_pruner_simps VecBinTable_fetch_def or_empty_def mid_def)

lemma sample_pruner_step:
  "\<exists>self'. prune_index_step sample_deps sample_sep_iter now cfg (MilestoneIndex 1) sample_pruner = Some (Inr (), self')"
  by (rule prune_index_step_succeeds [OF sample_sep_iter_keys sample_pruner_ready, where ms = "Milestone_new (mid 9) 1000"])
    (use sample_pruner_complete in \<open>simp_all add: sample_pruner_simps Milestone_new_def\<close>)

lemma sample_pruner_prune:
  "\<exists>self'. prune sample_deps sample_sep_iter now (MilestoneIndex 1) (MilestoneIndex 1) cfg sample_pruner = Some (Inr (), self')"
  using sample_pruner_step [of "now (MilestoneIndex 1)" cfg] by (auto simp: prune_def indices_upto_def)

lemma sample_pruner_spent: "diffs_spent (pr_store sample_pruner)"
  by (simp add: diffs_spent_def consumed_at_def sample_pruner_def sample_store_def Storage_new_def)

lemma sample_pruner_ledger: "ledger_consistent (pr_store sample_pruner)"
proof -
  have "ledger_consistent sample_store"
    by (rule ledger_ok_consistent [OF sample_store_ledger(1) [of sample_deps]])
  then show ?thesis
    by (simp add: sample_pruner_def ledger_consistent_def fetch_unspent_treasury_output_def unspent_ids_def
        is_output_unspent_def spendable_def unspent_amount_def treasury_amount_def balance_amount_def created_amount_def)
qed

lemma unat_plus_small: "unat (a :: u32) + unat b < 2 ^ 32 \<Longrightarrow> unat (a + b) = unat a + unat b"
  by (simp add: unat_word_ariths)

section \<open>Properties\<close>











text \<open>C13. The range that is pruned follows what has been pruned, has at most 201 milestones, and stays behind the
  ledger by the depth of the snapshots and by the depth below which messages count as too old, each with its
  margin of five milestones, as long as the indices do not exceed 32 bits.\<close>

theorem pruning_range:
  assumes "should_prune t index (effective_pruning_delay bmd (effective_snapshot_depth bmd snapshot_config) pruning_config)
      pruning_config = Inr (start, target)"
    and "unat (MilestoneIndex_value (pruning_index t)) +
      unat (effective_pruning_delay bmd (effective_snapshot_depth bmd snapshot_config) pruning_config) + 201 < 2 ^ 32"
    and "unat (effective_snapshot_depth bmd snapshot_config) + unat bmd + 5 < 2 ^ 32" and "unat bmd + 5 < 2 ^ 32"
  shows "unat (MilestoneIndex_value start) = unat (MilestoneIndex_value (pruning_index t)) + 1 \<and>
    MilestoneIndex_value start \<le> MilestoneIndex_value target \<and>
    unat (MilestoneIndex_value target) \<le> unat (MilestoneIndex_value start) + 200 \<and>
    unat (MilestoneIndex_value target) + unat (effective_snapshot_depth bmd snapshot_config) + unat bmd + 5
      \<le> unat (MilestoneIndex_value (LedgerIndex_index index)) \<and>
    unat bmd + 5 \<le> unat (effective_snapshot_depth bmd snapshot_config)"
proof -
  let ?depth = "effective_snapshot_depth bmd snapshot_config" and ?l = "MilestoneIndex_value (LedgerIndex_index index)"
  let ?delay = "effective_pruning_delay bmd ?depth pruning_config" and ?p = "MilestoneIndex_value (pruning_index t)"
  have u: "unat (?p + 1) = unat ?p + 1" "unat (?p + 1 + ?delay) = unat ?p + 1 + unat ?delay" "unat (201 + ?p) = unat ?p + 201"
    using assms(2) by (simp_all add: unat_plus_small)
  have depth: "unat bmd + 5 \<le> unat ?depth"
    using assms(4) by (simp add: effective_snapshot_depth_def Let_def EXTRA_SNAPSHOT_DEPTH_def word_less_nat_alt unat_plus_small)
  have delay: "unat ?depth + unat bmd + 5 \<le> unat ?delay"
    using assms(3,4) by (simp add: effective_pruning_delay_def Let_def EXTRA_PRUNING_DEPTH_def word_less_nat_alt unat_plus_small)
  have l: "\<not> ?l < ?p + 1 + ?delay" and start: "start = MilestoneIndex (?p + 1)"
    and target: "target = (if ?l - ?delay > ?p + 1 + 200 then MilestoneIndex (?p + 1 + 200) else MilestoneIndex (?l - ?delay))"
    using assms(1) by (auto simp: should_prune_def Let_def PRUNING_BATCH_SIZE_MAX_def split: if_splits)
  then have le: "unat ?p + 1 + unat ?delay \<le> unat ?l" by (simp add: word_less_nat_alt u)
  then have "unat (?l - ?delay) = unat ?l - unat ?delay" by (intro unat_sub) (simp add: word_le_nat_alt)
  then show ?thesis using le delay depth by (auto simp: start target word_less_nat_alt word_le_nat_alt u)
qed

theorem pruning_range_witness:
  "should_prune (pr_tangle sample_pruner) (LedgerIndex (MilestoneIndex 100))
      (effective_pruning_delay 15 (effective_snapshot_depth 15 \<lparr>snapshot_depth = 50, interval_synced = 50, interval_unsynced = 1000\<rparr>)
        (sample_config\<lparr>pruning_delay := 60\<rparr>)) (sample_config\<lparr>pruning_delay := 60\<rparr>) =
      Inr (MilestoneIndex 1, MilestoneIndex 30) \<and>
   unat (30 :: u32) + unat (effective_snapshot_depth 15 \<lparr>snapshot_depth = 50, interval_synced = 50, interval_unsynced = 1000\<rparr>)
     + unat (15 :: u32) + 5 \<le> unat (100 :: u32)"
proof -
  let ?c = "sample_config\<lparr>pruning_delay := 60\<rparr>"
  let ?s = "\<lparr>snapshot_depth = 50, interval_synced = 50, interval_unsynced = 1000\<rparr> :: SnapshotConfig"
  have d: "effective_snapshot_depth 15 ?s = 50" by (simp add: effective_snapshot_depth_def EXTRA_SNAPSHOT_DEPTH_def)
  have e: "effective_pruning_delay 15 50 ?c = 70" by (simp add: effective_pruning_delay_def EXTRA_PRUNING_DEPTH_def)
  have r: "should_prune (pr_tangle sample_pruner) (LedgerIndex (MilestoneIndex 100)) 70 ?c = Inr (MilestoneIndex 1, MilestoneIndex 30)"
    by (simp add: should_prune_def sample_pruner_simps sample_config_def PruningConfigBuilder_finish_def unwrap_or_def
        PRUNING_BATCH_SIZE_MAX_def)
  show ?thesis
    using pruning_range [where bmd = 15 and snapshot_config = ?s and pruning_config = ?c, unfolded d e, OF r]
    by (simp add: d e r sample_pruner_simps)
qed

text \<open>C27. Receipts of a pruned milestone stay: receipts are stored under the index of the migration they belong
  to, but pruning looks for them under the index of the milestone that contained them. If the two differ,
  the receipt is still stored after the milestone has been pruned together with its receipts.\<close>

theorem pruning_leaves_receipts:
  assumes "Storage_inv s" and "apply_milestone h i created consumed deltas (Some m) s = Inr s'"
    and "ReceiptPayload_migrated_at (LedgerReceipt_inner (Migration_receipt m)) \<noteq> i"
    and "prune_milestone_data s' batch_begin i True = Some b"
  shows "receipts_of (batch_commit b s') (ReceiptPayload_migrated_at (LedgerReceipt_inner (Migration_receipt m)), Migration_receipt m) =
    Some ()"
proof -
  let ?k = "ReceiptPayload_migrated_at (LedgerReceipt_inner (Migration_receipt m))"
  have receipts: "batch_map (b_milestone_index_to_receipt (fold (\<lambda>receipt b. b\<lparr>b_milestone_index_to_receipt :=
      TableBatch_delete (i, receipt) (b_milestone_index_to_receipt b)\<rparr>) rs b)) f (?k, x) =
    batch_map (b_milestone_index_to_receipt b) f (?k, x)" for rs f and b :: StorageBatch and x :: LedgerReceipt
    using assms(3) by (induction rs arbitrary: b) simp_all
  have "b_milestone_index_to_receipt (fold prune_consumed_output ids b) = b_milestone_index_to_receipt b" for ids and b :: StorageBatch
    by (induction ids arbitrary: b) (simp_all add: prune_consumed_output_def)
  then have "b_milestone_index_to_receipt (prune_output_diff s' i (prune_milestone i batch_begin)) = []"
    by (simp add: prune_output_diff_def prune_milestone_def Let_def batch_begin_def split: option.split)
  then have "batch_map (b_milestone_index_to_receipt b) f (?k, x) = f (?k, x)" for f and x :: LedgerReceipt
    using assms(4) receipts by (auto simp: prune_milestone_data_def prune_receipts_def Let_def)
  moreover have "VecTable_inv (milestone_index_to_receipt s')"
    using apply_milestone_treasury(4) [OF assms(1,2)] by (simp add: Storage_inv_def)
  ultimately show ?thesis
    using apply_milestone_treasury(2) [OF assms(1,2)]
    by (simp add: receipts_of_def batch_commit_def VecTable.lookup_commit)
qed

definition sample_receipt :: Migration where
  "sample_receipt = Migration_new
     (LedgerReceipt_new (ReceiptPayload (MilestoneIndex 5) True [] (sample_indexation 3)) (MilestoneIndex 1)) sample_treasury sample_treasury"

theorem pruning_leaves_receipts_witness:
  "\<exists>s' b. apply_milestone sorted_iter (MilestoneIndex 1) Map.empty Map.empty Map.empty (Some sample_receipt) Storage_new = Inr s' \<and>
     prune_milestone_data s' batch_begin (MilestoneIndex 1) True = Some b \<and>
     receipts_of (batch_commit b s') (MilestoneIndex 5, Migration_receipt sample_receipt) = Some ()"
proof -
  have inv: "Storage_inv Storage_new" by (simp add: Storage_inv_def Storage_new_def VecBinTable_inv_def VecTable_inv_def)
  obtain s' where s': "apply_milestone sorted_iter (MilestoneIndex 1) Map.empty Map.empty Map.empty (Some sample_receipt) Storage_new = Inr s'"
    by (simp add: apply_milestone_Inr_iff entries_def sorted_iter_def sorted_keys_def)
  obtain b where b: "prune_milestone_data s' batch_begin (MilestoneIndex 1) True = Some b"
    by (fastforce simp: prune_milestone_data_def prune_receipts_def VecTable_fetch_def Let_def split: option.splits)
  have k: "ReceiptPayload_migrated_at (LedgerReceipt_inner (Migration_receipt sample_receipt)) = MilestoneIndex 5"
    by (simp add: sample_receipt_def Migration_new_def LedgerReceipt_new_def)
  from pruning_leaves_receipts [OF inv s' _ b] s' b show ?thesis by (simp add: k)
qed

end
