(* ===== verification/Spec2Isabelle.thy ===== *)
theory Spec2Isabelle
  imports Consensus_Properties Pruning_Properties
begin

text \<open>
  Verification of the message layer, the ledger and the tangle of the IOTA node bee.
\<close>

end
